(* ===== verification/Go_Prelude.thy ===== *)
theory Go_Prelude
  imports Main "HOL-Library.AList" "HOL-Library.Word" "HOL-Library.Sublist" "HOL-Library.Multiset"
begin

text \<open>
  The vocabulary the components share: the rule collections of the development, Go values
  of the standard library the sources use (decimal formatting and parsing of \<open>fmt\<close> and
  \<open>strconv\<close>, \<open>strings.Split\<close> and \<open>strings.Join\<close>, \<open>time.Time.Sub\<close>), and
  Go maps as association lists.

  A Go \<open>map\<close> is an association list with distinct keys (\<^theory_text>\<open>go_map\<close>):
  \<^const>\<open>map_of\<close> is the lookup, \<open>AList.update\<close> the assignment \<open>m[k] = v\<close>, and
  the order of the list is the order in which one \<open>range\<close> loop visits the map, which Go
  leaves open. A \<open>time.Duration\<close> and a \<open>time.Time\<close> are counts of nanoseconds.
\<close>

named_theorems go_simps \<open>equations of the components, for \<open>simp add: go_simps\<close>\<close>
named_theorems go_intros \<open>introduction rules of the components\<close>

type_synonym duration = int
type_synonym time = int
type_synonym ('k, 'v) go_map = "('k \<times> 'v) list"
type_synonym int32 = "32 word"
type_synonym uint64 = "64 word"

subsection \<open>Decimal text: \<open>fmt\<close> verb \<open>%d\<close>, \<open>strconv.FormatUint\<close>, \<open>strconv.ParseUint\<close>\<close>

definition digit_char :: "nat \<Rightarrow> char" where
  "digit_char d = char_of (48 + d)"

definition is_digit :: "char \<Rightarrow> bool" where
  "is_digit c \<longleftrightarrow> 48 \<le> (of_char c :: nat) \<and> (of_char c :: nat) \<le> 57"

definition digit_val :: "char \<Rightarrow> nat" where
  "digit_val c = of_char c - 48"

fun utoa :: "nat \<Rightarrow> string" where
  "utoa n = (if n < 10 then [digit_char n] else utoa (n div 10) @ [digit_char (n mod 10)])"

definition itoa :: "int \<Rightarrow> string" where
  "itoa i = (if i < 0 then CHR ''-'' # utoa (nat (- i)) else utoa (nat i))"

definition atou :: "string \<Rightarrow> nat option" where
  "atou s = (if s \<noteq> [] \<and> list_all is_digit s
             then Some (foldl (\<lambda>acc c. acc * 10 + digit_val c) 0 s) else None)"

text \<open>\<open>strconv.ParseUint(s, 10, 64)\<close>: digits only, and the value must fit 64 bits.\<close>

definition parse_uint64 :: "string \<Rightarrow> uint64 option" where
  "parse_uint64 s = (case atou s of None \<Rightarrow> None
     | Some n \<Rightarrow> if n < 2 ^ 64 then Some (of_nat n) else None)"

definition format_uint64 :: "uint64 \<Rightarrow> string" where
  "format_uint64 w = utoa (unat w)"

text \<open>\<open>strconv.Atoi\<close> / \<open>strconv.ParseInt(s, 10, bits)\<close>: an optional sign, digits, range.\<close>

definition parse_int :: "nat \<Rightarrow> string \<Rightarrow> int option" where
  "parse_int bits s =
     (let (neg, body) = (case s of [] \<Rightarrow> (False, s)
            | c # cs \<Rightarrow> if c = CHR ''-'' then (True, cs)
                        else if c = CHR ''+'' then (False, cs) else (False, s))
      in case atou body of None \<Rightarrow> None
         | Some n \<Rightarrow> let v = (if neg then - int n else int n)
             in if - (2 ^ (bits - 1)) \<le> v \<and> v < 2 ^ (bits - 1) then Some v else None)"

subsection \<open>Strings\<close>

text \<open>\<open>strings.Split(s, sep)\<close> for a one-byte separator.\<close>

fun str_split :: "char \<Rightarrow> string \<Rightarrow> string list" where
  "str_split c [] = [[]]"
| "str_split c (x # xs) =
     (if x = c then [] # str_split c xs
      else case str_split c xs of [] \<Rightarrow> [[x]] | p # ps \<Rightarrow> (x # p) # ps)"

fun str_join :: "string \<Rightarrow> string list \<Rightarrow> string" where
  "str_join sep [] = []"
| "str_join sep [x] = x"
| "str_join sep (x # y # zs) = x @ sep @ str_join sep (y # zs)"

text \<open>The comparison \<open>a < b\<close> of Go strings: bytewise lexicographic.\<close>

fun str_less :: "string \<Rightarrow> string \<Rightarrow> bool" where
  "str_less _ [] = False"
| "str_less [] (_ # _) = True"
| "str_less (x # xs) (y # ys) =
     ((of_char x :: nat) < of_char y \<or> (x = y \<and> str_less xs ys))"

subsection \<open>Time\<close>

text \<open>\<open>t.Sub(u)\<close> saturates at the bounds of a 64-bit count of nanoseconds.\<close>

definition max_duration :: duration where "max_duration = 2 ^ 63 - 1"
definition min_duration :: duration where "min_duration = - (2 ^ 63)"

definition time_sub :: "time \<Rightarrow> time \<Rightarrow> duration" where
  "time_sub t u = max min_duration (min max_duration (t - u))"

abbreviation second :: duration where "second \<equiv> 1000000000"
abbreviation millisecond :: duration where "millisecond \<equiv> 1000000"
abbreviation minute :: duration where "minute \<equiv> 60000000000"

subsection \<open>Integers\<close>

text \<open>Go's \<open>/\<close> and \<open>%\<close> truncate towards zero; \<open>wrap32\<close> is the value an \<open>int32\<close> keeps.\<close>

definition go_div :: "int \<Rightarrow> int \<Rightarrow> int" where
  "go_div a b = sgn a * sgn b * (\<bar>a\<bar> div \<bar>b\<bar>)"

definition go_mod :: "int \<Rightarrow> int \<Rightarrow> int" where
  "go_mod a b = a - b * go_div a b"

definition wrap32 :: "int \<Rightarrow> int" where
  "wrap32 i = (i + 2 ^ 31) mod 2 ^ 32 - 2 ^ 31"

definition wrap64 :: "int \<Rightarrow> int" where
  "wrap64 i = (i + 2 ^ 63) mod 2 ^ 64 - 2 ^ 63"

lemma go_div_nonneg [simp]: "0 \<le> a \<Longrightarrow> 0 < b \<Longrightarrow> go_div a b = a div b"
  by (cases "a = 0") (simp_all add: go_div_def)

lemma go_mod_nonneg [simp]: "0 \<le> a \<Longrightarrow> 0 < b \<Longrightarrow> go_mod a b = a mod b"
  by (simp add: go_mod_def minus_mult_div_eq_mod)

lemma wrap32_id [simp]: "- (2 ^ 31) \<le> i \<Longrightarrow> i < 2 ^ 31 \<Longrightarrow> wrap32 i = i"
  by (simp add: wrap32_def)

lemma wrap32_max [simp]: "wrap32 2147483648 = - 2147483648"
  by (simp add: wrap32_def)

subsection \<open>Lemmas on decimal text\<close>

declare utoa.simps [simp del]

lemma of_char_digit_char [simp]: "d < 10 \<Longrightarrow> (of_char (digit_char d) :: nat) = 48 + d"
  by (simp add: digit_char_def of_char_of)

lemma is_digit_digit_char [simp]: "d < 10 \<Longrightarrow> is_digit (digit_char d)"
  by (simp add: is_digit_def)

lemma digit_val_digit_char [simp]: "d < 10 \<Longrightarrow> digit_val (digit_char d) = d"
  by (simp add: digit_val_def)

lemma utoa_nonempty [simp]: "utoa n \<noteq> []"
  by (subst utoa.simps) simp

lemma utoa_digits: "list_all is_digit (utoa n)"
proof (induction n rule: utoa.induct)
  case (1 n)
  then show ?case by (cases "n < 10") (simp_all add: utoa.simps [of n])
qed

lemma utoa_value: "foldl (\<lambda>acc c. acc * 10 + digit_val c) 0 (utoa n) = n"
proof (induction n rule: utoa.induct)
  case (1 n)
  then show ?case by (cases "n < 10") (simp_all add: utoa.simps [of n])
qed

lemma atou_utoa [simp]: "atou (utoa n) = Some n"
  by (simp add: atou_def utoa_digits utoa_value)

lemma utoa_inject [simp]: "utoa m = utoa n \<longleftrightarrow> m = n"
  by (metis atou_utoa option.inject)

lemma utoa_no_minus: "hd (utoa n) \<noteq> CHR ''-''"
proof -
  have "is_digit (hd (utoa n))"
    using utoa_digits [of n] by (simp add: list_all_iff)
  moreover have "\<not> is_digit (CHR ''-'')" by (simp add: is_digit_def)
  ultimately show ?thesis by metis
qed

lemma itoa_inject [simp]: "itoa i = itoa j \<longleftrightarrow> i = j"
proof -
  have "CHR ''-'' # utoa m \<noteq> utoa n" for m n
    using utoa_no_minus [of n] by (metis list.sel(1))
  then have "CHR ''-'' # utoa m \<noteq> utoa n" "utoa n \<noteq> CHR ''-'' # utoa m" for m n
    by metis+
  then show ?thesis by (auto simp: itoa_def)
qed

lemma parse_format_uint64 [simp]: "parse_uint64 (format_uint64 w) = Some w"
proof -
  have "unat w < 2 ^ 64" using unsigned_less [of w] by simp
  then show ?thesis by (simp add: parse_uint64_def format_uint64_def)
qed

lemma format_uint64_inject [simp]: "format_uint64 v = format_uint64 w \<longleftrightarrow> v = w"
  by (metis option.inject parse_format_uint64)

subsection \<open>Lemmas on strings\<close>

lemma str_split_nonempty [simp]: "str_split c s \<noteq> []"
  by (induction s) (auto split: list.splits)

lemma str_join_Cons_Cons: "str_join sep ((x # p) # ps) = x # str_join sep (p # ps)"
  by (cases ps) simp_all

lemma str_join_split: "str_join [c] (str_split c s) = s"
proof (induction s)
  case Nil
  then show ?case by simp
next
  case (Cons x xs)
  then obtain p ps where s: "str_split c xs = p # ps" by (cases "str_split c xs") auto
  with Cons show ?case by (simp add: str_join_Cons_Cons)
qed

lemma str_less_irrefl [simp]: "\<not> str_less s s"
  by (induction s) auto

subsection \<open>Lemmas on Go maps\<close>

lemma go_map_lookup_update [simp]:
  "map_of (AList.update k v m) k' = (if k' = k then Some v else map_of m k')"
  by (simp add: update_conv')

lemma go_map_lookup_delete [simp]:
  "map_of (AList.delete k m) k' = (if k' = k then None else map_of m k')"
  by (simp add: delete_conv')

lemma if_singleton_Nil: "(if b then [x] else []) = [] \<longleftrightarrow> \<not> b"
  by simp

lemma map_of_perm:
  assumes "distinct (map fst xs)" and "mset xs = mset ys"
  shows "map_of xs = map_of ys"
proof -
  have "set xs = set ys" using assms(2) by (metis set_mset_mset)
  moreover have "distinct (map fst ys)"
    using assms by (metis mset_eq_imp_distinct_iff mset_map)
  ultimately show ?thesis using assms(1) by (metis map_of_inject_set)
qed

end
