(* ===== verification/Go_Errors.thy ===== *)
theory Go_Errors
  imports Go_Prelude
begin

text \<open>
  Package \<open>pkg/errors\<close>: the \<open>ErrorList\<close> every step of a test returns, the sentinel
  \<open>ErrCritical\<close> with \<open>NewErrCritical\<close>, and the metric violation error. A Go \<open>error\<close> is
  a value of \<open>go_error\<close>: a sentinel, a formatted text without \<open>%w\<close> (\<open>ErrText\<close>), a
  formatted text that wraps other errors (\<open>ErrWrap\<close>, one entry per \<open>%w\<close>), or one of the
  error structs the code inspects by type. A function that returns \<open>(value, error)\<close> returns
  \<open>go_error + value\<close>; one that returns only \<open>error\<close> returns \<open>go_error option\<close>. A nil
  \<open>*ErrorList\<close> is \<open>None\<close>.
\<close>

datatype go_error =
    ErrCritical
  | ErrorEmptyFile
  | ErrText string
  | ErrWrap string "go_error list"
  | MetricViolationError string string
  | ErrKeyNotFound string
  | ErrList "go_error list"

type_synonym 'a result = "go_error + 'a"

text \<open>\<open>Error()\<close>. An \<open>ErrWrap\<close> holds its whole text, as \<open>fmt.wrapError\<close> does.\<close>

fun Error :: "go_error \<Rightarrow> string" where
  "Error ErrCritical = ''criticl error''"
| "Error ErrorEmptyFile = ''emptyfile''"
| "Error (ErrText s) = s"
| "Error (ErrWrap s _) = s"
| "Error (MetricViolationError m r) = m @ '': '' @ r"
| "Error (ErrKeyNotFound k) = ''key '' @ k @ '' not found''"
| "Error (ErrList es) = ''['' @ str_join [CHR 0x0A] (map Error es) @ '']''"

text \<open>\<open>errors.Is(err, target)\<close>: the error itself or one it wraps, at any depth.\<close>

fun errors_Is :: "go_error \<Rightarrow> go_error \<Rightarrow> bool" where
  "errors_Is (ErrWrap s es) t \<longleftrightarrow> ErrWrap s es = t \<or> (\<exists>e \<in> set es. errors_Is e t)"
| "errors_Is e t \<longleftrightarrow> e = t"

text \<open>\<open>fatal_error.go\<close>.\<close>

definition NewErrCritical :: "go_error \<Rightarrow> go_error" where
  "NewErrCritical err = ErrWrap (Error ErrCritical @ '': '' @ Error err) [ErrCritical, err]"

text \<open>\<open>metric_violation_error.go\<close>.\<close>

definition NewMetricViolationError :: "string \<Rightarrow> string \<Rightarrow> go_error" where
  "NewMetricViolationError metric reason = MetricViolationError metric reason"

fun IsMetricViolationError :: "go_error \<Rightarrow> bool" where
  "IsMetricViolationError (MetricViolationError _ _) = True"
| "IsMetricViolationError _ = False"

text \<open>\<open>error_list.go\<close>. The mutex makes each operation atomic, so a list is its contents.\<close>

record ErrorList =
  errors :: "go_error list"

definition NewErrorList :: "go_error list \<Rightarrow> ErrorList" where
  "NewErrorList errs = \<lparr>errors = errs\<rparr>"

definition ErrorList_IsEmpty :: "ErrorList \<Rightarrow> bool" where
  "ErrorList_IsEmpty e \<longleftrightarrow> length (errors e) = 0"

definition ErrorList_Append :: "ErrorList \<Rightarrow> go_error list \<Rightarrow> ErrorList" where
  "ErrorList_Append e errs = e\<lparr>errors := errors e @ errs\<rparr>"

definition ErrorList_Concat :: "ErrorList \<Rightarrow> ErrorList option \<Rightarrow> ErrorList" where
  "ErrorList_Concat e e2 = (case e2 of None \<Rightarrow> e | Some l \<Rightarrow> e\<lparr>errors := errors e @ errors l\<rparr>)"

fun has_loop :: "go_error list \<Rightarrow> go_error \<Rightarrow> bool" where
  "has_loop [] t = False"
| "has_loop (e # es) t = (if errors_Is e t then True else has_loop es t)"

definition ErrorList_Has :: "ErrorList \<Rightarrow> go_error \<Rightarrow> bool" where
  "ErrorList_Has e targetErr = has_loop (errors e) targetErr"

text \<open>The loop of \<open>String\<close>: index \<open>i\<close> of \<open>n\<close>, a newline after all but the last.\<close>

fun string_loop :: "nat \<Rightarrow> nat \<Rightarrow> go_error list \<Rightarrow> string" where
  "string_loop n i [] = []"
| "string_loop n i (e # es) =
     Error e @ (if i \<noteq> n - 1 then [CHR 0x0A] else []) @ string_loop n (Suc i) es"

definition ErrorList_String :: "ErrorList \<Rightarrow> string" where
  "ErrorList_String e = ''['' @ string_loop (length (errors e)) 0 (errors e) @ '']''"

definition ErrorList_Error :: "ErrorList \<Rightarrow> string" where
  "ErrorList_Error e = ErrorList_String e"

subsection \<open>The list\<close>

lemma errors_simps [simp, go_simps]:
  "errors (NewErrorList es) = es"
  "errors (ErrorList_Append e es) = errors e @ es"
  "errors (ErrorList_Concat e (Some l)) = errors e @ errors l"
  "ErrorList_Concat e None = e"
  "ErrorList_IsEmpty e \<longleftrightarrow> errors e = []"
  by (simp_all add: NewErrorList_def ErrorList_Append_def ErrorList_Concat_def
      ErrorList_IsEmpty_def)

lemma has_loop_iff: "has_loop es t \<longleftrightarrow> (\<exists>e \<in> set es. errors_Is e t)"
  by (induction es) auto

lemma ErrorList_Has_iff: "ErrorList_Has e t \<longleftrightarrow> (\<exists>x \<in> set (errors e). errors_Is x t)"
  by (simp add: ErrorList_Has_def has_loop_iff)

lemma errors_Is_refl [simp]: "errors_Is e e"
  by (cases e) auto

lemma errors_Is_NewErrCritical [simp]: "errors_Is (NewErrCritical e) ErrCritical"
  by (simp add: NewErrCritical_def)

lemma ErrorList_Has_Concat [simp]:
  "ErrorList_Has (ErrorList_Concat a (Some b)) t \<longleftrightarrow> ErrorList_Has a t \<or> ErrorList_Has b t"
  by (auto simp: ErrorList_Has_iff)

lemma string_loop_join:
  "i + length es = n \<Longrightarrow> string_loop n i es = str_join [CHR 0x0A] (map Error es)"
proof (induction es arbitrary: i)
  case (Cons e es)
  then show ?case by (cases es) auto
qed simp

text \<open>The text of a list is the text of the error value a list becomes.\<close>

lemma ErrorList_String_eq: "ErrorList_String e = Error (ErrList (errors e))"
  by (simp add: ErrorList_String_def string_loop_join)

end
