(* ===== verification/Nodes.thy ===== *)
theory Nodes
  imports Go_Errors
begin

text \<open>
  \<open>pkg/util/cluster.go\<close>: which nodes of a cluster count as schedulable and untainted, and which
  belong to the control plane. A \<open>Node\<close> holds the fields of \<open>corev1.Node\<close> the code reads: its
  conditions and addresses are pairs of type and status or address, its taints pairs of key and
  effect.
\<close>

record Node =
  node_Name :: string
  node_Labels :: "(string, string) go_map"
  node_Unschedulable :: bool
  node_Taints :: "(string \<times> string) list"
  node_Conditions :: "(string \<times> string) list"
  node_Addresses :: "(string \<times> string) list"

definition keyControlPlaneNodeLabelTaint :: string where
  "keyControlPlaneNodeLabelTaint = ''node-role.kubernetes.io/control-plane''"

definition builtInTaintsKeys :: "string list" where
  "builtInTaintsKeys =
     [''node.kubernetes.io/not-ready'', ''node.kubernetes.io/unreachable'', ''node.kubernetes.io/unschedulable'',
      ''node.kubernetes.io/memory-pressure'', ''node.kubernetes.io/disk-pressure'',
      ''node.kubernetes.io/network-unavailable'', ''node.kubernetes.io/pid-pressure'',
      ''node.kubernetes.io/out-of-service'', ''node.cloudprovider.kubernetes.io/uninitialized'',
      ''node.cloudprovider.kubernetes.io/shutdown'']"

fun condition_expected_loop :: "(string \<times> string) list \<Rightarrow> string \<Rightarrow> bool \<Rightarrow> bool" where
  "condition_expected_loop [] conditionType wantTrue = False"
| "condition_expected_loop ((t, status) # conds) conditionType wantTrue =
     (if t = conditionType then wantTrue = (status = ''True'')
      else condition_expected_loop conds conditionType wantTrue)"

definition isNodeConditionSetAsExpected :: "Node \<Rightarrow> string \<Rightarrow> bool \<Rightarrow> bool" where
  "isNodeConditionSetAsExpected node = condition_expected_loop (node_Conditions node)"

fun condition_unset_loop :: "(string \<times> string) list \<Rightarrow> string \<Rightarrow> bool" where
  "condition_unset_loop [] conditionType = True"
| "condition_unset_loop ((t, status) # conds) conditionType =
     (if t = conditionType then False else condition_unset_loop conds conditionType)"

definition isNodeConditionUnset :: "Node \<Rightarrow> string \<Rightarrow> bool" where
  "isNodeConditionUnset node = condition_unset_loop (node_Conditions node)"

definition isNodeSchedulable :: "Node \<Rightarrow> bool" where
  "isNodeSchedulable node =
     (let nodeReady = isNodeConditionSetAsExpected node ''Ready'' True;
          networkReady = (isNodeConditionUnset node ''NetworkUnavailable''
             \<or> isNodeConditionSetAsExpected node ''NetworkUnavailable'' False)
      in \<not> node_Unschedulable node \<and> nodeReady \<and> networkReady)"

fun taint_key_loop :: "string \<Rightarrow> string list \<Rightarrow> bool" where
  "taint_key_loop key [] = False"
| "taint_key_loop key (evictingTaintKey # keys) = (if key = evictingTaintKey then True else taint_key_loop key keys)"

fun untainted_loop :: "(string \<times> string) list \<Rightarrow> bool" where
  "untainted_loop [] = True"
| "untainted_loop ((key, effect) # taints) =
     (if effect \<noteq> ''NoSchedule'' \<and> effect \<noteq> ''NoExecute'' then untainted_loop taints
      else if taint_key_loop key builtInTaintsKeys then False else untainted_loop taints)"

definition isNodeUntainted :: "Node \<Rightarrow> bool" where
  "isNodeUntainted node = untainted_loop (node_Taints node)"

definition IsNodeSchedulableAndUntainted :: "Node \<Rightarrow> bool" where
  "IsNodeSchedulableAndUntainted node \<longleftrightarrow> isNodeSchedulable node \<and> isNodeUntainted node"

fun control_plane_loop :: "(string \<times> string) list \<Rightarrow> bool" where
  "control_plane_loop [] = False"
| "control_plane_loop ((key, _) # rest) =
     (if key = keyControlPlaneNodeLabelTaint then True else control_plane_loop rest)"

definition IsControlPlaneNode :: "Node \<Rightarrow> bool" where
  "IsControlPlaneNode node \<longleftrightarrow> control_plane_loop (node_Labels node) \<or> control_plane_loop (node_Taints node)"

subsection \<open>The loops\<close>

lemma condition_expected_loop_iff [go_simps]:
  "condition_expected_loop conds t wantTrue \<longleftrightarrow> (\<exists>s. map_of conds t = Some s \<and> wantTrue = (s = ''True''))"
  by (induction conds t wantTrue rule: condition_expected_loop.induct) auto

lemma condition_unset_loop_iff [go_simps]: "condition_unset_loop conds t \<longleftrightarrow> map_of conds t = None"
  by (induction conds t rule: condition_unset_loop.induct) auto

lemma taint_key_loop_iff [go_simps]: "taint_key_loop key keys \<longleftrightarrow> key \<in> set keys"
  by (induction keys) auto

lemma untainted_loop_iff [go_simps]:
  "untainted_loop taints \<longleftrightarrow>
     (\<forall>(key, effect) \<in> set taints. effect \<in> {''NoSchedule'', ''NoExecute''} \<longrightarrow> key \<notin> set builtInTaintsKeys)"
  by (induction taints rule: untainted_loop.induct) (auto simp: taint_key_loop_iff)

lemma control_plane_loop_iff [go_simps]:
  "control_plane_loop kvs \<longleftrightarrow> keyControlPlaneNodeLabelTaint \<in> fst ` set kvs"
  by (induction kvs rule: control_plane_loop.induct) auto

end
