(* ===== verification/Pods.thy ===== *)
theory Pods
  imports Go_Errors
begin

text \<open>
  \<open>pkg/measurement/util/pods.go\<close>, \<open>wait_for_pods.go\<close> and \<open>pods_metadata.go\<close>: the status of a
  group of pods, the difference of two groups, and waiting for a number of running pods. A \<open>Pod\<close>
  holds the fields of \<open>corev1.Pod\<close> the code reads. The \<open>select\<close> of \<open>WaitForPods\<close> is driven by a
  list of its outcomes (\<open>wait_event\<close>); \<open>None\<close> says that the list ended while it was waiting.
\<close>

record Pod =
  pod_Name :: string
  pod_Namespace :: string
  pod_DeletionTimestamp :: "time option"
  pod_Phase :: string
  pod_Conditions :: "(string \<times> string) list"
  pod_NodeName :: string

datatype Status =
    Unknown | Terminating | RunningAndReady | RunningButNotReady
  | PendingScheduled | PendingNotScheduled | Inactive

fun Status_String :: "Status \<Rightarrow> string" where
  "Status_String Unknown = ''Unknown''"
| "Status_String Terminating = ''Terminating''"
| "Status_String RunningAndReady = ''RunningAndReady''"
| "Status_String RunningButNotReady = ''RunningButNotReady''"
| "Status_String PendingScheduled = ''PendingScheduled''"
| "Status_String PendingNotScheduled = ''PendingNotScheduled''"
| "Status_String Inactive = ''Inactive''"

record PodsStartupStatus =
  ss_Expected :: int
  ss_Terminating :: int
  ss_Running :: int
  ss_Scheduled :: int
  ss_RunningButNotReady :: int
  ss_Waiting :: int
  ss_Pending :: int
  ss_Unknown :: int
  ss_Inactive :: int
  ss_Created :: int
  ss_RunningUpdated :: int
  ss_LastIsPodUpdatedError :: "go_error option"

definition PodsStartupStatus_String :: "PodsStartupStatus \<Rightarrow> string" where
  "PodsStartupStatus_String s = ''Pods: '' @ itoa (ss_Created s) @ '' out of '' @ itoa (ss_Expected s)
     @ '' created, '' @ itoa (ss_Running s) @ '' running ('' @ itoa (ss_RunningUpdated s) @ '' updated), ''
     @ itoa (ss_Pending s) @ '' pending scheduled, '' @ itoa (ss_Waiting s) @ '' not scheduled, ''
     @ itoa (ss_Inactive s) @ '' inactive, '' @ itoa (ss_Terminating s) @ '' terminating, ''
     @ itoa (ss_Unknown s) @ '' unknown, '' @ itoa (ss_RunningButNotReady s) @ '' runningButNotReady ''"

fun ready_loop :: "(string \<times> string) list \<Rightarrow> bool" where
  "ready_loop [] = False"
| "ready_loop ((t, s) # cs) = (if t = ''Ready'' \<and> s = ''True'' then True else ready_loop cs)"

definition podStatus :: "Pod \<Rightarrow> Status" where
  "podStatus p =
     (if pod_DeletionTimestamp p \<noteq> None then Terminating
      else if pod_Phase p = ''Running''
        then (if ready_loop (pod_Conditions p) then RunningAndReady else RunningButNotReady)
      else if pod_Phase p = ''Pending''
        then (if pod_NodeName p = [] then PendingNotScheduled else PendingScheduled)
      else if pod_Phase p = ''Succeeded'' \<or> pod_Phase p = ''Failed'' then Inactive
      else Unknown)"

text \<open>One pass through the loop of \<open>ComputePodsStartupStatus\<close>.\<close>

definition startup_step ::
    "(Pod \<Rightarrow> go_error option) option \<Rightarrow> PodsStartupStatus \<Rightarrow> Pod \<Rightarrow> PodsStartupStatus" where
  "startup_step isPodUpdated s p =
     (if pod_DeletionTimestamp p \<noteq> None then s\<lparr>ss_Terminating := ss_Terminating s + 1\<rparr>
      else
        let s = s\<lparr>ss_Created := ss_Created s + 1\<rparr>;
            s = (if pod_Phase p = ''Running'' then
                   (if ready_loop (pod_Conditions p) then
                      (let s = s\<lparr>ss_Running := ss_Running s + 1\<rparr>
                       in case isPodUpdated of
                            None \<Rightarrow> s\<lparr>ss_RunningUpdated := ss_RunningUpdated s + 1\<rparr>
                          | Some f \<Rightarrow> (case f p of
                              Some err \<Rightarrow> s\<lparr>ss_LastIsPodUpdatedError := Some err\<rparr>
                            | None \<Rightarrow> s\<lparr>ss_RunningUpdated := ss_RunningUpdated s + 1\<rparr>))
                    else s\<lparr>ss_RunningButNotReady := ss_RunningButNotReady s + 1\<rparr>)
                 else if pod_Phase p = ''Pending'' then
                   (if pod_NodeName p = [] then s\<lparr>ss_Waiting := ss_Waiting s + 1\<rparr>
                    else s\<lparr>ss_Pending := ss_Pending s + 1\<rparr>)
                 else if pod_Phase p = ''Succeeded'' \<or> pod_Phase p = ''Failed''
                   then s\<lparr>ss_Inactive := ss_Inactive s + 1\<rparr>
                 else if pod_Phase p = ''Unknown'' then s\<lparr>ss_Unknown := ss_Unknown s + 1\<rparr>
                 else s)
        in if pod_NodeName p \<noteq> [] then s\<lparr>ss_Scheduled := ss_Scheduled s + 1\<rparr> else s)"

definition zero_status :: PodsStartupStatus where
  "zero_status = \<lparr>ss_Expected = 0, ss_Terminating = 0, ss_Running = 0, ss_Scheduled = 0,
     ss_RunningButNotReady = 0, ss_Waiting = 0, ss_Pending = 0, ss_Unknown = 0, ss_Inactive = 0,
     ss_Created = 0, ss_RunningUpdated = 0, ss_LastIsPodUpdatedError = None\<rparr>"

definition ComputePodsStartupStatus ::
    "Pod list \<Rightarrow> int \<Rightarrow> (Pod \<Rightarrow> go_error option) option \<Rightarrow> PodsStartupStatus" where
  "ComputePodsStartupStatus pods expected isPodUpdated =
     foldl (startup_step isPodUpdated) (zero_status\<lparr>ss_Expected := expected\<rparr>) pods"

subsection \<open>The difference of two groups\<close>

definition nonExist :: string where
  "nonExist = ''NonExist''"

record podDiffInfo =
  oldHostname :: string
  oldPhase :: string
  hostname :: string
  di_phase :: string

type_synonym PodDiff = "(string, podDiffInfo) go_map"

fun diff_cur_loop :: "Pod list \<Rightarrow> PodDiff \<Rightarrow> PodDiff" where
  "diff_cur_loop [] m = m"
| "diff_cur_loop (p # ps) m = diff_cur_loop ps (AList.update (pod_Name p)
     \<lparr>oldHostname = nonExist, oldPhase = nonExist, hostname = pod_NodeName p, di_phase = pod_Phase p\<rparr> m)"

fun diff_old_loop :: "Pod list \<Rightarrow> PodDiff \<Rightarrow> PodDiff" where
  "diff_old_loop [] m = m"
| "diff_old_loop (p # ps) m = diff_old_loop ps (AList.update (pod_Name p)
     (case map_of m (pod_Name p) of
        Some info \<Rightarrow> info\<lparr>oldHostname := pod_NodeName p, oldPhase := pod_Phase p\<rparr>
      | None \<Rightarrow> \<lparr>oldHostname = pod_NodeName p, oldPhase = pod_Phase p, hostname = nonExist, di_phase = nonExist\<rparr>) m)"

definition DiffPods :: "Pod list \<Rightarrow> Pod list \<Rightarrow> PodDiff" where
  "DiffPods oldPods curPods = diff_old_loop oldPods (diff_cur_loop curPods [])"

definition DeletedPods :: "PodDiff \<Rightarrow> string list" where
  "DeletedPods p = map fst (filter (\<lambda>(name, info). hostname info = nonExist) p)"

definition AddedPods :: "PodDiff \<Rightarrow> string list" where
  "AddedPods p = map fst (filter (\<lambda>(name, info). oldHostname info = nonExist) p)"

subsection \<open>\<open>PodsStatus\<close>\<close>

record PodInfo =
  pi_Name :: string
  pi_Hostname :: string
  pi_Phase :: string
  pi_Status :: Status
  pi_Namespace :: string

definition PodInfo_String :: "PodInfo \<Rightarrow> string" where
  "PodInfo_String p = ''{'' @ pi_Namespace p @ '' '' @ pi_Name p @ '' '' @ pi_Phase p @ '' ''
     @ Status_String (pi_Status p) @ '' '' @ pi_Hostname p @ ''}''"

record PodsStatus =
  ps_Info :: "PodInfo list"

definition ComputePodsStatus :: "Pod list \<Rightarrow> PodsStatus" where
  "ComputePodsStatus pods = \<lparr>ps_Info = map (\<lambda>p. \<lparr>pi_Name = pod_Name p, pi_Hostname = pod_NodeName p,
     pi_Phase = pod_Phase p, pi_Status = podStatus p, pi_Namespace = pod_Namespace p\<rparr>) pods\<rparr>"

definition NotRunningAndReady :: "PodsStatus \<Rightarrow> PodsStatus" where
  "NotRunningAndReady ps = \<lparr>ps_Info = filter (\<lambda>i. pi_Status i \<noteq> RunningAndReady) (ps_Info ps)\<rparr>"

subsection \<open>\<open>WaitForPods\<close>\<close>

record WaitForPodOptions =
  CountErrorMargin :: int
  IsPodUpdated :: "(Pod \<Rightarrow> go_error option) option"

text \<open>
  The context is done with its error (\<open>true\<close>: the deadline was exceeded), or the interval has
  passed; each event carries the result of \<open>DesiredPodCount()\<close> and of \<open>List()\<close>.
\<close>

datatype wait_event = CtxDone bool go_error int | Tick int "Pod list result"

definition list_error :: "go_error \<Rightarrow> go_error" where
  "list_error err = ErrWrap (''failed to list pods: '' @ Error err) [err]"

definition pods_reached :: "WaitForPodOptions \<Rightarrow> int \<Rightarrow> Pod list \<Rightarrow> PodsStartupStatus \<Rightarrow> bool" where
  "pods_reached options desired pods s \<longleftrightarrow>
     (int (length pods) = ss_Running s + ss_Inactive s \<and> ss_Running s = ss_RunningUpdated s
        \<and> ss_RunningUpdated s = desired)
   \<or> (CountErrorMargin options > 0 \<and> ss_RunningUpdated s \<ge> desired - CountErrorMargin options
        \<and> int (length pods) - ss_Inactive s \<le> desired \<and> ss_Inactive s \<le> CountErrorMargin options)"

fun wait_loop ::
    "string \<Rightarrow> WaitForPodOptions \<Rightarrow> Pod list \<Rightarrow> PodsStartupStatus \<Rightarrow> wait_event list
       \<Rightarrow> (PodsStatus option \<times> go_error option) option" where
  "wait_loop lister options oldPods oldStatus [] = None"
| "wait_loop lister options oldPods oldStatus (CtxDone deadline err desired # evs) =
     (let pods = NotRunningAndReady (ComputePodsStatus oldPods)
      in if deadline
         then Some (Some pods, Some (ErrWrap (''got '' @ Error err @ '' while waiting for '' @ itoa desired
                @ '' pods to be running in '' @ lister @ '' - summary of pods : '' @ PodsStartupStatus_String oldStatus) [err]))
         else Some (Some pods, Some err))"
| "wait_loop lister options oldPods oldStatus (Tick desired listed # evs) = (case listed of
      Inl err \<Rightarrow> Some (None, Some (list_error err))
    | Inr pods \<Rightarrow>
        let s = ComputePodsStartupStatus pods desired (IsPodUpdated options)
        in if pods_reached options desired pods s then Some (None, None)
           else wait_loop lister options pods s evs)"

definition WaitForPods ::
    "string \<Rightarrow> WaitForPodOptions \<Rightarrow> Pod list result \<Rightarrow> wait_event list
       \<Rightarrow> (PodsStatus option \<times> go_error option) option" where
  "WaitForPods lister options listed evs = (case listed of
      Inl err \<Rightarrow> Some (None, Some (list_error err))
    | Inr oldPods \<Rightarrow> wait_loop lister options oldPods zero_status evs)"

subsection \<open>\<open>PodsMetadata\<close>\<close>

record PodsMetadata =
  pm_name :: string
  pm_metadata :: "(string, bool) go_map"

definition NewPodsMetadata :: "string \<Rightarrow> PodsMetadata" where
  "NewPodsMetadata name = \<lparr>pm_name = name, pm_metadata = []\<rparr>"

definition SetStateless :: "PodsMetadata \<Rightarrow> string \<Rightarrow> bool \<Rightarrow> PodsMetadata" where
  "SetStateless o1 key stateless = o1\<lparr>pm_metadata := AList.update key stateless (pm_metadata o1)\<rparr>"

definition FilterStateless :: "PodsMetadata \<Rightarrow> string \<Rightarrow> bool" where
  "FilterStateless o1 key = (case map_of (pm_metadata o1) key of None \<Rightarrow> False | Some stateless \<Rightarrow> stateless)"

definition FilterStateful :: "PodsMetadata \<Rightarrow> string \<Rightarrow> bool" where
  "FilterStateful o1 key \<longleftrightarrow> \<not> FilterStateless o1 key"

subsection \<open>The counters\<close>

definition status_count :: "Status \<Rightarrow> Pod list \<Rightarrow> int" where
  "status_count st pods = int (length (filter (\<lambda>p. podStatus p = st) pods))"

definition updated :: "(Pod \<Rightarrow> go_error option) option \<Rightarrow> Pod \<Rightarrow> bool" where
  "updated f p \<longleftrightarrow> (case f of None \<Rightarrow> True | Some g \<Rightarrow> g p = None)"

lemma status_count_simps [simp]:
  "status_count st [] = 0"
  "status_count st (p # ps) = of_bool (podStatus p = st) + status_count st ps"
  by (simp_all add: status_count_def)

lemma startup_step_fields:
  "ss_Terminating (startup_step f s p) = ss_Terminating s + of_bool (podStatus p = Terminating)"
  "ss_Running (startup_step f s p) = ss_Running s + of_bool (podStatus p = RunningAndReady)"
  "ss_RunningButNotReady (startup_step f s p) = ss_RunningButNotReady s + of_bool (podStatus p = RunningButNotReady)"
  "ss_Waiting (startup_step f s p) = ss_Waiting s + of_bool (podStatus p = PendingNotScheduled)"
  "ss_Pending (startup_step f s p) = ss_Pending s + of_bool (podStatus p = PendingScheduled)"
  "ss_Inactive (startup_step f s p) = ss_Inactive s + of_bool (podStatus p = Inactive)"
  "ss_Created (startup_step f s p) = ss_Created s + of_bool (podStatus p \<noteq> Terminating)"
  "ss_RunningUpdated (startup_step f s p) = ss_RunningUpdated s + of_bool (podStatus p = RunningAndReady \<and> updated f p)"
  "ss_Unknown (startup_step f s p) = ss_Unknown s + of_bool (podStatus p = Unknown \<and> pod_Phase p = ''Unknown'')"
  by (simp_all add: startup_step_def podStatus_def updated_def Let_def split: option.split)

lemma startup_fold:
  "ss_Terminating (foldl (startup_step f) s pods) = ss_Terminating s + status_count Terminating pods"
  "ss_Running (foldl (startup_step f) s pods) = ss_Running s + status_count RunningAndReady pods"
  "ss_RunningButNotReady (foldl (startup_step f) s pods) = ss_RunningButNotReady s + status_count RunningButNotReady pods"
  "ss_Waiting (foldl (startup_step f) s pods) = ss_Waiting s + status_count PendingNotScheduled pods"
  "ss_Pending (foldl (startup_step f) s pods) = ss_Pending s + status_count PendingScheduled pods"
  "ss_Inactive (foldl (startup_step f) s pods) = ss_Inactive s + status_count Inactive pods"
  "ss_Created (foldl (startup_step f) s pods) = ss_Created s + int (length pods) - status_count Terminating pods"
  "ss_RunningUpdated (foldl (startup_step f) s pods) = ss_RunningUpdated s
     + int (length (filter (\<lambda>p. podStatus p = RunningAndReady \<and> updated f p) pods))"
  "ss_Unknown (foldl (startup_step f) s pods) = ss_Unknown s
     + int (length (filter (\<lambda>p. podStatus p = Unknown \<and> pod_Phase p = ''Unknown'') pods))"
  by (induction pods arbitrary: s) (simp_all add: startup_step_fields)

text \<open>
  The counters of \<open>ComputePodsStartupStatus\<close> agree with \<open>podStatus\<close>, the function it
  duplicates: each counts the pods of one status, \<open>Created\<close> is all that are not terminating, and
  \<open>RunningUpdated\<close> are the ready ones that pass \<open>isPodUpdated\<close>. \<open>Unknown\<close> alone is narrower than the
  status of that name: a pod without a phase has the status but is not counted.
\<close>

theorem ComputePodsStartupStatus_counts:
  "(let s = ComputePodsStartupStatus pods expected f in
      ss_Terminating s = status_count Terminating pods
    \<and> ss_Running s = status_count RunningAndReady pods
    \<and> ss_RunningButNotReady s = status_count RunningButNotReady pods
    \<and> ss_Waiting s = status_count PendingNotScheduled pods
    \<and> ss_Pending s = status_count PendingScheduled pods
    \<and> ss_Inactive s = status_count Inactive pods
    \<and> ss_Created s + ss_Terminating s = int (length pods)
    \<and> ss_RunningUpdated s = int (length (filter (\<lambda>p. podStatus p = RunningAndReady \<and> updated f p) pods))
    \<and> ss_Unknown s = int (length (filter (\<lambda>p. podStatus p = Unknown \<and> pod_Phase p = ''Unknown'') pods)))"
  by (simp add: ComputePodsStartupStatus_def Let_def startup_fold zero_status_def)

subsection \<open>Waiting\<close>

lemma filter_all_count:
  "(\<forall>x \<in> set xs. \<not> (P x \<and> Q x)) \<Longrightarrow>
     length (filter P xs) + length (filter Q xs) = length xs \<longleftrightarrow> (\<forall>x \<in> set xs. P x \<or> Q x)"
proof (induction xs)
  case (Cons x xs)
  have "length (filter P xs) + length (filter Q xs) \<le> length xs"
    using Cons.prems by (induction xs) auto
  then show ?case using Cons by auto
qed simp

text \<open>What a successful wait has seen, in terms of the pods.\<close>

definition pods_settled :: "WaitForPodOptions \<Rightarrow> int \<Rightarrow> Pod list \<Rightarrow> bool" where
  "pods_settled options desired pods \<longleftrightarrow>
     (\<forall>p \<in> set pods. podStatus p = RunningAndReady \<and> updated (IsPodUpdated options) p \<or> podStatus p = Inactive)
     \<and> status_count RunningAndReady pods = desired"

definition pods_within_margin :: "WaitForPodOptions \<Rightarrow> int \<Rightarrow> Pod list \<Rightarrow> bool" where
  "pods_within_margin options desired pods \<longleftrightarrow> CountErrorMargin options > 0
     \<and> desired - CountErrorMargin options
         \<le> int (length (filter (\<lambda>p. podStatus p = RunningAndReady \<and> updated (IsPodUpdated options) p) pods))
     \<and> int (length (filter (\<lambda>p. podStatus p \<noteq> Inactive) pods)) \<le> desired
     \<and> status_count Inactive pods \<le> CountErrorMargin options"

lemma filter_imp_length_eq:
  "length (filter (\<lambda>x. P x \<and> Q x) xs) = length (filter P xs) \<longleftrightarrow> (\<forall>x \<in> set xs. P x \<longrightarrow> Q x)"
proof (induction xs)
  case (Cons x xs)
  have "length (filter (\<lambda>x. P x \<and> Q x) xs) \<le> length (filter P xs)" by (induction xs) auto
  then show ?case using Cons by auto
qed simp

lemma pods_reached_iff:
  "pods_reached options desired pods (ComputePodsStartupStatus pods desired (IsPodUpdated options)) \<longleftrightarrow>
     pods_settled options desired pods \<or> pods_within_margin options desired pods"
proof -
  let ?R = "\<lambda>p. podStatus p = RunningAndReady" and ?I = "\<lambda>p. podStatus p = Inactive" and ?U = "updated (IsPodUpdated options)"
  have all: "length pods = length (filter ?R pods) + length (filter ?I pods) \<longleftrightarrow> (\<forall>p \<in> set pods. ?R p \<or> ?I p)"
    using filter_all_count [of pods ?R ?I] by auto
  have upd: "length (filter ?R pods) = length (filter (\<lambda>p. ?R p \<and> ?U p) pods) \<longleftrightarrow> (\<forall>p \<in> set pods. ?R p \<longrightarrow> ?U p)"
    using filter_imp_length_eq [of ?R ?U pods] by auto
  have non: "int (length pods) - int (length (filter ?I pods)) = int (length (filter (\<lambda>p. podStatus p \<noteq> Inactive) pods))"
    using sum_length_filter_compl [of ?I pods] by linarith
  have "pods_settled options desired pods \<longleftrightarrow> int (length pods) = status_count RunningAndReady pods + status_count Inactive pods
      \<and> status_count RunningAndReady pods = int (length (filter (\<lambda>p. ?R p \<and> ?U p) pods))
      \<and> int (length (filter (\<lambda>p. ?R p \<and> ?U p) pods)) = desired"
    unfolding pods_settled_def status_count_def of_nat_add [symmetric] of_nat_eq_iff all upd
    using upd by (auto simp: Status.distinct)
  then show ?thesis
    using non by (simp add: pods_reached_def pods_within_margin_def ComputePodsStartupStatus_def startup_fold zero_status_def status_count_def)
qed

lemma wait_loop_success:
  "wait_loop lister options old s evs = Some (None, None) \<Longrightarrow>
     \<exists>pre desired pods post. evs = pre @ Tick desired (Inr pods) # post
       \<and> (pods_settled options desired pods \<or> pods_within_margin options desired pods)"
proof (induction lister options old s evs rule: wait_loop.induct)
  case (3 lister options old s desired listed evs)
  then obtain pods where pods: "listed = Inr pods" by (cases listed) auto
  show ?case
  proof (cases "pods_reached options desired pods (ComputePodsStartupStatus pods desired (IsPodUpdated options))")
    case True
    then show ?thesis using pods_reached_iff pods by (metis append_Nil)
  next
    case False
    then obtain pre d q post where "evs = pre @ Tick d (Inr q) # post"
        "pods_settled options d q \<or> pods_within_margin options d q"
      using 3 pods by (fastforce simp: Let_def)
    then show ?thesis by (metis append_Cons)
  qed
qed (simp_all add: Let_def split: if_splits)

lemma wait_loop_returns: "\<exists>b e d. CtxDone b e d \<in> set evs \<Longrightarrow> wait_loop lister options old s evs \<noteq> None"
proof (induction evs arbitrary: old s)
  case (Cons ev evs)
  then show ?case by (cases ev) (auto simp: Let_def split: sum.split)
qed simp

text \<open>
  C26. When \<open>WaitForPods\<close> returns nil it has just listed pods that are all running, ready and updated
  or inactive, with exactly the desired number running, or, with a positive error margin, pods
  within that margin; and it always returns once its context is done.
\<close>

theorem WaitForPods_sound_and_live:
  assumes "CtxDone b e d \<in> set evs"
  shows "\<exists>r. WaitForPods lister options listed evs = Some r
    \<and> (r = (None, None) \<longrightarrow> (\<exists>pre desired pods post. evs = pre @ Tick desired (Inr pods) # post
         \<and> (pods_settled options desired pods \<or> pods_within_margin options desired pods)))"
proof (cases listed)
  case (Inl err)
  then show ?thesis by (simp add: WaitForPods_def)
next
  case (Inr old)
  then obtain r where "WaitForPods lister options listed evs = Some r"
    using wait_loop_returns [of evs lister options old zero_status] assms by (auto simp: WaitForPods_def)
  then show ?thesis using wait_loop_success [of lister options old zero_status evs] Inr
    by (auto simp: WaitForPods_def)
qed

definition ready_pod :: Pod where
  "ready_pod = \<lparr>pod_Name = ''p'', pod_Namespace = ''n'', pod_DeletionTimestamp = None, pod_Phase = ''Running'',
     pod_Conditions = [(''Ready'', ''True'')], pod_NodeName = ''node''\<rparr>"

theorem WaitForPods_sound_and_live_witness:
  "WaitForPods ''l'' \<lparr>CountErrorMargin = 0, IsPodUpdated = None\<rparr> (Inr [])
      [Tick 1 (Inr []), Tick 1 (Inr [ready_pod]), CtxDone True (ErrText ''t'') 1] = Some (None, None)
   \<and> (\<exists>pre desired pods post. [Tick 1 (Inr []), Tick 1 (Inr [ready_pod]), CtxDone True (ErrText ''t'') 1]
         = pre @ Tick desired (Inr pods) # post
      \<and> (pods_settled \<lparr>CountErrorMargin = 0, IsPodUpdated = None\<rparr> desired pods
         \<or> pods_within_margin \<lparr>CountErrorMargin = 0, IsPodUpdated = None\<rparr> desired pods))"
proof -
  let ?o = "\<lparr>CountErrorMargin = 0, IsPodUpdated = None\<rparr>"
  let ?evs = "[Tick 1 (Inr []), Tick 1 (Inr [ready_pod]), CtxDone True (ErrText ''t'') 1]"
  have "WaitForPods ''l'' ?o (Inr []) ?evs = Some (None, None)"
    using pods_reached_iff [of ?o]
    by (simp add: WaitForPods_def pods_settled_def pods_within_margin_def podStatus_def ready_pod_def updated_def Let_def)
  then show ?thesis
    using WaitForPods_sound_and_live [of True "ErrText ''t''" 1 ?evs "''l''" ?o "Inr []"] by simp
qed

subsection \<open>Differences\<close>

lemma diff_cur_loop_map_of:
  "map_of (diff_cur_loop ps m) n = (case find (\<lambda>p. pod_Name p = n) (rev ps) of
      Some p \<Rightarrow> Some \<lparr>oldHostname = nonExist, oldPhase = nonExist, hostname = pod_NodeName p, di_phase = pod_Phase p\<rparr>
    | None \<Rightarrow> map_of m n)"
proof (induction ps rule: rev_induct)
  case (snoc p ps)
  have "diff_cur_loop (xs @ ys) m = diff_cur_loop ys (diff_cur_loop xs m)" for xs ys m
    by (induction xs arbitrary: m) simp_all
  then show ?case using snoc by simp
qed simp

lemma diff_old_loop_hostname:
  "map_option hostname (map_of (diff_old_loop ps m) n) =
     (case map_of m n of Some i \<Rightarrow> Some (hostname i)
      | None \<Rightarrow> if n \<in> pod_Name ` set ps then Some nonExist else None)"
  by (induction ps arbitrary: m) (auto split: option.splits)

lemma diff_old_loop_oldHostname:
  "map_option oldHostname (map_of (diff_old_loop ps m) n) =
     (case find (\<lambda>p. pod_Name p = n) (rev ps) of Some p \<Rightarrow> Some (pod_NodeName p)
      | None \<Rightarrow> map_option oldHostname (map_of m n))"
proof (induction ps rule: rev_induct)
  case (snoc p ps)
  have "diff_old_loop (xs @ ys) m = diff_old_loop ys (diff_old_loop xs m)" for xs ys m
    by (induction xs arbitrary: m) simp_all
  then show ?case using snoc by (auto split: option.splits)
qed simp

lemma distinct_diff: "distinct (map fst (DiffPods old cur))"
proof -
  have "distinct (map fst m) \<Longrightarrow> distinct (map fst (diff_cur_loop ps m))" for ps m
    by (induction ps arbitrary: m) (simp_all add: distinct_update)
  moreover have "distinct (map fst m) \<Longrightarrow> distinct (map fst (diff_old_loop ps m))" for ps m
    by (induction ps arbitrary: m) (simp_all add: distinct_update)
  ultimately show ?thesis by (simp add: DiffPods_def)
qed

lemma in_filtered_map:
  "distinct (map fst m) \<Longrightarrow> n \<in> fst ` {x \<in> set m. P (snd x)} \<longleftrightarrow> (\<exists>i. map_of m n = Some i \<and> P i)"
  by (force simp: map_of_eq_Some_iff)

lemma find_name_None: "find (\<lambda>p. pod_Name p = n) (rev ps) = None \<longleftrightarrow> n \<notin> pod_Name ` set ps"
  by (auto simp: find_None_iff)

lemma find_name_in: "find (\<lambda>p. pod_Name p = n) (rev ps) = Some p \<Longrightarrow> p \<in> set ps"
  by (metis find_Some_iff nth_mem set_rev)

text \<open>
  When no pod runs on a node called \<open>NonExist\<close>, the deleted pods of a difference are exactly the
  names of the old group that are not in the new one, and the added pods the names of the new group
  that are not in the old one.
\<close>

theorem DiffPods_added_deleted:
  assumes "\<forall>p \<in> set old \<union> set cur. pod_NodeName p \<noteq> nonExist"
  shows "set (DeletedPods (DiffPods old cur)) = pod_Name ` set old - pod_Name ` set cur
    \<and> set (AddedPods (DiffPods old cur)) = pod_Name ` set cur - pod_Name ` set old"
proof (intro conjI set_eqI)
  fix n
  let ?m = "diff_cur_loop cur []" and ?d = "DiffPods old cur"
  note in_map = in_filtered_map [OF distinct_diff [of old cur], of n]
  have "n \<in> set (DeletedPods ?d) \<longleftrightarrow> map_option hostname (map_of ?d n) = Some nonExist"
    using in_map [of "\<lambda>i. hostname i = nonExist"] by (auto simp: DeletedPods_def case_prod_beta)
  also have "\<dots> \<longleftrightarrow> n \<in> pod_Name ` set old - pod_Name ` set cur"
    using assms find_name_in [of n cur] find_name_None [of n cur]
    by (auto simp: DiffPods_def diff_old_loop_hostname diff_cur_loop_map_of simp del: map_option_eq_Some split: option.splits)
  finally show "n \<in> set (DeletedPods ?d) \<longleftrightarrow> n \<in> pod_Name ` set old - pod_Name ` set cur" .
  have "n \<in> set (AddedPods ?d) \<longleftrightarrow> map_option oldHostname (map_of ?d n) = Some nonExist"
    using in_map [of "\<lambda>i. oldHostname i = nonExist"] by (auto simp: AddedPods_def case_prod_beta)
  also have "\<dots> \<longleftrightarrow> n \<in> pod_Name ` set cur - pod_Name ` set old"
    using assms find_name_in [of n old] find_name_None [of n old] find_name_None [of n cur]
    by (auto simp: DiffPods_def diff_old_loop_oldHostname diff_cur_loop_map_of simp del: map_option_eq_Some split: option.splits)
  finally show "n \<in> set (AddedPods ?d) \<longleftrightarrow> n \<in> pod_Name ` set cur - pod_Name ` set old" .
qed

theorem DiffPods_added_deleted_witness:
  "set (DeletedPods (DiffPods [ready_pod] [ready_pod\<lparr>pod_Name := ''q''\<rparr>])) = {''p''}
   \<and> set (AddedPods (DiffPods [ready_pod] [ready_pod\<lparr>pod_Name := ''q''\<rparr>])) = {''q''}"
  using DiffPods_added_deleted [of "[ready_pod]" "[ready_pod\<lparr>pod_Name := ''q''\<rparr>]"]
  by (simp add: ready_pod_def nonExist_def)

end
