(* ===== verification/State.thy ===== *)
theory State
  imports Go_Errors
begin

text \<open>
  Package \<open>pkg/state\<close>: what the executor remembers of the cluster. \<open>NamespacesState\<close> maps a
  namespace and an instances identifier to a pointer to an \<open>InstancesState\<close>; the pointer type is
  the type parameter \<open>'p\<close>, so that a client that mutates through the pointer supplies its own
  store. \<open>ResourcesVersionsState\<close> keeps the highest resource version of a resource type as a
  64-bit word. Each operation holds the lock of its receiver for its whole body and is therefore
  one atomic step.

  The locales \<open>lookup_store\<close> and \<open>deletable_store\<close> are the laws a client relies on.
\<close>

record InstancesIdentifier =
  Basename :: string
  ObjectKind :: string
  APIGroup :: string

type_synonym 'p namespaceState = "(InstancesIdentifier, 'p) go_map"

record 'p NamespacesState =
  namespaceStates :: "(string, 'p namespaceState) go_map"

definition newNamespacesState :: "'p NamespacesState" where
  "newNamespacesState = \<lparr>namespaceStates = []\<rparr>"

definition NamespacesState_Get :: "'p NamespacesState \<Rightarrow> string \<Rightarrow> InstancesIdentifier \<Rightarrow> 'p option" where
  "NamespacesState_Get ns namespace identifier = (case map_of (namespaceStates ns) namespace of
      None \<Rightarrow> None
    | Some nst \<Rightarrow> map_of nst identifier)"

definition NamespacesState_Set ::
    "'p NamespacesState \<Rightarrow> string \<Rightarrow> InstancesIdentifier \<Rightarrow> 'p \<Rightarrow> 'p NamespacesState" where
  "NamespacesState_Set ns namespace identifier instances =
     (let states = (case map_of (namespaceStates ns) namespace of
                      None \<Rightarrow> AList.update namespace [] (namespaceStates ns)
                    | Some _ \<Rightarrow> namespaceStates ns);
          nst = the (map_of states namespace)
      in ns\<lparr>namespaceStates := AList.update namespace (AList.update identifier instances nst) states\<rparr>)"

definition fmt_identifier :: "InstancesIdentifier \<Rightarrow> string" where
  "fmt_identifier i = ''{Basename:'' @ Basename i @ '' ObjectKind:'' @ ObjectKind i
     @ '' APIGroup:'' @ APIGroup i @ ''}''"

definition NamespacesState_Delete ::
    "'p NamespacesState \<Rightarrow> string \<Rightarrow> InstancesIdentifier \<Rightarrow> 'p NamespacesState \<times> go_error option" where
  "NamespacesState_Delete ns namespace identifier = (case map_of (namespaceStates ns) namespace of
      None \<Rightarrow> (ns, Some (ErrText (''namespace '' @ namespace @ '' not found'')))
    | Some nst \<Rightarrow> (case map_of nst identifier of
        None \<Rightarrow> (ns, Some (ErrText (''no instances of '' @ fmt_identifier identifier
                   @ '' found in '' @ namespace @ '' namespace'')))
      | Some _ \<Rightarrow> (ns\<lparr>namespaceStates :=
                     AList.update namespace (AList.delete identifier nst) (namespaceStates ns)\<rparr>, None)))"

record ResourceTypeIdentifier =
  rti_ObjectKind :: string
  rti_APIGroup :: string

record ResourcesVersionsState =
  resourcesVersions :: "(ResourceTypeIdentifier, uint64) go_map"

definition newResourcesVersionsState :: ResourcesVersionsState where
  "newResourcesVersionsState = \<lparr>resourcesVersions = []\<rparr>"

definition ResourcesVersionsState_Get ::
    "ResourcesVersionsState \<Rightarrow> ResourceTypeIdentifier \<Rightarrow> string \<times> bool" where
  "ResourcesVersionsState_Get rs identifier = (case map_of (resourcesVersions rs) identifier of
      None \<Rightarrow> (''0'', False)
    | Some version \<Rightarrow> (format_uint64 version, True))"

definition ResourcesVersionsState_Set ::
    "ResourcesVersionsState \<Rightarrow> ResourceTypeIdentifier \<Rightarrow> string
       \<Rightarrow> ResourcesVersionsState \<times> go_error option" where
  "ResourcesVersionsState_Set rs identifier resourceVersion = (case parse_uint64 resourceVersion of
      None \<Rightarrow> (rs, Some (ErrText ''incorrect version format''))
    | Some parsed \<Rightarrow>
        let version = (case map_of (resourcesVersions rs) identifier of
                         Some current \<Rightarrow> if current > parsed then current else parsed
                       | None \<Rightarrow> parsed)
        in (rs\<lparr>resourcesVersions := AList.update identifier version (resourcesVersions rs)\<rparr>, None))"

record 'p State =
  namespacesState :: "'p NamespacesState"
  resourcesVersionState :: ResourcesVersionsState

definition NewState :: "'p State" where
  "NewState = \<lparr>namespacesState = newNamespacesState, resourcesVersionState = newResourcesVersionsState\<rparr>"

subsection \<open>The laws of a store\<close>

locale lookup_store =
  fixes get :: "'s \<Rightarrow> 'k \<Rightarrow> 'v option"
    and put :: "'s \<Rightarrow> 'k \<Rightarrow> 'v \<Rightarrow> 's"
  assumes get_put: "get (put s k v) k' = (if k' = k then Some v else get s k')"
begin

definition puts :: "'s \<Rightarrow> ('k \<times> 'v) list \<Rightarrow> 's" where
  "puts s kvs = foldl (\<lambda>s (k, v). put s k v) s kvs"

text \<open>After a sequence of writes a key holds its last write.\<close>

lemma get_puts:
  "get (puts s kvs) k = (case map_of (rev kvs) k of Some v \<Rightarrow> Some v | None \<Rightarrow> get s k)"
  by (induction kvs rule: rev_induct) (auto simp: puts_def get_put)

lemma put_commute: "k \<noteq> k' \<Longrightarrow> get (put (put s k v) k' v') = get (put (put s k' v') k v)"
  by (rule ext) (simp add: get_put)

end

locale deletable_store = lookup_store get put
  for get :: "'s \<Rightarrow> 'k \<Rightarrow> 'v option" and put :: "'s \<Rightarrow> 'k \<Rightarrow> 'v \<Rightarrow> 's" +
  fixes del :: "'s \<Rightarrow> 'k \<Rightarrow> 's \<times> go_error option"
  assumes get_del: "get (fst (del s k)) k' = (if k' = k then None else get s k')"
    and del_error: "snd (del s k) = None \<longleftrightarrow> get s k \<noteq> None"
begin

lemma del_put: "snd (del (put s k v) k) = None"
  by (simp add: del_error get_put)

lemma del_twice: "snd (del (fst (del s k)) k) \<noteq> None"
  by (simp add: del_error get_del)

lemma get_del_put: "get s k = None \<Longrightarrow> get (fst (del (put s k v) k)) = get s"
  by (rule ext) (simp add: get_del get_put)

end

lemma NamespacesState_Get_Set:
  "NamespacesState_Get (NamespacesState_Set s n i p) n' i' =
     (if n' = n \<and> i' = i then Some p else NamespacesState_Get s n' i')"
  by (simp add: NamespacesState_Get_def NamespacesState_Set_def Let_def split: option.splits)

lemma NamespacesState_Get_Delete:
  "NamespacesState_Get (fst (NamespacesState_Delete s n i)) n' i' =
     (if n' = n \<and> i' = i then None else NamespacesState_Get s n' i')"
  by (auto simp: NamespacesState_Get_def NamespacesState_Delete_def split: option.splits)

lemma NamespacesState_Delete_error:
  "snd (NamespacesState_Delete s n i) = None \<longleftrightarrow> NamespacesState_Get s n i \<noteq> None"
  by (simp add: NamespacesState_Get_def NamespacesState_Delete_def split: option.splits)

interpretation nss: deletable_store
  "\<lambda>s (n, i). NamespacesState_Get s n i" "\<lambda>s (n, i) p. NamespacesState_Set s n i p"
  "\<lambda>s (n, i). NamespacesState_Delete s n i"
  by unfold_locales
    (auto simp: NamespacesState_Get_Set NamespacesState_Get_Delete NamespacesState_Delete_error
          simp del: not_None_eq split: prod.splits)

lemmas namespaces_state_laws [go_simps] =
  NamespacesState_Get_Set NamespacesState_Get_Delete NamespacesState_Delete_error

subsection \<open>Resource versions\<close>

definition set_versions ::
    "ResourcesVersionsState \<Rightarrow> ResourceTypeIdentifier \<Rightarrow> string list \<Rightarrow> ResourcesVersionsState" where
  "set_versions rs i vs = foldl (\<lambda>rs v. fst (ResourcesVersionsState_Set rs i v)) rs vs"

lemma Set_version_lookup:
  "map_of (resourcesVersions (fst (ResourcesVersionsState_Set rs i v))) j =
     (case parse_uint64 v of None \<Rightarrow> map_of (resourcesVersions rs) j
      | Some w \<Rightarrow> if j = i then Some (case map_of (resourcesVersions rs) i of
                      Some c \<Rightarrow> max c w | None \<Rightarrow> w)
                 else map_of (resourcesVersions rs) j)"
  by (auto simp: ResourcesVersionsState_Set_def Let_def max_def split: option.splits)

lemma set_versions_lookup:
  "map_of (resourcesVersions (set_versions newResourcesVersionsState i vs)) j =
     (if j = i \<and> List.map_filter parse_uint64 vs \<noteq> []
      then Some (Max (set (List.map_filter parse_uint64 vs))) else None)"
proof (induction vs rule: rev_induct)
  case Nil
  then show ?case by (simp add: set_versions_def newResourcesVersionsState_def List.map_filter_def)
next
  case (snoc v vs)
  let ?M = "List.map_filter parse_uint64"
  have app: "?M (vs @ [v]) = ?M vs @ (case parse_uint64 v of None \<Rightarrow> [] | Some w \<Rightarrow> [w])"
    by (simp add: List.map_filter_def split: option.splits)
  have "Max (insert w (set (?M vs))) = max (Max (set (?M vs))) w" if "?M vs \<noteq> []" for w
    using that by (simp add: max.commute)
  then show ?case
    using snoc.IH by (auto simp: set_versions_def Set_version_lookup app split: option.splits)
qed

text \<open>
  C14. Whatever versions are stored for a resource type, in whatever order and with malformed ones
  among them, \<open>Get\<close> returns the largest well-formed one (compared as a 64-bit number, not as
  text), and \<open>"0", false\<close> exactly when none was well-formed.
\<close>

theorem resource_version_is_max:
  "ResourcesVersionsState_Get (set_versions newResourcesVersionsState i vs) i =
     (let ws = List.map_filter parse_uint64 vs
      in if ws = [] then (''0'', False) else (format_uint64 (Max (set ws)), True))"
  by (simp add: ResourcesVersionsState_Get_def set_versions_lookup Let_def)

subsection \<open>The namespaces state implements a finite map\<close>

datatype 'p ns_op = OpSet string InstancesIdentifier 'p | OpDelete string InstancesIdentifier

fun apply_ns_op :: "'p NamespacesState \<Rightarrow> 'p ns_op \<Rightarrow> 'p NamespacesState" where
  "apply_ns_op s (OpSet n i p) = NamespacesState_Set s n i p"
| "apply_ns_op s (OpDelete n i) = fst (NamespacesState_Delete s n i)"

fun spec_ns_op :: "(string \<times> InstancesIdentifier \<rightharpoonup> 'p) \<Rightarrow> 'p ns_op \<Rightarrow> (string \<times> InstancesIdentifier \<rightharpoonup> 'p)" where
  "spec_ns_op m (OpSet n i p) = m((n, i) \<mapsto> p)"
| "spec_ns_op m (OpDelete n i) = m((n, i) := None)"

definition ns_abs :: "'p NamespacesState \<Rightarrow> (string \<times> InstancesIdentifier \<rightharpoonup> 'p)" where
  "ns_abs s = (\<lambda>(n, i). NamespacesState_Get s n i)"

lemma ns_abs_step: "ns_abs (apply_ns_op s oper) = spec_ns_op (ns_abs s) oper"
  by (cases oper) (auto simp: ns_abs_def go_simps fun_eq_iff)

text \<open>
  C13. The nested maps of \<open>NamespacesState\<close> implement one finite map from namespace and
  identifier to instances: after any sequence of \<open>Set\<close> and \<open>Delete\<close> calls, failing deletes
  included, \<open>Get\<close> returns what the finite map holds.
\<close>

theorem namespaces_state_refines_map:
  "ns_abs (foldl apply_ns_op newNamespacesState ops) = foldl spec_ns_op Map.empty ops"
proof (induction ops rule: rev_induct)
  case Nil
  then show ?case by (simp add: ns_abs_def newNamespacesState_def NamespacesState_Get_def fun_eq_iff)
next
  case (snoc oper ops)
  then show ?case by (simp add: ns_abs_step)
qed

end
