(* ===== verification/Go_Float.thy ===== *)
theory Go_Float
  imports Go_Prelude "HOL-Library.Log_Nat"
begin

text \<open>
  The \<open>float64\<close> arithmetic the sources use, as IEEE 754 binary64 with rounding to nearest,
  ties to even: a finite value is the rational number it denotes, and every operation is the
  exact result rounded by \<open>f64_round\<close>. The sign of zero is not kept (no source line depends
  on it). \<open>f64_to_int\<close> is the conversion \<open>int(f)\<close>: truncation towards zero, and the
  smallest 64-bit value out of range, as on amd64.
\<close>

datatype float64 = Fin rat | PosInf | NegInf | NaN

definition ilog2 :: "rat \<Rightarrow> int" where
  "ilog2 x = (let (p, q) = quotient_of x; d = bitlen p - bitlen q
              in if 2 powi d \<le> x then d else d - 1)"

definition f64_ulp :: "rat \<Rightarrow> rat" where
  "f64_ulp x = 2 powi (max (ilog2 \<bar>x\<bar> - 52) (- 1074))"

definition round_half_even :: "rat \<Rightarrow> int" where
  "round_half_even y = (let f = \<lfloor>y\<rfloor>; r = y - of_int f
     in if r < 1 / 2 then f else if 1 / 2 < r then f + 1 else if even f then f else f + 1)"

definition f64_nearest :: "rat \<Rightarrow> rat" where
  "f64_nearest x = (if x = 0 then 0 else of_int (round_half_even (x / f64_ulp x)) * f64_ulp x)"

definition f64_round :: "rat \<Rightarrow> float64" where
  "f64_round x = (let v = f64_nearest x
     in if 2 ^ 1024 \<le> v then PosInf else if v \<le> - (2 ^ 1024) then NegInf else Fin v)"

definition f64_of_int :: "int \<Rightarrow> float64" where
  "f64_of_int i = f64_round (of_int i)"

fun f64_le :: "float64 \<Rightarrow> float64 \<Rightarrow> bool" where
  "f64_le NaN _ = False"
| "f64_le _ NaN = False"
| "f64_le NegInf _ = True"
| "f64_le _ PosInf = True"
| "f64_le (Fin x) (Fin y) = (x \<le> y)"
| "f64_le _ _ = False"

fun f64_neg :: "float64 \<Rightarrow> float64" where
  "f64_neg (Fin x) = Fin (- x)"
| "f64_neg PosInf = NegInf"
| "f64_neg NegInf = PosInf"
| "f64_neg NaN = NaN"

fun f64_mul :: "float64 \<Rightarrow> float64 \<Rightarrow> float64" where
  "f64_mul (Fin x) (Fin y) = f64_round (x * y)"
| "f64_mul NaN _ = NaN"
| "f64_mul _ NaN = NaN"
| "f64_mul (Fin x) y = (if x = 0 then NaN else if 0 < x then y else f64_neg y)"
| "f64_mul x (Fin y) = (if y = 0 then NaN else if 0 < y then x else f64_neg x)"
| "f64_mul x y = (if x = y then PosInf else NegInf)"

fun f64_div :: "float64 \<Rightarrow> float64 \<Rightarrow> float64" where
  "f64_div (Fin x) (Fin y) =
     (if y = 0 then (if x = 0 then NaN else if 0 < x then PosInf else NegInf)
      else f64_round (x / y))"
| "f64_div NaN _ = NaN"
| "f64_div _ NaN = NaN"
| "f64_div (Fin x) _ = Fin 0"
| "f64_div x (Fin y) = (if 0 \<le> y then x else f64_neg x)"
| "f64_div _ _ = NaN"

fun f64_ceil :: "float64 \<Rightarrow> float64" where
  "f64_ceil (Fin x) = Fin (of_int \<lceil>x\<rceil>)"
| "f64_ceil x = x"

definition rat_trunc :: "rat \<Rightarrow> int" where
  "rat_trunc x = (if 0 \<le> x then \<lfloor>x\<rfloor> else \<lceil>x\<rceil>)"

fun f64_to_int :: "float64 \<Rightarrow> int" where
  "f64_to_int (Fin x) = (let t = rat_trunc x
     in if - (2 ^ 63) \<le> t \<and> t < 2 ^ 63 then t else - (2 ^ 63))"
| "f64_to_int _ = - (2 ^ 63)"

subsection \<open>Rounding\<close>

lemma rat_of_int_pow_le: "2 ^ k \<le> n \<Longrightarrow> 2 ^ k \<le> (of_int n :: rat)"
  by (metis of_int_le_iff of_int_numeral of_int_power)

lemma rat_of_int_pow_less: "n < 2 ^ k \<Longrightarrow> (of_int n :: rat) < 2 ^ k"
  by (metis of_int_less_iff of_int_numeral of_int_power)

lemma rat_abs_of_int_pow_less: "\<bar>n\<bar> < 2 ^ k \<Longrightarrow> \<bar>of_int n :: rat\<bar> < 2 ^ k"
  by (metis of_int_abs rat_of_int_pow_less)

lemma ilog2_bounds:
  assumes "0 < x"
  shows "2 powi ilog2 x \<le> x" and "x < 2 powi (ilog2 x + 1)"
proof -
  obtain p q where pq: "quotient_of x = (p, q)" by (cases "quotient_of x")
  then have q: "0 < q" and x: "x = of_int p / of_int q"
    by (auto simp: quotient_of_denom_pos quotient_of_div)
  then have p: "0 < p" using assms by (simp add: zero_less_divide_iff)
  let ?lp = "bitlen p" and ?lq = "bitlen q"
  have lp: "0 < ?lp" and lq: "0 < ?lq"
    using p q bitlen_nonneg [of p] bitlen_nonneg [of q] bitlen_eq_zero_iff [of p]
      bitlen_eq_zero_iff [of q] by linarith+
  have "2 ^ nat (?lp - 1) \<le> p" "p < 2 ^ nat ?lp" "2 ^ nat (?lq - 1) \<le> q" "q < 2 ^ nat ?lq"
    using bitlen_bounds [OF p] bitlen_bounds [OF q] by auto
  then have b: "2 powi (?lp - 1) \<le> (of_int p :: rat)" "(of_int p :: rat) < 2 powi ?lp"
      "2 powi (?lq - 1) \<le> (of_int q :: rat)" "(of_int q :: rat) < 2 powi ?lq"
    using lp lq by (simp_all add: power_int_def rat_of_int_pow_le rat_of_int_pow_less)
  have hi: "x < 2 powi (?lp - ?lq + 1)"
  proof -
    have "x < 2 powi ?lp / of_int q" using b(2) q by (simp add: x divide_strict_right_mono)
    also have "\<dots> \<le> 2 powi ?lp / 2 powi (?lq - 1)"
      using b(3) q by (intro divide_left_mono) (simp_all add: zero_less_power_int)
    also have "\<dots> = 2 powi (?lp - ?lq + 1)"
      by (simp add: power_int_diff power_int_add)
    finally show ?thesis .
  qed
  have lo: "2 powi (?lp - ?lq - 1) \<le> x"
  proof -
    have "2 powi (?lp - ?lq - 1) = (2 powi (?lp - 1) / 2 powi ?lq :: rat)"
      by (simp add: power_int_diff)
    also have "\<dots> \<le> of_int p / 2 powi ?lq"
      using b(1) by (intro divide_right_mono) (simp_all add: zero_le_power_int)
    also have "\<dots> \<le> of_int p / of_int q"
      using b(4) q p by (intro divide_left_mono) (simp_all add: zero_less_power_int)
    finally show ?thesis by (simp add: x)
  qed
  show "2 powi ilog2 x \<le> x" using lo by (simp add: ilog2_def pq Let_def)
  show "x < 2 powi (ilog2 x + 1)" using hi by (simp add: ilog2_def pq Let_def)
qed

lemma round_half_even_error: "\<bar>of_int (round_half_even y) - y\<bar> \<le> 1 / 2"
proof -
  let ?r = "y - of_int \<lfloor>y\<rfloor>"
  have "0 \<le> ?r" and "?r < 1" using floor_correct [of y] by linarith+
  moreover have "round_half_even y = \<lfloor>y\<rfloor> \<and> ?r \<le> 1 / 2
      \<or> round_half_even y = \<lfloor>y\<rfloor> + 1 \<and> 1 / 2 \<le> ?r"
    unfolding round_half_even_def Let_def by (simp split: if_splits) linarith?
  ultimately show ?thesis unfolding abs_le_iff by (elim disjE conjE) (simp_all only: of_int_add of_int_1, linarith+)
qed

lemma round_half_even_of_int [simp]: "round_half_even (of_int n) = n"
  by (simp add: round_half_even_def)

lemma f64_ulp_pos [simp]: "0 < f64_ulp x"
  by (simp add: f64_ulp_def)

lemma f64_ulp_nonzero [simp]: "f64_ulp x \<noteq> 0"
  by (simp add: f64_ulp_def)

lemma f64_nearest_error_ulp: "\<bar>f64_nearest x - x\<bar> \<le> f64_ulp x / 2"
proof (cases "x = 0")
  case False
  let ?u = "f64_ulp x"
  have "f64_nearest x - x = (of_int (round_half_even (x / ?u)) - x / ?u) * ?u"
    using False by (simp add: f64_nearest_def left_diff_distrib)
  then have "\<bar>f64_nearest x - x\<bar> = \<bar>of_int (round_half_even (x / ?u)) - x / ?u\<bar> * ?u"
    using f64_ulp_pos [of x] by (simp only: abs_mult abs_of_pos)
  also have "\<dots> \<le> 1 / 2 * ?u"
    by (intro mult_right_mono round_half_even_error) (simp add: less_imp_le)
  finally show ?thesis by simp
qed (simp add: f64_nearest_def less_imp_le)

text \<open>On normal numbers the relative error is at most half an ulp of 53 bits.\<close>

lemma f64_nearest_error:
  assumes "2 powi (- 1022) \<le> x"
  shows "\<bar>f64_nearest x - x\<bar> \<le> x / 2 ^ 53"
proof -
  have x: "0 < x" using assms by (rule less_le_trans [rotated]) simp
  have "ilog2 x \<ge> - 1022"
  proof (rule ccontr)
    assume "\<not> ilog2 x \<ge> - 1022"
    then have "(2::rat) powi (ilog2 x + 1) \<le> 2 powi (- 1022)"
      by (intro power_int_increasing) auto
    with ilog2_bounds(2) [OF x] assms show False by simp
  qed
  then have "f64_ulp x = 2 powi (ilog2 x - 52)" using x by (simp add: f64_ulp_def)
  also have "\<dots> = 2 powi ilog2 x / 2 ^ 52" by (simp add: power_int_diff)
  finally have "f64_ulp x / 2 = 2 powi ilog2 x / 2 ^ 53" by simp
  with f64_nearest_error_ulp [of x] have "\<bar>f64_nearest x - x\<bar> \<le> 2 powi ilog2 x / 2 ^ 53"
    by simp
  also have "\<dots> \<le> x / 2 ^ 53" using ilog2_bounds(1) [OF x] by (intro divide_right_mono) simp_all
  finally show ?thesis .
qed

text \<open>Integers below \<open>2 ^ 53\<close> are represented exactly.\<close>

lemma f64_nearest_of_int:
  assumes "\<bar>n\<bar> < 2 ^ 53"
  shows "f64_nearest (of_int n) = of_int n"
proof (cases "n = 0")
  case False
  let ?x = "\<bar>of_int n\<bar> :: rat"
  have "(of_int 1 :: rat) \<le> of_int \<bar>n\<bar>" using False by (simp only: of_int_le_iff)
  then have x: "1 \<le> ?x" by simp
  then have x0: "0 < ?x" by simp
  have "?x < 2 ^ 53" using assms by (rule rat_abs_of_int_pow_less)
  have e0: "0 \<le> ilog2 ?x"
  proof (rule ccontr)
    assume "\<not> 0 \<le> ilog2 ?x"
    then have "(2::rat) powi (ilog2 ?x + 1) \<le> 2 powi 0" by (intro power_int_increasing) auto
    with ilog2_bounds(2) [OF x0] x show False by simp
  qed
  have e1: "ilog2 ?x \<le> 52"
  proof (rule ccontr)
    assume "\<not> ilog2 ?x \<le> 52"
    then have "(2::rat) powi 53 \<le> 2 powi ilog2 ?x" by (intro power_int_increasing) auto
    with ilog2_bounds(1) [OF x0] \<open>?x < 2 ^ 53\<close> show False by simp
  qed
  define k where "k = nat (52 - ilog2 ?x)"
  have u: "f64_ulp (of_int n) = 1 / 2 ^ k"
    using e0 e1 by (simp add: f64_ulp_def k_def power_int_def field_simps)
  have "of_int n / f64_ulp (of_int n) = (of_int (n * 2 ^ k) :: rat)" by (simp add: u)
  then have "round_half_even (of_int n / f64_ulp (of_int n)) = n * 2 ^ k"
    by (simp only: round_half_even_of_int)
  then show ?thesis using False by (simp add: f64_nearest_def u)
qed (simp add: f64_nearest_def)

lemma f64_of_int_exact:
  assumes "\<bar>n\<bar> < 2 ^ 53"
  shows "f64_of_int n = Fin (of_int n)"
proof -
  have "\<bar>of_int n :: rat\<bar> < 2 ^ 53"
    using assms by (rule rat_abs_of_int_pow_less)
  also have "(2 ^ 53 :: rat) < 2 ^ 1024" by (intro power_strict_increasing) simp_all
  finally have "\<not> 2 ^ 1024 \<le> (of_int n :: rat)" "\<not> (of_int n :: rat) \<le> - (2 ^ 1024)" by auto
  then show ?thesis
    using f64_nearest_of_int [OF assms] by (simp add: f64_of_int_def f64_round_def del: power_numeral)
qed

end
