(* ===== verification/Params.thy ===== *)
theory Params
  imports Go_Float Go_Errors
begin

text \<open>
  Package \<open>pkg/util\<close>: the typed accessors of a \<open>map[string]interface{}\<close>
  (\<open>util.go\<close>) through which every measurement reads its parameters, the map helpers, and
  the object selector (\<open>selector.go\<close>). A dynamic value of type \<open>interface{}\<close> is a
  \<open>gval\<close>; a type assertion is a match on its constructor. \<open>strconv.ParseFloat\<close>,
  \<open>time.ParseDuration\<close> and \<open>labels.Parse\<close> are arguments of the functions that call
  them; a failing \<open>ParseFloat\<close> still returns a value beside its error, so it is a pair.
\<close>

datatype gval =
    VNil
  | VString string
  | VBool bool
  | VInt int
  | VInt64 int
  | VFloat float64
  | VList "gval list"
  | VMap "(string \<times> gval) list"

type_synonym params = "(string, gval) go_map"

subsection \<open>The verb \<open>%v\<close> of \<open>fmt\<close>\<close>

definition ilog10 :: "rat \<Rightarrow> int" where
  "ilog10 x = (let (p, q) = quotient_of x;
                   d = int (length (utoa (nat p))) - int (length (utoa (nat q)))
               in if 10 powi d \<le> x then d else d - 1)"

text \<open>The shortest decimal mantissa and exponent that read back as the same value.\<close>

definition decimal_at :: "rat \<Rightarrow> nat \<Rightarrow> int \<times> int" where
  "decimal_at x p = (let s = ilog10 x - int p + 1 in (round_half_even (x / 10 powi s), s))"

definition shortest_decimal :: "rat \<Rightarrow> int \<times> int" where
  "shortest_decimal x =
     (case List.find (\<lambda>p. let (m, s) = decimal_at x p in f64_nearest (of_int m * 10 powi s) = x)
           [1..<18] of
        None \<Rightarrow> decimal_at x 17 | Some p \<Rightarrow> decimal_at x p)"

text \<open>\<open>%v\<close> of a positive float: \<open>%e\<close> notation for exponents below -4 or from 21 on.\<close>

definition fmt_pos_float :: "rat \<Rightarrow> string" where
  "fmt_pos_float x =
     (let (m, s) = shortest_decimal x; ds = utoa (nat m); e = int (length ds) - 1 + s;
          pad = (\<lambda>n. replicate n CHR ''0'')
      in if e < - 4 \<or> 21 \<le> e then
           hd ds # (if tl ds = [] then [] else CHR ''.'' # tl ds) @ ''e'' @
           (if e < 0 then ''-'' else ''+'') @
           (if \<bar>e\<bar> < 10 then ''0'' else []) @ utoa (nat \<bar>e\<bar>)
         else if 0 \<le> s then ds @ pad (nat s)
         else if 0 \<le> e then take (nat (e + 1)) ds @ ''.'' @ drop (nat (e + 1)) ds
         else ''0.'' @ pad (nat (- e - 1)) @ ds)"

fun fmt_float :: "float64 \<Rightarrow> string" where
  "fmt_float (Fin x) = (if x = 0 then ''0'' else if 0 < x then fmt_pos_float x
                        else CHR ''-'' # fmt_pos_float (- x))"
| "fmt_float PosInf = ''+Inf''"
| "fmt_float NegInf = ''-Inf''"
| "fmt_float NaN = ''NaN''"

fun insert_entry :: "string \<times> string \<Rightarrow> (string \<times> string) list \<Rightarrow> (string \<times> string) list" where
  "insert_entry e [] = [e]"
| "insert_entry e (f # fs) = (if str_less (fst f) (fst e) then f # insert_entry e fs else e # f # fs)"

fun fmt_v :: "gval \<Rightarrow> string" where
  "fmt_v VNil = ''<nil>''"
| "fmt_v (VString s) = s"
| "fmt_v (VBool b) = (if b then ''true'' else ''false'')"
| "fmt_v (VInt i) = itoa i"
| "fmt_v (VInt64 i) = itoa i"
| "fmt_v (VFloat f) = fmt_float f"
| "fmt_v (VList vs) = ''['' @ str_join '' '' (map fmt_v vs) @ '']''"
| "fmt_v (VMap m) = ''map['' @ str_join '' '' (map (\<lambda>(k, t). k @ '':'' @ t)
      (foldr insert_entry (map (\<lambda>(k, v). (k, fmt_v v)) m) [])) @ '']''"

fun go_type :: "gval \<Rightarrow> string" where
  "go_type VNil = ''<nil>''"
| "go_type (VString _) = ''string''"
| "go_type (VBool _) = ''bool''"
| "go_type (VInt _) = ''int''"
| "go_type (VInt64 _) = ''int64''"
| "go_type (VFloat _) = ''float64''"
| "go_type (VList _) = ''[]interface {}''"
| "go_type (VMap _) = ''map[string]interface {}''"

text \<open>\<open>strconv.Atoi\<close> with the value it returns beside an error: 0 for bad syntax, the nearest
  bound for a number out of range. \<open>strconv.ParseBool\<close> returns false beside its error.\<close>

definition atoi :: "string \<Rightarrow> int \<times> bool" where
  "atoi s = (case parse_int 64 s of Some v \<Rightarrow> (v, True)
     | None \<Rightarrow> (case s of [] \<Rightarrow> (0, False)
        | c # cs \<Rightarrow> let body = (if c = CHR ''-'' \<or> c = CHR ''+'' then cs else s)
            in if atou body = None then (0, False)
               else if c = CHR ''-'' then (- (2 ^ 63), False) else (2 ^ 63 - 1, False)))"

definition parse_bool :: "string \<Rightarrow> bool option" where
  "parse_bool s =
     (if s \<in> set [''1'', ''t'', ''T'', ''true'', ''TRUE'', ''True''] then Some True
      else if s \<in> set [''0'', ''f'', ''F'', ''false'', ''FALSE'', ''False''] then Some False
      else None)"

subsection \<open>\<open>util.go\<close>\<close>

fun IsErrKeyNotFound :: "go_error \<Rightarrow> bool" where
  "IsErrKeyNotFound (ErrKeyNotFound _) = True"
| "IsErrKeyNotFound _ = False"

definition type_assertion_error :: "string \<Rightarrow> string \<Rightarrow> go_error" where
  "type_assertion_error v what = ErrText (''type assertion error: '' @ v @ '' is not '' @ what)"

definition getString :: "params \<Rightarrow> string \<Rightarrow> string result" where
  "getString dict key = (case map_of dict key of
      None \<Rightarrow> Inl (ErrKeyNotFound key)
    | Some VNil \<Rightarrow> Inl (ErrKeyNotFound key)
    | Some (VString s) \<Rightarrow> Inr s
    | Some v \<Rightarrow> Inl (type_assertion_error (fmt_v v) ''a string''))"

text \<open>The string branch of \<open>getInt\<close>, \<open>getFloat64\<close> and \<open>getBool\<close> returns the parsed value
  when the parser reports an error, as the source has it (\<open>err != nil\<close>).\<close>

definition getInt :: "params \<Rightarrow> string \<Rightarrow> int result" where
  "getInt dict key = (case map_of dict key of
      None \<Rightarrow> Inl (ErrKeyNotFound key)
    | Some (VInt i) \<Rightarrow> Inr i
    | Some (VFloat f) \<Rightarrow> Inr (f64_to_int f)
    | Some (VString s) \<Rightarrow> (let (i, ok) = atoi s
        in if \<not> ok then Inr i else Inl (type_assertion_error s ''an int''))
    | Some v \<Rightarrow> Inl (type_assertion_error (fmt_v v) ''an int''))"

definition getFloat64 ::
    "(string \<Rightarrow> float64 \<times> go_error option) \<Rightarrow> params \<Rightarrow> string \<Rightarrow> float64 result" where
  "getFloat64 ParseFloat dict key = (case map_of dict key of
      None \<Rightarrow> Inl (ErrKeyNotFound key)
    | Some (VFloat f) \<Rightarrow> Inr f
    | Some (VString s) \<Rightarrow> (let (f, err) = ParseFloat s
        in if err \<noteq> None then Inr f else Inl (type_assertion_error s ''a float''))
    | Some v \<Rightarrow> Inl (type_assertion_error (fmt_v v) ''a float''))"

definition getDuration ::
    "(string \<Rightarrow> duration result) \<Rightarrow> params \<Rightarrow> string \<Rightarrow> duration result" where
  "getDuration ParseDuration dict key = (case getString dict key of
      Inl err \<Rightarrow> Inl err
    | Inr durationString \<Rightarrow> (case ParseDuration durationString of
        Inl err \<Rightarrow> Inl (ErrText (''parsing duration error: '' @ Error err))
      | Inr duration \<Rightarrow> Inr duration))"

definition getBool :: "params \<Rightarrow> string \<Rightarrow> bool result" where
  "getBool dict key = (case map_of dict key of
      None \<Rightarrow> Inl (ErrKeyNotFound key)
    | Some (VBool b) \<Rightarrow> Inr b
    | Some (VString s) \<Rightarrow> (case parse_bool s of
        None \<Rightarrow> Inr False
      | Some _ \<Rightarrow> Inl (type_assertion_error s ''a bool''))
    | Some v \<Rightarrow> Inl (type_assertion_error (fmt_v v) ''a bool''))"

definition getMap :: "params \<Rightarrow> string \<Rightarrow> params result" where
  "getMap dict key = (case map_of dict key of
      None \<Rightarrow> Inl (ErrKeyNotFound key)
    | Some VNil \<Rightarrow> Inl (ErrKeyNotFound key)
    | Some (VMap m) \<Rightarrow> Inr m
    | Some v \<Rightarrow> Inl (type_assertion_error (fmt_v v) ''a map''))"

fun map_array_loop :: "gval list \<Rightarrow> params list \<Rightarrow> params list result" where
  "map_array_loop [] res = Inr res"
| "map_array_loop (v # vs) res = (case v of
      VMap m \<Rightarrow> map_array_loop vs (res @ [m])
    | _ \<Rightarrow> Inl (type_assertion_error (fmt_v v) ''a map''))"

definition getMapArray :: "params \<Rightarrow> string \<Rightarrow> params list result" where
  "getMapArray dict key = (case map_of dict key of
      None \<Rightarrow> Inl (ErrKeyNotFound key)
    | Some VNil \<Rightarrow> Inl (ErrKeyNotFound key)
    | Some (VList vs) \<Rightarrow> map_array_loop vs []
    | Some v \<Rightarrow> Inl (type_assertion_error (fmt_v v @ '' ('' @ go_type v @ '')'') ''a []map''))"

definition getStringArray :: "params \<Rightarrow> string \<Rightarrow> string list result" where
  "getStringArray dict key = (case map_of dict key of
      None \<Rightarrow> Inl (ErrKeyNotFound key)
    | Some VNil \<Rightarrow> Inl (ErrKeyNotFound key)
    | Some (VList vs) \<Rightarrow> Inr (map fmt_v vs)
    | Some v \<Rightarrow> Inl (type_assertion_error (fmt_v v @ '' ('' @ go_type v @ '')'') ''a slice''))"

definition getLabelSelector ::
    "(string \<Rightarrow> 'sel result) \<Rightarrow> params \<Rightarrow> string \<Rightarrow> 'sel result" where
  "getLabelSelector labels_Parse dict key = (case getString dict key of
      Inl err \<Rightarrow> Inl err
    | Inr value \<Rightarrow> labels_Parse value)"

text \<open>The five \<open>Get\<dots>OrDefault\<close> functions have one shape.\<close>

definition or_default :: "'a result \<Rightarrow> 'a \<Rightarrow> 'a result" where
  "or_default r defaultValue = (case r of
      Inl err \<Rightarrow> if IsErrKeyNotFound err then Inr defaultValue else Inl err
    | Inr value \<Rightarrow> Inr value)"

definition GetStringOrDefault :: "params \<Rightarrow> string \<Rightarrow> string \<Rightarrow> string result" where
  "GetStringOrDefault dict key d = or_default (getString dict key) d"

definition GetIntOrDefault :: "params \<Rightarrow> string \<Rightarrow> int \<Rightarrow> int result" where
  "GetIntOrDefault dict key d = or_default (getInt dict key) d"

definition GetFloat64OrDefault ::
    "(string \<Rightarrow> float64 \<times> go_error option) \<Rightarrow> params \<Rightarrow> string \<Rightarrow> float64 \<Rightarrow> float64 result" where
  "GetFloat64OrDefault ParseFloat dict key d = or_default (getFloat64 ParseFloat dict key) d"

definition GetDurationOrDefault ::
    "(string \<Rightarrow> duration result) \<Rightarrow> params \<Rightarrow> string \<Rightarrow> duration \<Rightarrow> duration result" where
  "GetDurationOrDefault ParseDuration dict key d = or_default (getDuration ParseDuration dict key) d"

definition GetBoolOrDefault :: "params \<Rightarrow> string \<Rightarrow> bool \<Rightarrow> bool result" where
  "GetBoolOrDefault dict key d = or_default (getBool dict key) d"

fun CopyMap :: "(string, 'v) go_map \<Rightarrow> (string, 'v) go_map \<Rightarrow> (string, 'v) go_map" where
  "CopyMap [] dest = dest"
| "CopyMap ((k, v) # src) dest = CopyMap src (AList.update k v dest)"

definition CloneMap :: "(string, 'v) go_map \<Rightarrow> (string, 'v) go_map" where
  "CloneMap src = CopyMap src []"

text \<open>\<open>draw i\<close> is the result of the \<open>i\<close>-th call \<open>rand.Intn(36)\<close>.\<close>

definition dns_characters :: string where
  "dns_characters = ''abcdefghijklmnopqrstuvwxyz0123456789''"

definition RandomDNS1123String :: "(nat \<Rightarrow> nat) \<Rightarrow> nat \<Rightarrow> string" where
  "RandomDNS1123String draw len = map (\<lambda>i. dns_characters ! draw i) [0..<len]"

subsection \<open>\<open>selector.go\<close>\<close>

record ObjectSelector =
  sel_Namespace :: string
  sel_LabelSelector :: string
  sel_FieldSelector :: string

definition NewObjectSelector :: ObjectSelector where
  "NewObjectSelector = \<lparr>sel_Namespace = [], sel_LabelSelector = [], sel_FieldSelector = []\<rparr>"

text \<open>An assignment \<open>o.F, err = f()\<close> stores the zero value beside an error.\<close>

definition ObjectSelector_Parse ::
    "params \<Rightarrow> ObjectSelector \<Rightarrow> ObjectSelector \<times> go_error option" where
  "ObjectSelector_Parse ps sel =
     (case GetStringOrDefault ps ''namespace'' [] of
        Inl err \<Rightarrow> (sel\<lparr>sel_Namespace := []\<rparr>, Some err)
      | Inr ns \<Rightarrow> let s1 = sel\<lparr>sel_Namespace := ns\<rparr> in
     (case GetStringOrDefault ps ''labelSelector'' [] of
        Inl err \<Rightarrow> (s1\<lparr>sel_LabelSelector := []\<rparr>, Some err)
      | Inr l \<Rightarrow> let s2 = s1\<lparr>sel_LabelSelector := l\<rparr> in
     (case GetStringOrDefault ps ''fieldSelector'' [] of
        Inl err \<Rightarrow> (s2\<lparr>sel_FieldSelector := []\<rparr>, Some err)
      | Inr f \<Rightarrow> (s2\<lparr>sel_FieldSelector := f\<rparr>, None))))"

definition CreateSelectorsString :: "string \<Rightarrow> string \<Rightarrow> string \<Rightarrow> string" where
  "CreateSelectorsString namespace labelSelector fieldSelector =
     (let ss = (if namespace \<noteq> [] then [''namespace('' @ namespace @ '')''] else []) @
               (if labelSelector \<noteq> [] then [''labelSelector('' @ labelSelector @ '')''] else []) @
               (if fieldSelector \<noteq> [] then [''fieldSelector('' @ fieldSelector @ '')''] else [])
      in if length ss = 0 then ''everything'' else str_join '', '' ss)"

definition ObjectSelector_String :: "ObjectSelector \<Rightarrow> string" where
  "ObjectSelector_String s =
     CreateSelectorsString (sel_Namespace s) (sel_LabelSelector s) (sel_FieldSelector s)"

subsection \<open>Lemmas\<close>

lemma or_default_simps [simp]:
  "or_default (Inr v) d = Inr v"
  "or_default (Inl (ErrKeyNotFound k)) d = Inr d"
  "or_default (Inl (type_assertion_error v w)) d = Inl (type_assertion_error v w)"
  "or_default (Inl (ErrText s)) d = Inl (ErrText s)"
  by (simp_all add: or_default_def type_assertion_error_def)

lemma parse_int_atoi: "snd (atoi s) \<longleftrightarrow> parse_int 64 s \<noteq> None"
  by (auto simp: atoi_def Let_def split: option.splits list.splits)

lemma CopyMap_map_of: "distinct (map fst src) \<Longrightarrow> map_of (CopyMap src dest) = map_of dest ++ map_of src"
proof (induction src arbitrary: dest)
  case (Cons kv src)
  obtain k v where kv: "kv = (k, v)" by (cases kv)
  with Cons have "map_of (CopyMap src (AList.update k v dest))
      = map_of (AList.update k v dest) ++ map_of src" and "k \<notin> dom (map_of src)"
    by (auto simp: dom_map_of_conv_image_fst)
  then show ?case by (auto simp: kv fun_eq_iff map_add_def split: option.splits)
qed simp

lemma CopyMap_distinct: "distinct (map fst dest) \<Longrightarrow> distinct (map fst (CopyMap src dest))"
  by (induction src dest rule: CopyMap.induct) (simp_all add: distinct_update)

lemma CloneMap_map_of: "distinct (map fst src) \<Longrightarrow> map_of (CloneMap src) = map_of src"
  by (simp add: CloneMap_def CopyMap_map_of)

end
