(* ===== verification/Api.thy ===== *)
theory Api
  imports Params
begin

text \<open>
  Package \<open>api\<close>: the test configuration (\<open>types.go\<close>), its defaults (\<open>default.go\<close>) and
  the step predicates (\<open>extensions.go\<close>). A pointer field and a slice whose nil value the code
  tells apart from an empty one is an \<open>option\<close>; an \<open>int32\<close> field is the integer it holds
  (\<open>Phases\<close> and \<open>Executor\<close> write out the 32-bit wrap-around where they count).
\<close>

record TestScenario =
  ts_Identifier :: string
  ts_ConfigPath :: string
  ts_OverridePaths :: "string list"

record ListUnknownObjectOptions =
  luo_LabelSelector :: string

record Object =
  obj_Basename :: string
  obj_ObjectTemplatePath :: string
  obj_TemplateFillMap :: "params option"
  obj_ListUnknownObjectOptions :: "ListUnknownObjectOptions option"

record NamespaceRange =
  nr_Min :: int
  nr_Max :: int
  nr_Basename :: "string option"

record Phase =
  ph_NamespaceRange :: "NamespaceRange option"
  ph_NamespaceList :: "string list option"
  ph_ReplicasPerNamespace :: int
  ph_TuningSet :: string
  ph_ObjectBundle :: "Object list"

record MeasurementInstanceConfig =
  mi_Identifier :: string
  mi_Params :: params

record Measurement =
  ms_Method :: string
  ms_Params :: params
  ms_Identifier :: string
  ms_Instances :: "MeasurementInstanceConfig list"

record ModuleRef =
  mr_Path :: string
  mr_Params :: "params option"

record Step =
  st_Phases :: "Phase list"
  st_Measurements :: "Measurement list"
  st_Module :: ModuleRef
  st_Name :: string

record Module =
  mod_Steps :: "Step list"

record NamespaceConfig =
  ns_Number :: int
  ns_Prefix :: string
  ns_DeleteStaleNamespaces :: "bool option"
  ns_DeleteAutomanagedNamespaces :: "bool option"
  ns_EnableExistingNamespaces :: "bool option"
  ns_DeleteNamespaceTimeout :: "duration option"

record QPSLoad = ql_QPS :: float64
record RandomizedLoad = rl_AverageQPS :: float64
record SteppedLoad =
  sl_BurstSize :: int
  sl_StepDelay :: duration
record TimeLimitedLoad = tl_TimeLimit :: duration
record RandomizedTimeLimitedLoad = rtl_TimeLimit :: duration
record ParallelismLimitedLoad = pl_ParallelismLimit :: int
record GlobalQPSLoad =
  gl_QPS :: float64
  gl_Burst :: int
record PoissonLoad = po_ExpectedActionsPerSecond :: float64

record TuningSet =
  tun_Name :: string
  tun_InitialDelay :: duration
  tun_QPSLoad :: "QPSLoad option"
  tun_RandomizedLoad :: "RandomizedLoad option"
  tun_SteppedLoad :: "SteppedLoad option"
  tun_TimeLimitedLoad :: "TimeLimitedLoad option"
  tun_RandomizedTimeLimitedLoad :: "RandomizedTimeLimitedLoad option"
  tun_ParallelismLimitedLoad :: "ParallelismLimitedLoad option"
  tun_GlobalQPSLoad :: "GlobalQPSLoad option"
  tun_PoissonLoad :: "PoissonLoad option"

record Dependency =
  dep_Name :: string
  dep_Method :: string
  dep_Timeout :: duration
  dep_Params :: params

record NodeFailureConfig =
  nf_FailureRate :: float64
  nf_Interval :: duration
  nf_JitterFactor :: float64
  nf_SimulatedDowntime :: duration

record ChaosMonkeyConfig =
  cm_NodeFailure :: "NodeFailureConfig option"
  cm_ExcludedNodes :: "string list option"

record Config =
  cf_Name :: string
  cf_Dependencies :: "Dependency list"
  cf_AutomanagedNamespaces :: int
  cf_Namespace :: NamespaceConfig
  cf_Steps :: "Step list"
  cf_TuningSets :: "TuningSet list"
  cf_ChaosMonkey :: ChaosMonkeyConfig

subsection \<open>\<open>extensions.go\<close>\<close>

definition IsMeasurement :: "Step \<Rightarrow> bool" where
  "IsMeasurement s \<longleftrightarrow> 0 < length (st_Measurements s)"

definition IsPhase :: "Step \<Rightarrow> bool" where
  "IsPhase s \<longleftrightarrow> 0 < length (st_Phases s)"

definition IsModule :: "Step \<Rightarrow> bool" where
  "IsModule s \<longleftrightarrow> mr_Path (st_Module s) \<noteq> []"

subsection \<open>\<open>default.go\<close>\<close>

definition DefaultNamespaceDeletionTimeout :: duration where
  "DefaultNamespaceDeletionTimeout = 10 * minute"

text \<open>\<open>if p == nil { p = &d }\<close>.\<close>

definition nil_default :: "'a option \<Rightarrow> 'a \<Rightarrow> 'a option" where
  "nil_default p d = (case p of None \<Rightarrow> Some d | Some x \<Rightarrow> Some x)"

text \<open>The six assignments touch six different fields; \<open>draw\<close> are the random draws of
  \<open>RandomDNS1123String\<close>.\<close>

definition NamespaceConfig_SetDefaults :: "(nat \<Rightarrow> nat) \<Rightarrow> NamespaceConfig \<Rightarrow> NamespaceConfig" where
  "NamespaceConfig_SetDefaults draw ns =
     ns\<lparr>ns_Number := (if ns_Number ns = 0 then 1 else ns_Number ns),
        ns_Prefix := (if ns_Prefix ns = [] then ''test-'' @ RandomDNS1123String draw 6
                      else ns_Prefix ns),
        ns_DeleteStaleNamespaces := nil_default (ns_DeleteStaleNamespaces ns) False,
        ns_DeleteAutomanagedNamespaces := nil_default (ns_DeleteAutomanagedNamespaces ns) True,
        ns_EnableExistingNamespaces := nil_default (ns_EnableExistingNamespaces ns) False,
        ns_DeleteNamespaceTimeout :=
          nil_default (ns_DeleteNamespaceTimeout ns) DefaultNamespaceDeletionTimeout\<rparr>"

definition Config_SetDefaults :: "(nat \<Rightarrow> nat) \<Rightarrow> Config \<Rightarrow> Config" where
  "Config_SetDefaults draw conf =
     (let conf = conf\<lparr>cf_Namespace := NamespaceConfig_SetDefaults draw (cf_Namespace conf)\<rparr>
      in if ns_Number (cf_Namespace conf) = 1 \<and> cf_AutomanagedNamespaces conf > 1
         then conf\<lparr>cf_Namespace := (cf_Namespace conf)\<lparr>ns_Number := cf_AutomanagedNamespaces conf\<rparr>\<rparr>
         else conf)"

text \<open>What \<open>prepareTestNamespaces\<close> and the cleanup dereference is set.\<close>

definition namespace_pointers_set :: "NamespaceConfig \<Rightarrow> bool" where
  "namespace_pointers_set ns \<longleftrightarrow> ns_DeleteStaleNamespaces ns \<noteq> None
     \<and> ns_DeleteAutomanagedNamespaces ns \<noteq> None \<and> ns_EnableExistingNamespaces ns \<noteq> None
     \<and> ns_DeleteNamespaceTimeout ns \<noteq> None"

lemma nil_default_simps [simp]:
  "nil_default None d = Some d" "nil_default (Some x) d = Some x" "nil_default p d \<noteq> None"
  by (simp_all add: nil_default_def split: option.splits)

lemma nil_default_fix [simp]: "p \<noteq> None \<Longrightarrow> nil_default p d = p"
  by auto

lemma NamespaceConfig_SetDefaults_pointers [simp]:
  "namespace_pointers_set (NamespaceConfig_SetDefaults draw ns)"
  by (simp add: namespace_pointers_set_def NamespaceConfig_SetDefaults_def del: not_None_eq)

lemma Config_SetDefaults_Number:
  "ns_Number (cf_Namespace (Config_SetDefaults draw c)) =
     (if ns_Number (cf_Namespace c) \<in> {0, 1} then max 1 (cf_AutomanagedNamespaces c)
      else ns_Number (cf_Namespace c))"
  by (auto simp: Config_SetDefaults_def NamespaceConfig_SetDefaults_def Let_def max_def)

lemma NamespaceConfig_SetDefaults_fixpoint:
  assumes "namespace_pointers_set ns" and "ns_Number ns \<noteq> 0" and "ns_Prefix ns \<noteq> []"
  shows "NamespaceConfig_SetDefaults draw ns = ns"
  using assms by (simp add: namespace_pointers_set_def NamespaceConfig_SetDefaults_def del: not_None_eq)

end
