(* ===== verification/Validation.thy ===== *)
theory Validation
  imports Api
begin

text \<open>
  \<open>api/validation.go\<close>: the validator of a test configuration. Every \<open>validate\<dots>\<close> function
  returns the list of its field errors, in the order the code appends them. What the code takes
  from outside is a field of \<open>validation_env\<close>: the registries \<open>RegisteredMeasurements\<close> and
  \<open>RegisteredDependencies\<close>, the working directory, whether \<open>os.Stat\<close> reports that a path
  does not exist, and \<open>validation.IsDNS1123Subdomain\<close> of apimachinery. A field path and a field
  error are the values the \<open>field\<close> package builds; \<open>asError\<close> is the conversion of a
  \<open>*field.Error\<close> to \<open>error\<close>.

  \<open>valid_config\<close> says declaratively which configurations are correct;
  \<open>Validate_None_iff\<close> shows that the validator accepts exactly those.
\<close>

datatype fpath = NewPath string | Child fpath string | Index fpath nat

datatype bad_value = BadInt int | BadFloat float64 | BadString string | BadMeasurements "Measurement list"

datatype field_error =
    Invalid fpath bad_value string
  | Forbidden fpath string
  | Required fpath string

record validation_env =
  RegisteredMeasurements :: "string \<Rightarrow> bool"
  RegisteredDependencies :: "string \<Rightarrow> bool"
  cwd :: string
  stat_IsNotExist :: "string \<Rightarrow> bool"
  IsDNS1123Subdomain :: "string \<Rightarrow> string list"

record ConfigValidator =
  cv_configDir :: string
  cv_config :: Config

definition NewConfigValidator :: "string \<Rightarrow> Config \<Rightarrow> ConfigValidator" where
  "NewConfigValidator configDir config = \<lparr>cv_configDir = configDir, cv_config = config\<rparr>"

definition fileExists :: "validation_env \<Rightarrow> ConfigValidator \<Rightarrow> string \<Rightarrow> bool" where
  "fileExists env v path =
     (let e1 = stat_IsNotExist env (cwd env @ ''/'' @ cv_configDir v @ ''/'' @ path);
          e2 = (if e1 then stat_IsNotExist env (cv_configDir v @ ''/'' @ path) else e1)
      in \<not> e2)"

definition validateNamespace :: "NamespaceConfig \<Rightarrow> fpath \<Rightarrow> field_error list" where
  "validateNamespace ns fldPath =
     (if ns_Number ns \<le> 0
      then [Invalid (Child fldPath ''number'') (BadInt (ns_Number ns)) ''must be positive''] else [])"

definition validateQPSLoad :: "QPSLoad \<Rightarrow> fpath \<Rightarrow> field_error list" where
  "validateQPSLoad ql fldPath = (if f64_le (ql_QPS ql) (Fin 0)
     then [Invalid (Child fldPath ''qps'') (BadFloat (ql_QPS ql)) ''must have positive value''] else [])"

definition validateRandomizedLoad :: "RandomizedLoad \<Rightarrow> fpath \<Rightarrow> field_error list" where
  "validateRandomizedLoad rl fldPath = (if f64_le (rl_AverageQPS rl) (Fin 0)
     then [Invalid (Child fldPath ''averageQps'') (BadFloat (rl_AverageQPS rl)) ''must have positive value'']
     else [])"

definition validateSteppedLoad :: "SteppedLoad \<Rightarrow> fpath \<Rightarrow> field_error list" where
  "validateSteppedLoad sl fldPath = (if sl_BurstSize sl \<le> 0
     then [Invalid (Child fldPath ''burstSize'') (BadInt (sl_BurstSize sl)) ''must have positive value'']
     else [])"

definition validateTimeLimitedLoad :: "TimeLimitedLoad \<Rightarrow> fpath \<Rightarrow> field_error list" where
  "validateTimeLimitedLoad tll fldPath = (if tl_TimeLimit tll \<le> 0
     then [Invalid (Child fldPath ''timeLimit'') (BadInt (tl_TimeLimit tll)) ''must have positive value'']
     else [])"

definition validateRandomizedTimeLimitedLoad ::
    "RandomizedTimeLimitedLoad \<Rightarrow> fpath \<Rightarrow> field_error list" where
  "validateRandomizedTimeLimitedLoad rtl fldPath = (if rtl_TimeLimit rtl \<le> 0
     then [Invalid (Child fldPath ''timeLimit'') (BadInt (rtl_TimeLimit rtl)) ''must have positive value'']
     else [])"

definition validateParallelismTimeLimitedLoad ::
    "ParallelismLimitedLoad \<Rightarrow> fpath \<Rightarrow> field_error list" where
  "validateParallelismTimeLimitedLoad ptl fldPath = (if pl_ParallelismLimit ptl \<le> 0
     then [Invalid (Child fldPath ''parallelismLimit'') (BadInt (pl_ParallelismLimit ptl))
             ''must have positive value''] else [])"

definition validateGlobalQPSLoad :: "GlobalQPSLoad \<Rightarrow> fpath \<Rightarrow> field_error list" where
  "validateGlobalQPSLoad gl fldPath =
     (if f64_le (gl_QPS gl) (Fin 0)
      then [Invalid (Child fldPath ''qps'') (BadFloat (gl_QPS gl)) ''must have positive value''] else []) @
     (if gl_Burst gl \<le> 0
      then [Invalid (Child fldPath ''burst'') (BadInt (gl_Burst gl)) ''must have positive value''] else [])"

definition validatePoissonLoad :: "PoissonLoad \<Rightarrow> fpath \<Rightarrow> field_error list" where
  "validatePoissonLoad rl fldPath = (if f64_le (po_ExpectedActionsPerSecond rl) (Fin 0)
     then [Invalid (Child fldPath ''expectedActionsPerSecond'')
             (BadFloat (po_ExpectedActionsPerSecond rl)) ''must have positive value''] else [])"

text \<open>One \<open>if ts.X != nil\<close> block: the number it adds to \<open>tuningSetsNumber\<close> and its errors.\<close>

definition ts_block :: "'l option \<Rightarrow> ('l \<Rightarrow> fpath \<Rightarrow> field_error list) \<Rightarrow> fpath \<Rightarrow> nat \<times> field_error list" where
  "ts_block l validate p = (case l of None \<Rightarrow> (0, []) | Some x \<Rightarrow> (1, validate x p))"

definition validateTuningSet :: "TuningSet \<Rightarrow> fpath \<Rightarrow> field_error list" where
  "validateTuningSet ts fldPath =
     (let bs = [ts_block (tun_QPSLoad ts) validateQPSLoad (Child fldPath ''qpsLoad''),
           ts_block (tun_RandomizedLoad ts) validateRandomizedLoad (Child fldPath ''randomizedLoad''),
           ts_block (tun_SteppedLoad ts) validateSteppedLoad (Child fldPath ''steppedLoad''),
           ts_block (tun_TimeLimitedLoad ts) validateTimeLimitedLoad (Child fldPath ''timeLimitedLoad''),
           ts_block (tun_RandomizedTimeLimitedLoad ts) validateRandomizedTimeLimitedLoad
             (Child fldPath ''randomizedTimeLimitedLoad''),
           ts_block (tun_ParallelismLimitedLoad ts) validateParallelismTimeLimitedLoad
             (Child fldPath ''parallelismLimitedLoad''),
           ts_block (tun_GlobalQPSLoad ts) validateGlobalQPSLoad (Child fldPath ''globalQPSLoad''),
           ts_block (tun_PoissonLoad ts) validatePoissonLoad (Child fldPath ''poissonLoad'')];
         tuningSetsNumber = sum_list (map fst bs)
      in concat (map snd bs) @
         (if tuningSetsNumber \<noteq> 1
          then [Forbidden fldPath ''must specify exactly 1 tuning set type''] else []))"

definition validateNamespaceRange :: "NamespaceRange \<Rightarrow> fpath \<Rightarrow> field_error list" where
  "validateNamespaceRange nr fldPath =
     (if nr_Min nr < 0
      then [Invalid (Child fldPath ''min'') (BadInt (nr_Min nr)) ''must be non-negative''] else []) @
     (if nr_Max nr < nr_Min nr
      then [Invalid (Child fldPath ''max'') (BadInt (nr_Max nr)) ''must be greater than min''] else [])"

definition validateObject ::
    "validation_env \<Rightarrow> ConfigValidator \<Rightarrow> Object \<Rightarrow> fpath \<Rightarrow> field_error list" where
  "validateObject env v ob fldPath =
     map (\<lambda>err. Invalid (Child fldPath ''basename'') (BadString (obj_Basename ob)) err)
       (IsDNS1123Subdomain env (obj_Basename ob)) @
     (if \<not> fileExists env v (obj_ObjectTemplatePath ob)
      then [Invalid (Child fldPath ''objectTemplatePath'') (BadString (obj_ObjectTemplatePath ob))
              ''file must exist''] else [])"

text \<open>\<open>for i := range xs { allErrs = append(allErrs, f(xs[i], path.Index(i))...) }\<close>.\<close>

fun range_errs :: "('a \<Rightarrow> fpath \<Rightarrow> field_error list) \<Rightarrow> fpath \<Rightarrow> nat \<Rightarrow> 'a list \<Rightarrow> field_error list" where
  "range_errs f p i [] = []"
| "range_errs f p i (x # xs) = f x (Index p i) @ range_errs f p (Suc i) xs"

definition validatePhase ::
    "validation_env \<Rightarrow> ConfigValidator \<Rightarrow> Phase \<Rightarrow> fpath \<Rightarrow> field_error list" where
  "validatePhase env v p fldPath =
     (if ph_NamespaceList p \<noteq> None \<and> ph_NamespaceRange p \<noteq> None
      then [Forbidden fldPath ''must specify at most 1 of namespaceList and namespaceRange''] else []) @
     (case ph_NamespaceRange p of None \<Rightarrow> []
      | Some nr \<Rightarrow> validateNamespaceRange nr (Child fldPath ''namespaceRange'')) @
     (if ph_ReplicasPerNamespace p < 0
      then [Invalid (Child fldPath ''replicasPerNamespace'') (BadInt (ph_ReplicasPerNamespace p))
              ''must be non-negative''] else []) @
     range_errs (validateObject env v) (Child fldPath ''objectBundle'') 0 (ph_ObjectBundle p)"

definition validateMeasurementMethod :: "validation_env \<Rightarrow> string \<Rightarrow> fpath \<Rightarrow> field_error list" where
  "validateMeasurementMethod env method fldPath =
     (if method = [] then [Required fldPath ''method is required''] else []) @
     (if \<not> RegisteredMeasurements env method
      then [Invalid fldPath (BadString method) ''measurement method is not registered''] else [])"

definition validateMeasurement :: "validation_env \<Rightarrow> Measurement \<Rightarrow> fpath \<Rightarrow> field_error list" where
  "validateMeasurement env m fldPath =
     (if length (ms_Instances m) \<noteq> 0 \<and> ms_Identifier m \<noteq> []
      then [Invalid (Child fldPath ''Identifier'') (BadString (ms_Identifier m))
              '' cannot be non empty when Instances specified''] else []) @
     (if length (ms_Instances m) = 0 \<and> ms_Identifier m = []
      then [Invalid (Child fldPath ''Identifier'') (BadString (ms_Identifier m))
              '' and Instances cannot be both empty''] else []) @
     validateMeasurementMethod env (ms_Method m) (Child fldPath ''method'')"

definition validateStep ::
    "validation_env \<Rightarrow> ConfigValidator \<Rightarrow> Step \<Rightarrow> fpath \<Rightarrow> field_error list" where
  "validateStep env v s fldPath =
     range_errs (validatePhase env v) (Child fldPath ''phases'') 0 (st_Phases s) @
     range_errs (validateMeasurement env) (Child fldPath ''measurements'') 0 (st_Measurements s) @
     (let isPhasesEmpty = (length (st_Phases s) = 0);
          isMeasurementsEmpty = (length (st_Measurements s) = 0)
      in (if isPhasesEmpty \<and> isMeasurementsEmpty
          then [Invalid (Child fldPath ''measurements'') (BadMeasurements (st_Measurements s))
                  ''can't be empty with empty phases''] else []) @
         (if \<not> isPhasesEmpty \<and> \<not> isMeasurementsEmpty
          then [Invalid (Child fldPath ''measurements'') (BadMeasurements (st_Measurements s))
                  ''can't be non-empty with non-empty phases''] else []))"

fun tuningSet_found :: "string \<Rightarrow> TuningSet list \<Rightarrow> bool" where
  "tuningSet_found n [] = False"
| "tuningSet_found n (t # ts) = (if n = tun_Name t then True else tuningSet_found n ts)"

definition validateTuningSetInPhase :: "TuningSet list \<Rightarrow> Step \<Rightarrow> fpath \<Rightarrow> field_error list" where
  "validateTuningSetInPhase ts s fldPath =
     range_errs (\<lambda>p pth. if ph_TuningSet p \<noteq> [] \<and> \<not> tuningSet_found (ph_TuningSet p) ts
        then [Invalid (Child pth ''tuningSet'') (BadString (ph_TuningSet p))
                ''tuning set referenced has not been declared''] else [])
       (Child fldPath ''phases'') 0 (st_Phases s)"

definition handleTuningSetInPhase :: "ConfigValidator \<Rightarrow> field_error list" where
  "handleTuningSetInPhase v =
     (let c = cv_config v
      in range_errs (validateTuningSetInPhase (cf_TuningSets c)) (NewPath ''steps'') 0 (cf_Steps c))"

definition validateDependencyMethod :: "validation_env \<Rightarrow> string \<Rightarrow> fpath \<Rightarrow> field_error list" where
  "validateDependencyMethod env method fldPath =
     (if method = [] then [Required fldPath ''method is required''] else []) @
     (if \<not> RegisteredDependencies env method
      then [Invalid fldPath (BadString method) ''dependency method is not registered''] else [])"

definition validateDependency :: "validation_env \<Rightarrow> Dependency \<Rightarrow> fpath \<Rightarrow> field_error list" where
  "validateDependency env d fldPath =
     (if dep_Name d = [] then [Required (Child fldPath ''name'') ''name is required''] else []) @
     (if dep_Timeout d < 0
      then [Invalid (Child fldPath ''timeout'') (BadInt (dep_Timeout d)) ''timeout cannot be negative'']
      else []) @
     validateDependencyMethod env (dep_Method d) (Child fldPath ''method'')"

definition toErrorList :: "(field_error \<Rightarrow> go_error) \<Rightarrow> field_error list \<Rightarrow> ErrorList" where
  "toErrorList asError fldErrors =
     foldl (\<lambda>l e. ErrorList_Append l [asError e]) (NewErrorList []) fldErrors"

definition Validate ::
    "(field_error \<Rightarrow> go_error) \<Rightarrow> validation_env \<Rightarrow> ConfigValidator \<Rightarrow> ErrorList option" where
  "Validate asError env v =
     (let c = cv_config v;
          allErrs =
            (if cf_AutomanagedNamespaces c < 0
             then [Invalid (NewPath ''automanagedNamespaces'') (BadInt (cf_AutomanagedNamespaces c))
                     ''must be non-negative''] else []) @
            validateNamespace (cf_Namespace c) (NewPath ''namespace'') @
            range_errs (validateDependency env) (NewPath ''dependencies'') 0 (cf_Dependencies c) @
            range_errs validateTuningSet (NewPath ''tuningSets'') 0 (cf_TuningSets c) @
            (if length (cf_Steps c) = 0
             then [Invalid (NewPath ''steps'') (BadInt 0) ''cannot be empty''] else []) @
            range_errs (validateStep env v) (NewPath ''steps'') 0 (cf_Steps c) @
            handleTuningSetInPhase v
      in if length allErrs = 0 then None else Some (toErrorList asError allErrs))"

subsection \<open>The specification\<close>

text \<open>Positive as the validator tests it: not at or below zero (a NaN passes).\<close>

definition qps_ok :: "float64 \<Rightarrow> bool" where
  "qps_ok q \<longleftrightarrow> \<not> f64_le q (Fin 0)"

definition load_count :: "TuningSet \<Rightarrow> nat" where
  "load_count ts = of_bool (tun_QPSLoad ts \<noteq> None) + of_bool (tun_RandomizedLoad ts \<noteq> None)
     + of_bool (tun_SteppedLoad ts \<noteq> None) + of_bool (tun_TimeLimitedLoad ts \<noteq> None)
     + of_bool (tun_RandomizedTimeLimitedLoad ts \<noteq> None)
     + of_bool (tun_ParallelismLimitedLoad ts \<noteq> None)
     + of_bool (tun_GlobalQPSLoad ts \<noteq> None) + of_bool (tun_PoissonLoad ts \<noteq> None)"

definition valid_tuningset :: "TuningSet \<Rightarrow> bool" where
  "valid_tuningset ts \<longleftrightarrow> load_count ts = 1
     \<and> (\<forall>l. tun_QPSLoad ts = Some l \<longrightarrow> qps_ok (ql_QPS l))
     \<and> (\<forall>l. tun_RandomizedLoad ts = Some l \<longrightarrow> qps_ok (rl_AverageQPS l))
     \<and> (\<forall>l. tun_SteppedLoad ts = Some l \<longrightarrow> 0 < sl_BurstSize l)
     \<and> (\<forall>l. tun_TimeLimitedLoad ts = Some l \<longrightarrow> 0 < tl_TimeLimit l)
     \<and> (\<forall>l. tun_RandomizedTimeLimitedLoad ts = Some l \<longrightarrow> 0 < rtl_TimeLimit l)
     \<and> (\<forall>l. tun_ParallelismLimitedLoad ts = Some l \<longrightarrow> 0 < pl_ParallelismLimit l)
     \<and> (\<forall>l. tun_GlobalQPSLoad ts = Some l \<longrightarrow> qps_ok (gl_QPS l) \<and> 0 < gl_Burst l)
     \<and> (\<forall>l. tun_PoissonLoad ts = Some l \<longrightarrow> qps_ok (po_ExpectedActionsPerSecond l))"

definition valid_object :: "validation_env \<Rightarrow> string \<Rightarrow> Object \<Rightarrow> bool" where
  "valid_object env dir ob \<longleftrightarrow> IsDNS1123Subdomain env (obj_Basename ob) = []
     \<and> (\<not> stat_IsNotExist env (cwd env @ ''/'' @ dir @ ''/'' @ obj_ObjectTemplatePath ob)
        \<or> \<not> stat_IsNotExist env (dir @ ''/'' @ obj_ObjectTemplatePath ob))"

definition valid_phase :: "validation_env \<Rightarrow> string \<Rightarrow> TuningSet list \<Rightarrow> Phase \<Rightarrow> bool" where
  "valid_phase env dir tss p \<longleftrightarrow>
     \<not> (ph_NamespaceList p \<noteq> None \<and> ph_NamespaceRange p \<noteq> None)
     \<and> (\<forall>nr. ph_NamespaceRange p = Some nr \<longrightarrow> 0 \<le> nr_Min nr \<and> nr_Min nr \<le> nr_Max nr)
     \<and> 0 \<le> ph_ReplicasPerNamespace p
     \<and> (\<forall>ob \<in> set (ph_ObjectBundle p). valid_object env dir ob)
     \<and> (ph_TuningSet p = [] \<or> ph_TuningSet p \<in> tun_Name ` set tss)"

definition valid_measurement :: "validation_env \<Rightarrow> Measurement \<Rightarrow> bool" where
  "valid_measurement env m \<longleftrightarrow> (ms_Instances m = [] \<longleftrightarrow> ms_Identifier m \<noteq> [])
     \<and> ms_Method m \<noteq> [] \<and> RegisteredMeasurements env (ms_Method m)"

definition valid_step :: "validation_env \<Rightarrow> string \<Rightarrow> TuningSet list \<Rightarrow> Step \<Rightarrow> bool" where
  "valid_step env dir tss s \<longleftrightarrow> (st_Phases s = [] \<longleftrightarrow> st_Measurements s \<noteq> [])
     \<and> (\<forall>p \<in> set (st_Phases s). valid_phase env dir tss p)
     \<and> (\<forall>m \<in> set (st_Measurements s). valid_measurement env m)"

definition valid_dependency :: "validation_env \<Rightarrow> Dependency \<Rightarrow> bool" where
  "valid_dependency env d \<longleftrightarrow> dep_Name d \<noteq> [] \<and> 0 \<le> dep_Timeout d
     \<and> dep_Method d \<noteq> [] \<and> RegisteredDependencies env (dep_Method d)"

definition valid_config :: "validation_env \<Rightarrow> string \<Rightarrow> Config \<Rightarrow> bool" where
  "valid_config env dir c \<longleftrightarrow> 0 \<le> cf_AutomanagedNamespaces c \<and> 0 < ns_Number (cf_Namespace c)
     \<and> (\<forall>d \<in> set (cf_Dependencies c). valid_dependency env d)
     \<and> (\<forall>t \<in> set (cf_TuningSets c). valid_tuningset t)
     \<and> cf_Steps c \<noteq> []
     \<and> (\<forall>s \<in> set (cf_Steps c). valid_step env dir (cf_TuningSets c) s)"

subsection \<open>The validator accepts exactly the valid configurations\<close>

lemma range_errs_Nil_iff: "range_errs f p i xs = [] \<longleftrightarrow> (\<forall>j < length xs. f (xs ! j) (Index p (i + j)) = [])"
proof (induction xs arbitrary: i)
  case (Cons x xs)
  have "(\<forall>j < Suc (length xs). f ((x # xs) ! j) (Index p (i + j)) = []) \<longleftrightarrow>
      f x (Index p i) = [] \<and> (\<forall>j < length xs. f (xs ! j) (Index p (Suc i + j)) = [])"
    by (auto simp: less_Suc_eq_0_disj)
  with Cons show ?case by simp
qed simp

text \<open>Where a check does not depend on the path, the loop checks every element.\<close>

lemma range_errs_Nil_all:
  assumes "\<And>x q. f x q = [] \<longleftrightarrow> P x"
  shows "range_errs f p i xs = [] \<longleftrightarrow> (\<forall>x \<in> set xs. P x)"
  by (simp add: range_errs_Nil_iff assms all_set_conv_all_nth)

lemma tuningSet_found_iff: "tuningSet_found n ts \<longleftrightarrow> n \<in> tun_Name ` set ts"
  by (induction ts) auto

lemma fileExists_iff: "fileExists env v path \<longleftrightarrow>
    \<not> stat_IsNotExist env (cwd env @ ''/'' @ cv_configDir v @ ''/'' @ path)
    \<or> \<not> stat_IsNotExist env (cv_configDir v @ ''/'' @ path)"
  by (simp add: fileExists_def Let_def)

lemma validateObject_Nil: "validateObject env v ob q = [] \<longleftrightarrow> valid_object env (cv_configDir v) ob"
  by (simp add: validateObject_def valid_object_def fileExists_iff)

lemma validateMeasurement_Nil: "validateMeasurement env m q = [] \<longleftrightarrow> valid_measurement env m"
  by (auto simp: validateMeasurement_def validateMeasurementMethod_def valid_measurement_def)

lemma validateDependency_Nil: "validateDependency env d q = [] \<longleftrightarrow> valid_dependency env d"
  by (auto simp: validateDependency_def validateDependencyMethod_def valid_dependency_def)

lemma ts_block_simps:
  "snd (ts_block l f p) = [] \<longleftrightarrow> (\<forall>x. l = Some x \<longrightarrow> f x p = [])"
  "fst (ts_block l f p) = of_bool (l \<noteq> None)"
  by (auto simp: ts_block_def split: option.splits)

lemma validate_load_Nil:
  "validateQPSLoad l1 q = [] \<longleftrightarrow> qps_ok (ql_QPS l1)"
  "validateRandomizedLoad l2 q = [] \<longleftrightarrow> qps_ok (rl_AverageQPS l2)"
  "validateSteppedLoad l3 q = [] \<longleftrightarrow> 0 < sl_BurstSize l3"
  "validateTimeLimitedLoad l4 q = [] \<longleftrightarrow> 0 < tl_TimeLimit l4"
  "validateRandomizedTimeLimitedLoad l5 q = [] \<longleftrightarrow> 0 < rtl_TimeLimit l5"
  "validateParallelismTimeLimitedLoad l6 q = [] \<longleftrightarrow> 0 < pl_ParallelismLimit l6"
  "validateGlobalQPSLoad l7 q = [] \<longleftrightarrow> qps_ok (gl_QPS l7) \<and> 0 < gl_Burst l7"
  "validatePoissonLoad l8 q = [] \<longleftrightarrow> qps_ok (po_ExpectedActionsPerSecond l8)"
  by (auto simp: qps_ok_def validateQPSLoad_def validateRandomizedLoad_def validateSteppedLoad_def
      validateTimeLimitedLoad_def validateRandomizedTimeLimitedLoad_def
      validateParallelismTimeLimitedLoad_def validateGlobalQPSLoad_def validatePoissonLoad_def)

lemma validateTuningSet_Nil: "validateTuningSet t q = [] \<longleftrightarrow> valid_tuningset t"
proof -
  have "validateTuningSet t q = [] \<longleftrightarrow> (\<forall>l. tun_QPSLoad t = Some l \<longrightarrow> qps_ok (ql_QPS l))
     \<and> (\<forall>l. tun_RandomizedLoad t = Some l \<longrightarrow> qps_ok (rl_AverageQPS l))
     \<and> (\<forall>l. tun_SteppedLoad t = Some l \<longrightarrow> 0 < sl_BurstSize l)
     \<and> (\<forall>l. tun_TimeLimitedLoad t = Some l \<longrightarrow> 0 < tl_TimeLimit l)
     \<and> (\<forall>l. tun_RandomizedTimeLimitedLoad t = Some l \<longrightarrow> 0 < rtl_TimeLimit l)
     \<and> (\<forall>l. tun_ParallelismLimitedLoad t = Some l \<longrightarrow> 0 < pl_ParallelismLimit l)
     \<and> (\<forall>l. tun_GlobalQPSLoad t = Some l \<longrightarrow> qps_ok (gl_QPS l) \<and> 0 < gl_Burst l)
     \<and> (\<forall>l. tun_PoissonLoad t = Some l \<longrightarrow> qps_ok (po_ExpectedActionsPerSecond l))
     \<and> load_count t = 1"
    unfolding validateTuningSet_def Let_def append_is_Nil_conv concat.simps list.map
      sum_list.Cons sum_list.Nil ts_block_simps validate_load_Nil load_count_def if_singleton_Nil not_not
    by (simp only: add.assoc add_0_right simp_thms conj_assoc)
  then show ?thesis unfolding valid_tuningset_def by blast
qed

text \<open>The part of \<open>valid_phase\<close> that \<open>validatePhase\<close> checks: all but the tuning set.\<close>

definition phase_ok :: "validation_env \<Rightarrow> string \<Rightarrow> Phase \<Rightarrow> bool" where
  "phase_ok env dir p \<longleftrightarrow> \<not> (ph_NamespaceList p \<noteq> None \<and> ph_NamespaceRange p \<noteq> None)
     \<and> (\<forall>nr. ph_NamespaceRange p = Some nr \<longrightarrow> 0 \<le> nr_Min nr \<and> nr_Min nr \<le> nr_Max nr)
     \<and> 0 \<le> ph_ReplicasPerNamespace p
     \<and> (\<forall>ob \<in> set (ph_ObjectBundle p). valid_object env dir ob)"

lemma valid_phase_split: "valid_phase env dir tss p \<longleftrightarrow>
    phase_ok env dir p \<and> (ph_TuningSet p = [] \<or> ph_TuningSet p \<in> tun_Name ` set tss)"
  by (auto simp: valid_phase_def phase_ok_def)

lemma validatePhase_Nil: "validatePhase env v p q = [] \<longleftrightarrow> phase_ok env (cv_configDir v) p"
  by (auto simp: phase_ok_def validatePhase_def validateNamespaceRange_def
      range_errs_Nil_all [OF validateObject_Nil] split: option.splits)

lemma validateTuningSetInPhase_Nil: "validateTuningSetInPhase tss s q = [] \<longleftrightarrow>
    (\<forall>p \<in> set (st_Phases s). ph_TuningSet p = [] \<or> ph_TuningSet p \<in> tun_Name ` set tss)"
  unfolding validateTuningSetInPhase_def
  by (rule range_errs_Nil_all) (auto simp: tuningSet_found_iff)

lemma validateStep_Nil: "validateStep env v s q = [] \<longleftrightarrow>
    (st_Phases s = [] \<longleftrightarrow> st_Measurements s \<noteq> [])
     \<and> (\<forall>p \<in> set (st_Phases s). phase_ok env (cv_configDir v) p)
     \<and> (\<forall>m \<in> set (st_Measurements s). valid_measurement env m)"
  unfolding validateStep_def Let_def append_is_Nil_conv
    range_errs_Nil_all [OF validateMeasurement_Nil] range_errs_Nil_all [OF validatePhase_Nil]
  by (cases "st_Phases s"; cases "st_Measurements s") simp_all

lemma steps_Nil:
  "range_errs (validateStep env v) r 0 ss = [] \<and>
   range_errs (validateTuningSetInPhase tss) r' 0 ss = [] \<longleftrightarrow>
   (\<forall>s \<in> set ss. valid_step env (cv_configDir v) tss s)"
  by (auto simp: range_errs_Nil_all [OF validateStep_Nil]
      range_errs_Nil_all [OF validateTuningSetInPhase_Nil] valid_step_def valid_phase_split)

lemma toErrorList_errors: "errors (toErrorList asError es) = map asError es"
proof -
  have "errors (foldl (\<lambda>l e. ErrorList_Append l [asError e]) a es) = errors a @ map asError es" for a
    by (induction es arbitrary: a) simp_all
  then show ?thesis by (simp add: toErrorList_def)
qed

lemma validator_accepts_iff:
  "Validate asError env (NewConfigValidator dir c) = None \<longleftrightarrow> valid_config env dir c"
  by (simp add: Validate_def Let_def NewConfigValidator_def valid_config_def validateNamespace_def
      handleTuningSetInPhase_def range_errs_Nil_all [OF validateDependency_Nil]
      range_errs_Nil_all [OF validateTuningSet_Nil] not_less not_le
      steps_Nil [of env "\<lparr>cv_configDir = dir, cv_config = c\<rparr>", simplified])

text \<open>
  C12. \<open>Validate\<close> returns nil exactly for the configurations that satisfy
  the declarative specification: non-negative namespace counts, registered dependencies and
  measurements, each tuning set of exactly one positive load, every step either phases or
  measurements but not both, existing object templates, ordered namespace ranges, and no phase
  that names an undeclared tuning set.
\<close>

theorem Validate_None_iff:
  "Validate asError env (NewConfigValidator dir c) = None \<longleftrightarrow> valid_config env dir c"
  by (rule validator_accepts_iff)

end
