(* ===== verification/Tuning_Sets.thy ===== *)
theory Tuning_Sets
  imports Validation
begin

text \<open>
  Package \<open>pkg/tuningset\<close>: the tuning sets that pace the actions of a phase, and the factory
  that builds them from the configuration. \<open>Execute(actions)\<close> of a tuning set is the list of
  events of its loop (\<open>tev\<close>): starting an action in a goroutine, sleeping, and waiting for all
  goroutines. Random draws, the rate limiter's answers and \<open>math.Log\<close> are the fields of
  \<open>tuning_env\<close>; \<open>workqueue.ParallelizeUntil\<close>, which runs every piece of work, is the event
  \<open>Parallelize\<close>. A panic (a remainder by a zero burst size) is \<open>None\<close>.

  The locale \<open>tuning_set\<close> is the contract of the interface \<open>TuningSet\<close>: every action is
  handed to a goroutine exactly once, in the order of the list. Each implementation interprets it.
  In which order the actions then start is \<open>starts_in\<close>: an action that first sleeps may start
  after any later one, and the pieces of a worker pool start in any order.
\<close>

datatype 'a tev =
    Start 'a
  | StartAfter duration 'a
  | Sleep duration
  | SleepUntil time
  | Parallelize int "'a list"
  | SkipAction go_error
  | Join

text \<open>The actions in the order in which they are handed to goroutines.\<close>

fun started :: "'a tev list \<Rightarrow> 'a list" where
  "started [] = []"
| "started (Start a # es) = a # started es"
| "started (StartAfter d a # es) = a # started es"
| "started (Parallelize n as # es) = as @ started es"
| "started (_ # es) = started es"

text \<open>
  The orders in which the actions may start: one launched by the loop itself starts before
  everything the loop does later, one that first sleeps starts at any later point, and the pieces of
  a worker pool start in any order, all of them before the pool is left.
\<close>

inductive starts_in :: "'a tev list \<Rightarrow> 'a list \<Rightarrow> bool" where
  starts_nil: "starts_in [] []"
| starts_now: "starts_in es xs \<Longrightarrow> starts_in (Start a # es) (a # xs)"
| starts_later: "starts_in es (xs @ ys) \<Longrightarrow> starts_in (StartAfter d a # es) (xs @ a # ys)"
| starts_pool: "mset bs = mset as \<Longrightarrow> starts_in es xs \<Longrightarrow> starts_in (Parallelize n as # es) (bs @ xs)"
| starts_sleep: "starts_in es xs \<Longrightarrow> starts_in (Sleep d # es) xs"
| starts_until: "starts_in es xs \<Longrightarrow> starts_in (SleepUntil t # es) xs"
| starts_skip: "starts_in es xs \<Longrightarrow> starts_in (SkipAction e # es) xs"
| starts_join: "starts_in es xs \<Longrightarrow> starts_in (Join # es) xs"

inductive_simps starts_in_simps:
  "starts_in [] xs"
  "starts_in (Start a # es) xs"
  "starts_in (StartAfter d a # es) xs"
  "starts_in (Parallelize n as # es) xs"
  "starts_in (Sleep d # es) xs"
  "starts_in (SleepUntil t # es) xs"
  "starts_in (SkipAction e # es) xs"
  "starts_in (Join # es) xs"

fun slept :: "'a tev list \<Rightarrow> duration" where
  "slept [] = 0"
| "slept (Sleep d # es) = d + slept es"
| "slept (_ # es) = slept es"

record limiter =
  lim_id :: nat
  lim_QPS :: float64
  lim_Burst :: int

record tuning_env =
  rand_Float64 :: "nat \<Rightarrow> float64"
  rand_Int63n :: "nat \<Rightarrow> int \<Rightarrow> int"
  math_Log :: "float64 \<Rightarrow> float64"
  time_Now :: time
  limiter_Wait :: "limiter \<Rightarrow> nat \<Rightarrow> go_error option"

subsection \<open>\<open>qps_load.go\<close>, \<open>randomized_load.go\<close>\<close>

fun qps_loop :: "duration \<Rightarrow> 'a list \<Rightarrow> 'a tev list" where
  "qps_loop d [] = [Join]"
| "qps_loop d (a # as) = Start a # Sleep d # qps_loop d as"

definition qpsLoad_Execute :: "QPSLoad \<Rightarrow> 'a list \<Rightarrow> 'a tev list" where
  "qpsLoad_Execute ql actions =
     (let sleepDuration = f64_to_int (f64_div (f64_of_int second) (ql_QPS ql))
      in qps_loop sleepDuration actions)"

definition sleepDuration :: "float64 \<Rightarrow> float64 \<Rightarrow> duration" where
  "sleepDuration r avgQPS =
     (let randomFactor = f64_mul (Fin 2) r
      in f64_to_int (f64_div (f64_mul randomFactor (f64_of_int second)) avgQPS))"

fun randomized_loop :: "tuning_env \<Rightarrow> RandomizedLoad \<Rightarrow> nat \<Rightarrow> 'a list \<Rightarrow> 'a tev list" where
  "randomized_loop env rl i [] = [Join]"
| "randomized_loop env rl i (a # as) =
     Start a # Sleep (sleepDuration (rand_Float64 env i) (rl_AverageQPS rl))
       # randomized_loop env rl (Suc i) as"

definition randomizedLoad_Execute :: "tuning_env \<Rightarrow> RandomizedLoad \<Rightarrow> 'a list \<Rightarrow> 'a tev list" where
  "randomizedLoad_Execute env rl actions = randomized_loop env rl 0 actions"

subsection \<open>\<open>stepped_load.go\<close>, \<open>time_limited.go\<close>\<close>

fun stepped_loop :: "SteppedLoad \<Rightarrow> int \<Rightarrow> 'a list \<Rightarrow> 'a tev list" where
  "stepped_loop sl i [] = [Join]"
| "stepped_loop sl i (a # as) =
     Start a # (if go_mod (i + 1) (sl_BurstSize sl) = 0 then [Sleep (sl_StepDelay sl)] else [])
       @ stepped_loop sl (i + 1) as"

definition steppedLoad_Execute :: "SteppedLoad \<Rightarrow> 'a list \<Rightarrow> 'a tev list option" where
  "steppedLoad_Execute sl actions =
     (if sl_BurstSize sl = 0 \<and> actions \<noteq> [] then None else Some (stepped_loop sl 0 actions))"

definition timeLimitedLoad_Execute :: "TimeLimitedLoad \<Rightarrow> 'a list \<Rightarrow> 'a tev list" where
  "timeLimitedLoad_Execute t actions =
     (if length actions = 0 then []
      else qps_loop (go_div (tl_TimeLimit t) (int (length actions))) actions)"

subsection \<open>\<open>randomized_time_limited.go\<close>, \<open>parallelism_limited.go\<close>\<close>

fun randomized_time_loop ::
    "tuning_env \<Rightarrow> RandomizedTimeLimitedLoad \<Rightarrow> nat \<Rightarrow> 'a list \<Rightarrow> 'a tev list" where
  "randomized_time_loop env r i [] = [Join]"
| "randomized_time_loop env r i (a # as) =
     StartAfter (if rtl_TimeLimit r > 0 then rand_Int63n env i (rtl_TimeLimit r) else 0) a
       # randomized_time_loop env r (Suc i) as"

definition randomizedTimeLimitedLoad_Execute ::
    "tuning_env \<Rightarrow> RandomizedTimeLimitedLoad \<Rightarrow> 'a list \<Rightarrow> 'a tev list" where
  "randomizedTimeLimitedLoad_Execute env r actions = randomized_time_loop env r 0 actions"

definition parallelismLimitedLoad_Execute :: "ParallelismLimitedLoad \<Rightarrow> 'a list \<Rightarrow> 'a tev list" where
  "parallelismLimitedLoad_Execute p actions = [Parallelize (pl_ParallelismLimit p) actions]"

subsection \<open>\<open>global_qps_load.go\<close>, \<open>poisson_load.go\<close>\<close>

fun global_loop :: "tuning_env \<Rightarrow> limiter \<Rightarrow> nat \<Rightarrow> 'a list \<Rightarrow> 'a tev list" where
  "global_loop env lm i [] = [Join]"
| "global_loop env lm i (a # as) = (case limiter_Wait env lm i of
      Some err \<Rightarrow> SkipAction err # global_loop env lm (Suc i) as
    | None \<Rightarrow> Start a # global_loop env lm (Suc i) as)"

definition globalQPSLoad_Execute :: "tuning_env \<Rightarrow> limiter \<Rightarrow> 'a list \<Rightarrow> 'a tev list" where
  "globalQPSLoad_Execute env lm actions = global_loop env lm 0 actions"

definition interArrivalTime :: "tuning_env \<Rightarrow> nat \<Rightarrow> float64 \<Rightarrow> duration" where
  "interArrivalTime env i MeanRate =
     (case rand_Float64 env i of
        Fin p \<Rightarrow> f64_to_int (f64_mul (f64_of_int second)
                   (f64_div (f64_neg (math_Log env (f64_round (1 - p)))) MeanRate))
      | _ \<Rightarrow> f64_to_int NaN)"

fun poisson_loop :: "tuning_env \<Rightarrow> PoissonLoad \<Rightarrow> nat \<Rightarrow> time \<Rightarrow> 'a list \<Rightarrow> 'a tev list" where
  "poisson_loop env rl i next [] = [Join]"
| "poisson_loop env rl i next (a # as) =
     SleepUntil next # Start a
       # poisson_loop env rl (Suc i)
           (next + interArrivalTime env i (po_ExpectedActionsPerSecond rl)) as"

definition poissonLoad_Execute :: "tuning_env \<Rightarrow> PoissonLoad \<Rightarrow> 'a list \<Rightarrow> 'a tev list" where
  "poissonLoad_Execute env rl actions = poisson_loop env rl 0 (time_Now env) actions"

subsection \<open>\<open>simple_tuning_set_factory.go\<close> and the global load factory\<close>

datatype tuning_set =
    TQPS QPSLoad
  | TRandomized RandomizedLoad
  | TStepped SteppedLoad
  | TTimeLimited TimeLimitedLoad
  | TRandomizedTimeLimited RandomizedTimeLimitedLoad
  | TParallelismLimited ParallelismLimitedLoad
  | TGlobalQPS limiter
  | TPoisson PoissonLoad

fun TuningSet_Execute :: "tuning_env \<Rightarrow> tuning_set \<Rightarrow> 'a list \<Rightarrow> 'a tev list option" where
  "TuningSet_Execute env (TQPS l) as = Some (qpsLoad_Execute l as)"
| "TuningSet_Execute env (TRandomized l) as = Some (randomizedLoad_Execute env l as)"
| "TuningSet_Execute env (TStepped l) as = steppedLoad_Execute l as"
| "TuningSet_Execute env (TTimeLimited l) as = Some (timeLimitedLoad_Execute l as)"
| "TuningSet_Execute env (TRandomizedTimeLimited l) as = Some (randomizedTimeLimitedLoad_Execute env l as)"
| "TuningSet_Execute env (TParallelismLimited l) as = Some (parallelismLimitedLoad_Execute l as)"
| "TuningSet_Execute env (TGlobalQPS l) as = Some (globalQPSLoad_Execute env l as)"
| "TuningSet_Execute env (TPoisson l) as = Some (poissonLoad_Execute env l as)"

record globalQPSLoadFactory =
  gf_existing :: "(string, limiter) go_map"
  gf_allocated :: nat

definition newGlobalQPSLoadFactory :: globalQPSLoadFactory where
  "newGlobalQPSLoadFactory = \<lparr>gf_existing = [], gf_allocated = 0\<rparr>"

text \<open>Allocating a limiter gives it a fresh identity.\<close>

definition newGlobalQPSLoad :: "globalQPSLoadFactory \<Rightarrow> GlobalQPSLoad \<Rightarrow> limiter" where
  "newGlobalQPSLoad f params =
     \<lparr>lim_id = gf_allocated f, lim_QPS = gl_QPS params, lim_Burst = gl_Burst params\<rparr>"

definition GetOrCreate ::
    "globalQPSLoadFactory \<Rightarrow> string \<Rightarrow> GlobalQPSLoad \<Rightarrow> globalQPSLoadFactory \<times> limiter" where
  "GetOrCreate f name params = (case map_of (gf_existing f) name of
      Some qps \<Rightarrow> (f, qps)
    | None \<Rightarrow> let qps = newGlobalQPSLoad f params
        in (\<lparr>gf_existing = AList.update name qps (gf_existing f),
             gf_allocated = Suc (gf_allocated f)\<rparr>, qps))"

record simpleFactory =
  tuningSetMap :: "(string, TuningSet) go_map"
  globalFactory :: globalQPSLoadFactory

definition NewFactory :: simpleFactory where
  "NewFactory = \<lparr>tuningSetMap = [], globalFactory = newGlobalQPSLoadFactory\<rparr>"

fun init_loop :: "TuningSet list \<Rightarrow> (string, TuningSet) go_map \<Rightarrow> (string, TuningSet) go_map" where
  "init_loop [] m = m"
| "init_loop (t # ts) m = init_loop ts (AList.update (tun_Name t) t m)"

definition Factory_Init :: "simpleFactory \<Rightarrow> TuningSet list \<Rightarrow> simpleFactory" where
  "Factory_Init tf tuningSets = tf\<lparr>tuningSetMap := init_loop tuningSets []\<rparr>"

text \<open>
  The text \<open>%v\<close> gives for a tuning set none of whose loads is set: \<open>String\<close> of \<open>Duration\<close>
  has a pointer receiver, so the field \<open>InitialDelay\<close> prints as a number.
\<close>

definition fmt_empty_tuning_set :: "TuningSet \<Rightarrow> string" where
  "fmt_empty_tuning_set t = ''&{'' @ tun_Name t @ '' '' @ itoa (tun_InitialDelay t)
     @ concat (replicate 8 '' <nil>'') @ ''}''"

definition CreateTuningSet :: "simpleFactory \<Rightarrow> string \<Rightarrow> simpleFactory \<times> tuning_set result" where
  "CreateTuningSet tf name = (case map_of (tuningSetMap tf) name of
      None \<Rightarrow> (tf, Inl (ErrText (''tuningset '' @ name @ '' not found'')))
    | Some t \<Rightarrow>
        (case tun_QPSLoad t of Some l \<Rightarrow> (tf, Inr (TQPS l)) | None \<Rightarrow>
        (case tun_RandomizedLoad t of Some l \<Rightarrow> (tf, Inr (TRandomized l)) | None \<Rightarrow>
        (case tun_SteppedLoad t of Some l \<Rightarrow> (tf, Inr (TStepped l)) | None \<Rightarrow>
        (case tun_TimeLimitedLoad t of Some l \<Rightarrow> (tf, Inr (TTimeLimited l)) | None \<Rightarrow>
        (case tun_RandomizedTimeLimitedLoad t of Some l \<Rightarrow> (tf, Inr (TRandomizedTimeLimited l)) | None \<Rightarrow>
        (case tun_ParallelismLimitedLoad t of Some l \<Rightarrow> (tf, Inr (TParallelismLimited l)) | None \<Rightarrow>
        (case tun_GlobalQPSLoad t of
           Some l \<Rightarrow> (let (g, lm) = GetOrCreate (globalFactory tf) name l
                      in (tf\<lparr>globalFactory := g\<rparr>, Inr (TGlobalQPS lm))) | None \<Rightarrow>
        (case tun_PoissonLoad t of Some l \<Rightarrow> (tf, Inr (TPoisson l))
         | None \<Rightarrow> (tf, Inl (ErrText (''incorrect tuning set: '' @ fmt_empty_tuning_set t))))))))))))"

subsection \<open>The contract of a tuning set\<close>

lemma started_append [simp]: "started (xs @ ys) = started xs @ started ys"
  by (induction xs rule: started.induct) auto

lemma slept_append [simp]: "slept (xs @ ys) = slept xs + slept ys"
  by (induction xs rule: slept.induct) auto

locale tuning_set =
  fixes Execute :: "'a list \<Rightarrow> 'a tev list"
  assumes started_Execute: "started (Execute actions) = actions"
begin

lemma started_set: "set (started (Execute actions)) = set actions"
  by (simp add: started_Execute)

lemma started_count: "count_list (started (Execute actions)) a = count_list actions a"
  by (simp add: started_Execute)

text \<open>A client may split its actions: the started ones are those of the parts, in order.\<close>

lemma started_parts: "started (Execute (as @ bs)) = started (Execute as) @ started (Execute bs)"
  by (simp add: started_Execute)

end

lemma started_qps_loop: "started (qps_loop d as) = as"
  by (induction as) simp_all

lemma started_stepped_loop: "started (stepped_loop sl i as) = as"
  by (induction as arbitrary: i) simp_all

lemma started_randomized_loop: "started (randomized_loop env rl i as) = as"
  by (induction as arbitrary: i) simp_all

lemma started_randomized_time_loop: "started (randomized_time_loop env r i as) = as"
  by (induction as arbitrary: i) simp_all

lemma started_poisson_loop: "started (poisson_loop env rl i t as) = as"
  by (induction as arbitrary: i t) simp_all

text \<open>The global load starts the actions whose wait did not fail.\<close>

lemma started_global_loop:
  "started (global_loop env lm i as) =
     map snd (filter (\<lambda>(j, a). limiter_Wait env lm j = None) (zip [i..<i + length as] as))"
proof (induction as arbitrary: i)
  case (Cons a as)
  have "[i..<i + length (a # as)] = i # [Suc i..<Suc i + length as]"
    by (simp add: upt_conv_Cons del: upt_Suc)
  then show ?case using Cons.IH [of "Suc i"] by (auto split: option.splits)
qed simp

lemma started_global_loop_all:
  "(\<And>j. limiter_Wait env lm j = None) \<Longrightarrow> started (global_loop env lm i as) = as"
  by (induction as arbitrary: i) simp_all

interpretation qps: tuning_set "qpsLoad_Execute ql" for ql
  by unfold_locales (simp add: qpsLoad_Execute_def Let_def started_qps_loop)

interpretation randomized: tuning_set "randomizedLoad_Execute env rl" for env rl
  by unfold_locales (simp add: randomizedLoad_Execute_def started_randomized_loop)

interpretation stepped: tuning_set "stepped_loop sl 0" for sl
  by unfold_locales (simp add: started_stepped_loop)

interpretation timeLimited: tuning_set "timeLimitedLoad_Execute t" for t
  by unfold_locales (simp add: timeLimitedLoad_Execute_def started_qps_loop)

interpretation randomizedTimeLimited: tuning_set "randomizedTimeLimitedLoad_Execute env r" for env r
  by unfold_locales (simp add: randomizedTimeLimitedLoad_Execute_def started_randomized_time_loop)

interpretation parallelismLimited: tuning_set "parallelismLimitedLoad_Execute p" for p
  by unfold_locales (simp add: parallelismLimitedLoad_Execute_def)

interpretation poisson: tuning_set "poissonLoad_Execute env rl" for env rl
  by unfold_locales (simp add: poissonLoad_Execute_def started_poisson_loop)

subsection \<open>The factory\<close>

lemma find_append:
  "find P (xs @ ys) = (case find P xs of Some x \<Rightarrow> Some x | None \<Rightarrow> find P ys)"
  by (induction xs) simp_all

lemma init_loop_map_of:
  "map_of (init_loop ts m) n = (case find (\<lambda>t. tun_Name t = n) (rev ts) of
      Some t \<Rightarrow> Some t | None \<Rightarrow> map_of m n)"
proof (induction ts arbitrary: m)
  case (Cons t ts)
  then show ?case
    by (simp add: find_append split: option.splits)
qed simp

lemma CreateTuningSet_known:
  assumes "map_of (tuningSetMap tf) n = Some t" and "load_count t = 1"
  shows "\<exists>tf' ts. CreateTuningSet tf n = (tf', Inr ts)"
proof -
  have "tun_QPSLoad t \<noteq> None \<or> tun_RandomizedLoad t \<noteq> None \<or> tun_SteppedLoad t \<noteq> None
      \<or> tun_TimeLimitedLoad t \<noteq> None \<or> tun_RandomizedTimeLimitedLoad t \<noteq> None
      \<or> tun_ParallelismLimitedLoad t \<noteq> None \<or> tun_GlobalQPSLoad t \<noteq> None
      \<or> tun_PoissonLoad t \<noteq> None"
    using assms(2) by (rule contrapos_pp) (simp add: load_count_def)
  then show ?thesis
    using assms(1) by (auto simp: CreateTuningSet_def split: option.splits prod.splits)
qed

subsection \<open>Time slept\<close>

lemma slept_qps_loop: "slept (qps_loop d as) = int (length as) * d"
  by (induction as) (simp_all add: algebra_simps)

lemma div_succ_step:
  assumes "0 < (b::int)"
  shows "(i + 1) div b = i div b + (if (i + 1) mod b = 0 then 1 else 0)"
proof (cases "(i + 1) mod b = 0")
  case True
  then obtain k where k: "i + 1 = b * k" by (meson mod_0_imp_dvd dvdE)
  have "i div b = k - 1"
    by (rule int_div_pos_eq [where r = "b - 1"]) (use k assms in \<open>auto simp: algebra_simps\<close>)
  then show ?thesis using k assms by simp
next
  case False
  let ?q = "(i + 1) div b" and ?r = "(i + 1) mod b"
  have r: "0 < ?r" "?r < b"
    using False assms pos_mod_sign [of b "i + 1"] pos_mod_bound [of b "i + 1"] by linarith+
  have "i = b * ?q + (?r - 1)" using mult_div_mod_eq [of b "i + 1"] by linarith
  then have "i div b = ?q" by (rule int_div_pos_eq) (use r in simp_all)
  then show ?thesis using False by simp
qed

lemma slept_stepped_loop:
  assumes "0 < sl_BurstSize sl" and "0 \<le> i"
  shows "slept (stepped_loop sl i as) =
           ((i + int (length as)) div sl_BurstSize sl - i div sl_BurstSize sl) * sl_StepDelay sl"
  using assms(2)
proof (induction as arbitrary: i)
  case (Cons a as)
  have "slept (stepped_loop sl (i + 1) as) =
      ((i + 1 + int (length as)) div sl_BurstSize sl - (i + 1) div sl_BurstSize sl) * sl_StepDelay sl"
    using Cons.IH [of "i + 1"] Cons.prems by simp
  then show ?case
    using div_succ_step [OF assms(1), of i] Cons.prems assms(1)
    by (cases "(i + 1) mod sl_BurstSize sl = 0") (simp_all add: algebra_simps)
qed simp

lemma slept_timeLimited:
  assumes "0 < tl_TimeLimit t" and "as \<noteq> []"
  shows "slept (timeLimitedLoad_Execute t as) = tl_TimeLimit t - tl_TimeLimit t mod int (length as)"
  using assms by (simp add: timeLimitedLoad_Execute_def slept_qps_loop minus_mod_eq_mult_div)

subsection \<open>Sharing of the global limiters\<close>

text \<open>Identities are never reused: every stored limiter was allocated before the next one.\<close>

definition global_inv :: "globalQPSLoadFactory \<Rightarrow> bool" where
  "global_inv f \<longleftrightarrow> (\<forall>n l. map_of (gf_existing f) n = Some l \<longrightarrow> lim_id l < gf_allocated f)
     \<and> (\<forall>n m l k. map_of (gf_existing f) n = Some l \<longrightarrow> map_of (gf_existing f) m = Some k
          \<longrightarrow> lim_id l = lim_id k \<longrightarrow> n = m)"

lemma global_inv_new: "global_inv newGlobalQPSLoadFactory"
  by (simp add: global_inv_def newGlobalQPSLoadFactory_def)

lemma global_inv_GetOrCreate:
  "global_inv f \<Longrightarrow> global_inv (fst (GetOrCreate f n params))"
  unfolding global_inv_def GetOrCreate_def newGlobalQPSLoad_def
  by (auto simp: Let_def update_conv' split: option.splits if_splits) (fastforce dest: less_SucI)+

lemma GetOrCreate_stored:
  "map_of (gf_existing (fst (GetOrCreate f n params))) n = Some (snd (GetOrCreate f n params))"
  by (simp add: GetOrCreate_def Let_def split: option.splits)

lemma GetOrCreate_keeps:
  "map_of (gf_existing f) m = Some l \<Longrightarrow> map_of (gf_existing (fst (GetOrCreate f n params))) m = Some l"
  by (auto simp: GetOrCreate_def Let_def update_conv' split: option.splits)

subsection \<open>Validated tuning sets\<close>

lemma init_loop_in_list:
  "t \<in> set ts \<Longrightarrow> \<exists>u \<in> set ts. map_of (init_loop ts m) (tun_Name t) = Some u"
proof -
  assume "t \<in> set ts"
  then have "find (\<lambda>u. tun_Name u = tun_Name t) (rev ts) \<noteq> None"
    by (auto simp: find_None_iff)
  then obtain u where u: "find (\<lambda>u. tun_Name u = tun_Name t) (rev ts) = Some u" by auto
  then have "u \<in> set ts" by (metis find_Some_iff nth_mem set_rev)
  then show ?thesis using u by (auto simp: init_loop_map_of)
qed

text \<open>What the factory builds from a valid entry, on a factory that has no limiter yet.\<close>

definition runnable :: "tuning_set \<Rightarrow> bool" where
  "runnable ts \<longleftrightarrow> (\<forall>l. ts = TStepped l \<longrightarrow> 0 < sl_BurstSize l)
     \<and> (\<forall>l. ts = TGlobalQPS l \<longrightarrow> 0 < lim_Burst l)"

lemma CreateTuningSet_runnable:
  assumes "map_of (tuningSetMap tf) n = Some t" and "valid_tuningset t"
    and "gf_existing (globalFactory tf) = []"
    and "CreateTuningSet tf n = (tf', Inr ts)"
  shows "runnable ts"
  using assms
  by (auto simp: CreateTuningSet_def valid_tuningset_def runnable_def GetOrCreate_def
      newGlobalQPSLoad_def Let_def split: option.splits prod.splits)

lemma TuningSet_Execute_runnable:
  assumes "runnable ts" and "\<And>l j. 0 < lim_Burst l \<Longrightarrow> limiter_Wait env l j = None"
  shows "\<exists>evs. TuningSet_Execute env ts as = Some evs \<and> started evs = as"
  using assms
  by (cases ts)
    (auto simp: runnable_def steppedLoad_Execute_def globalQPSLoad_Execute_def
      started_global_loop_all qps.started_Execute randomized.started_Execute
      stepped.started_Execute timeLimited.started_Execute randomizedTimeLimited.started_Execute
      parallelismLimited.started_Execute poisson.started_Execute)

subsection \<open>The orders in which the actions start\<close>

text \<open>A loop that neither delays an action nor uses a worker pool fixes the order.\<close>

fun in_order :: "'a tev \<Rightarrow> bool" where
  "in_order (StartAfter _ _) = False"
| "in_order (Parallelize _ _) = False"
| "in_order _ = True"

lemma starts_in_mset: "starts_in evs xs \<Longrightarrow> mset xs = mset (started evs)"
  by (induction rule: starts_in.induct) simp_all

lemma starts_in_order: "list_all in_order evs \<Longrightarrow> starts_in evs xs \<longleftrightarrow> xs = started evs"
proof (induction evs arbitrary: xs)
  case (Cons e evs)
  then show ?case by (cases e) (auto simp: starts_in_simps)
qed (simp add: starts_in_simps)

lemma starts_in_randomized_time_loop: "starts_in (randomized_time_loop env r i as) xs \<longleftrightarrow> mset xs = mset as"
proof (induction as arbitrary: i xs)
  case (Cons a as)
  show ?case
  proof
    assume "mset xs = mset (a # as)"
    moreover from this obtain ys zs where "xs = ys @ a # zs" by (metis list.set_intros(1) set_mset_mset split_list)
    ultimately show "starts_in (randomized_time_loop env r i (a # as)) xs" using Cons.IH by (auto simp: starts_in_simps)
  qed (auto simp: starts_in_simps Cons.IH)
qed (simp add: starts_in_simps)

lemma in_order_loops [simp]:
  "list_all in_order (qps_loop d as)"
  "list_all in_order (stepped_loop sl k as)"
  "list_all in_order (randomized_loop env rl i as)"
  "list_all in_order (global_loop env lm i as)"
  "list_all in_order (poisson_loop env pl i t as)"
  by (induction as arbitrary: k i t) (simp_all split: option.split)

text \<open>The tuning sets whose loop launches the actions itself, one after the other.\<close>

fun sequential :: "tuning_set \<Rightarrow> bool" where
  "sequential (TRandomizedTimeLimited _) = False"
| "sequential (TParallelismLimited _) = False"
| "sequential _ = True"

lemma sequential_in_order:
  "sequential ts \<Longrightarrow> TuningSet_Execute env ts as = Some evs \<Longrightarrow> list_all in_order evs"
  by (cases ts)
    (auto simp: qpsLoad_Execute_def randomizedLoad_Execute_def steppedLoad_Execute_def timeLimitedLoad_Execute_def
      globalQPSLoad_Execute_def poissonLoad_Execute_def Let_def split: if_splits)

lemma Execute_start_orders:
  assumes "TuningSet_Execute env ts as = Some evs" and "started evs = as"
  shows "starts_in evs order \<longleftrightarrow> (if sequential ts then order = as else mset order = mset as)"
proof (cases "sequential ts")
  case True
  then show ?thesis using starts_in_order [OF sequential_in_order [OF True assms(1)]] assms(2) by simp
next
  case False
  then show ?thesis using assms(1)
    by (cases ts)
      (auto simp: randomizedTimeLimitedLoad_Execute_def parallelismLimitedLoad_Execute_def
        starts_in_randomized_time_loop starts_in_simps)
qed


definition sample_tuning_set :: TuningSet where
  "sample_tuning_set = \<lparr>tun_Name = ''Uniform'', tun_InitialDelay = 0, tun_QPSLoad = None,
     tun_RandomizedLoad = None, tun_SteppedLoad = Some \<lparr>sl_BurstSize = 2, sl_StepDelay = 5\<rparr>,
     tun_TimeLimitedLoad = None, tun_RandomizedTimeLimitedLoad = None,
     tun_ParallelismLimitedLoad = None, tun_GlobalQPSLoad = None, tun_PoissonLoad = None\<rparr>"

definition sample_config :: Config where
  "sample_config = \<lparr>cf_Name = ''load'', cf_Dependencies = [], cf_AutomanagedNamespaces = 1,
     cf_Namespace = \<lparr>ns_Number = 1, ns_Prefix = ''test'', ns_DeleteStaleNamespaces = None,
       ns_DeleteAutomanagedNamespaces = None, ns_EnableExistingNamespaces = None,
       ns_DeleteNamespaceTimeout = None\<rparr>,
     cf_Steps = [\<lparr>st_Phases = [], st_Measurements = [\<lparr>ms_Method = ''Timer'', ms_Params = [],
       ms_Identifier = ''t'', ms_Instances = []\<rparr>],
       st_Module = \<lparr>mr_Path = [], mr_Params = None\<rparr>, st_Name = ''start''\<rparr>],
     cf_TuningSets = [sample_tuning_set],
     cf_ChaosMonkey = \<lparr>cm_NodeFailure = None, cm_ExcludedNodes = None\<rparr>\<rparr>"

definition sample_validation_env :: validation_env where
  "sample_validation_env = \<lparr>RegisteredMeasurements = (\<lambda>m. m = ''Timer''),
     RegisteredDependencies = (\<lambda>_. False), cwd = ''/'', stat_IsNotExist = (\<lambda>_. True),
     IsDNS1123Subdomain = (\<lambda>_. [])\<rparr>"

definition sample_tuning_env :: tuning_env where
  "sample_tuning_env = \<lparr>rand_Float64 = (\<lambda>_. Fin 0), rand_Int63n = (\<lambda>_ _. 0), math_Log = (\<lambda>x. x),
     time_Now = 0, limiter_Wait = (\<lambda>l _. if 0 < lim_Burst l then None else Some (ErrText ''burst''))\<rparr>"

lemma sample_config_accepted:
  "Validate asError sample_validation_env (NewConfigValidator ''dir'' sample_config) = None"
  by (simp add: validator_accepts_iff valid_config_def valid_tuningset_def load_count_def
      valid_step_def valid_measurement_def sample_config_def sample_tuning_set_def
      sample_validation_env_def)


text \<open>
  C25. A time-limited load of \<open>n\<close> actions sleeps for the time limit rounded down to a multiple of
  \<open>n\<close>: never longer than the limit, and short of it by less than \<open>n\<close> nanoseconds. A stepped load
  sleeps its delay once per full burst.
\<close>

theorem paced_loads_sleep:
  assumes "actions \<noteq> []" and "0 < tl_TimeLimit t" and "0 < sl_BurstSize sl"
  shows "slept (timeLimitedLoad_Execute t actions) \<le> tl_TimeLimit t
    \<and> tl_TimeLimit t - slept (timeLimitedLoad_Execute t actions) < int (length actions)
    \<and> (\<exists>evs. steppedLoad_Execute sl actions = Some evs
         \<and> slept evs = (int (length actions) div sl_BurstSize sl) * sl_StepDelay sl)"
  using assms
  by (simp add: slept_timeLimited steppedLoad_Execute_def slept_stepped_loop)

theorem paced_loads_sleep_witness:
  "slept (timeLimitedLoad_Execute \<lparr>tl_TimeLimit = 10\<rparr> ''abc'') \<le> 10
    \<and> 10 - slept (timeLimitedLoad_Execute \<lparr>tl_TimeLimit = 10\<rparr> ''abc'') < 3
    \<and> (\<exists>evs. steppedLoad_Execute \<lparr>sl_BurstSize = 2, sl_StepDelay = 5\<rparr> ''abc'' = Some evs \<and> slept evs = 5)"
  using paced_loads_sleep [of "''abc''" "\<lparr>tl_TimeLimit = 10\<rparr>" "\<lparr>sl_BurstSize = 2, sl_StepDelay = 5\<rparr>"]
  by simp

text \<open>
  C24. Two requests for a global QPS load under one name get the same limiter, whatever requests
  come between them and whatever parameters they carry, and two different names never share one.
\<close>

theorem global_limiter_shared:
  assumes "global_inv f" and "GetOrCreate f n p = (f1, l)"
    and "f2 = foldl (\<lambda>g (m, q). fst (GetOrCreate g m q)) f1 reqs"
    and "GetOrCreate f2 m q = (f3, k)"
  shows "lim_id l = lim_id k \<longleftrightarrow> n = m"
proof -
  have inv: "global_inv g \<Longrightarrow> global_inv (foldl (\<lambda>g (m, q). fst (GetOrCreate g m q)) g reqs)" for g
    by (induction reqs arbitrary: g) (auto simp: global_inv_GetOrCreate)
  have keep: "map_of (gf_existing g) n = Some l
      \<Longrightarrow> map_of (gf_existing (foldl (\<lambda>g (m, q). fst (GetOrCreate g m q)) g reqs)) n = Some l" for g
    by (induction reqs arbitrary: g) (auto simp: GetOrCreate_keeps)
  have "global_inv f1" "map_of (gf_existing f1) n = Some l"
    using assms(1,2) global_inv_GetOrCreate [of f n p] GetOrCreate_stored [of f n p] by simp_all
  then have "global_inv f2" "map_of (gf_existing f2) n = Some l"
    using inv keep assms(3) by simp_all
  then have "global_inv f3" "map_of (gf_existing f3) n = Some l" "map_of (gf_existing f3) m = Some k"
    using assms(4) global_inv_GetOrCreate [of f2 m q] GetOrCreate_keeps [of f2 n l m q]
      GetOrCreate_stored [of f2 m q] by simp_all
  then show ?thesis unfolding global_inv_def by (metis option.inject)
qed

theorem global_limiter_shared_witness:
  "lim_id (snd (GetOrCreate newGlobalQPSLoadFactory ''a'' \<lparr>gl_QPS = Fin 1, gl_Burst = 1\<rparr>)) =
   lim_id (snd (GetOrCreate (fst (GetOrCreate (fst (GetOrCreate newGlobalQPSLoadFactory ''a''
     \<lparr>gl_QPS = Fin 1, gl_Burst = 1\<rparr>)) ''b'' \<lparr>gl_QPS = Fin 2, gl_Burst = 1\<rparr>)) ''a'' \<lparr>gl_QPS = Fin 3, gl_Burst = 1\<rparr>))"
  using global_limiter_shared [OF global_inv_new prod.collapse [symmetric] refl prod.collapse [symmetric],
      of "''a''" "\<lparr>gl_QPS = Fin 1, gl_Burst = 1\<rparr>" "[(''b'', \<lparr>gl_QPS = Fin 2, gl_Burst = 1\<rparr>)]"
      "''a''" "\<lparr>gl_QPS = Fin 3, gl_Burst = 1\<rparr>"]
  by simp

end
