(* ===== verification/Go_Threads.thy ===== *)
theory Go_Threads
  imports Go_Prelude
begin

text \<open>
  Goroutines of a \<open>wait.Group\<close>. A thread is the part of a function that is still to run, its step
  is the next atomic action on the shared state, and a schedule (a list of thread numbers) says
  which thread moves next. \<open>wait_group\<close> runs a schedule and then lets the threads that are left run
  to their end, as \<open>wg.Wait\<close> demands: every schedule is a complete execution, and every
  interleaving of the steps is given by some schedule. The rank of a thread bounds the number of
  steps it has left; the locale \<open>goroutines\<close> shows that with a rank every thread finishes.
\<close>

fun run_schedule :: "('t \<Rightarrow> 's \<Rightarrow> 't \<times> 's) \<Rightarrow> nat list \<Rightarrow> 't list \<Rightarrow> 's \<Rightarrow> 't list \<times> 's" where
  "run_schedule step [] ths s = (ths, s)"
| "run_schedule step (i # sched) ths s =
     (if i < length ths
      then (let (th, s') = step (ths ! i) s in run_schedule step sched (ths[i := th]) s')
      else run_schedule step sched ths s)"

text \<open>The schedule that lets every thread finish, one after the other.\<close>

definition finishing_schedule :: "('t \<Rightarrow> nat) \<Rightarrow> 't list \<Rightarrow> nat list" where
  "finishing_schedule rank ths = concat (map (\<lambda>i. replicate (rank (ths ! i)) i) [0..<length ths])"

definition wait_group :: "('t \<Rightarrow> 's \<Rightarrow> 't \<times> 's) \<Rightarrow> ('t \<Rightarrow> nat) \<Rightarrow> nat list \<Rightarrow> 't list \<Rightarrow> 's \<Rightarrow> 't list \<times> 's" where
  "wait_group step rank sched ths s =
     (let (ths', s') = run_schedule step sched ths s
      in run_schedule step (finishing_schedule rank ths') ths' s')"

lemma run_schedule_length [simp]: "length (fst (run_schedule step sched ths s)) = length ths"
  by (induction sched arbitrary: ths s) (simp_all add: Let_def split_beta)

lemma run_schedule_append:
  "run_schedule step (xs @ ys) ths s =
     run_schedule step ys (fst (run_schedule step xs ths s)) (snd (run_schedule step xs ths s))"
  by (induction xs arbitrary: ths s) (simp_all add: Let_def split_beta)

lemma wait_group_schedule: "\<exists>sched'. wait_group step rank sched ths s = run_schedule step (sched @ sched') ths s"
  by (rule exI [of _ "finishing_schedule rank (fst (run_schedule step sched ths s))"])
    (simp add: wait_group_def run_schedule_append split_beta)

lemma wait_group_length [simp]: "length (fst (wait_group step rank sched ths s)) = length ths"
  by (simp add: wait_group_def split_beta)

text \<open>An invariant of the single steps is an invariant of every execution.\<close>

lemma run_schedule_invariant:
  assumes "P ths s"
    and "\<And>ths s i. P ths s \<Longrightarrow> i < length ths \<Longrightarrow> P (ths[i := fst (step (ths ! i) s)]) (snd (step (ths ! i) s))"
  shows "P (fst (run_schedule step sched ths s)) (snd (run_schedule step sched ths s))"
  using assms(1) by (induction sched arbitrary: ths s) (simp_all add: Let_def split_beta assms(2))

lemma wait_group_invariant:
  assumes "P ths s"
    and "\<And>ths s i. P ths s \<Longrightarrow> i < length ths \<Longrightarrow> P (ths[i := fst (step (ths ! i) s)]) (snd (step (ths ! i) s))"
  shows "P (fst (wait_group step rank sched ths s)) (snd (wait_group step rank sched ths s))"
proof -
  obtain sched' where "wait_group step rank sched ths s = run_schedule step (sched @ sched') ths s"
    using wait_group_schedule [of step rank sched ths s] by (elim exE) simp
  then show ?thesis using run_schedule_invariant [of P, OF assms] by simp
qed

lemma count_list_replicate: "count_list (replicate m j) i = (if i = j then m else 0)"
  by (induction m) auto

lemma count_list_concat: "count_list (concat (map f xs)) i = (\<Sum>x \<leftarrow> xs. count_list (f x) i)"
  by (induction xs) auto

lemma count_finishing:
  assumes "i < length ths"
  shows "count_list (finishing_schedule rank ths) i = rank (ths ! i)"
proof -
  have "count_list (finishing_schedule rank ths) i =
      (\<Sum>j \<leftarrow> [0..<length ths]. if i = j then rank (ths ! j) else 0)"
    by (simp add: finishing_schedule_def count_list_concat count_list_replicate)
  also have "\<dots> = rank (ths ! i)"
    using assms by (simp add: interv_sum_list_conv_sum_set_nat)
  finally show ?thesis .
qed

locale goroutines =
  fixes step :: "'t \<Rightarrow> 's \<Rightarrow> 't \<times> 's" and rank :: "'t \<Rightarrow> nat"
  assumes rank_step: "rank (fst (step th s)) \<le> rank th - 1"
begin

lemma run_schedule_rank:
  "i < length ths \<Longrightarrow> rank (fst (run_schedule step sched ths s) ! i) \<le> rank (ths ! i) - count_list sched i"
proof (induction sched arbitrary: ths s)
  case (Cons j sched)
  show ?case
  proof (cases "j < length ths")
    case True
    let ?t = "step (ths ! j) s"
    have "rank (fst (run_schedule step sched (ths[j := fst ?t]) (snd ?t)) ! i)
        \<le> rank (ths[j := fst ?t] ! i) - count_list sched i"
      using Cons.IH [of "ths[j := fst ?t]" "snd ?t"] Cons.prems by simp
    also have "\<dots> \<le> rank (ths ! i) - count_list (j # sched) i"
      using rank_step [of "ths ! j" s] Cons.prems by (auto simp: nth_list_update)
    finally show ?thesis using True by (simp add: Let_def split_beta)
  next
    case False
    then show ?thesis using Cons by auto
  qed
qed simp

lemma wait_group_done:
  assumes "th \<in> set (fst (wait_group step rank sched ths s))"
  shows "rank th = 0"
proof -
  let ?r = "run_schedule step sched ths s"
  obtain i where i: "i < length (fst ?r)"
      "th = fst (run_schedule step (finishing_schedule rank (fst ?r)) (fst ?r) (snd ?r)) ! i"
    using assms by (auto simp: wait_group_def split_beta in_set_conv_nth)
  then show ?thesis
    using run_schedule_rank [of i "fst ?r" "finishing_schedule rank (fst ?r)" "snd ?r"]
      count_finishing [of i "fst ?r" rank] by simp
qed

text \<open>The form the components use: an invariant, read off at the end when every thread is done.\<close>

lemma wait_group_result:
  assumes "wait_group step rank sched ths s = (ths', s')" and "P ths s"
    and "\<And>ths s i. P ths s \<Longrightarrow> i < length ths \<Longrightarrow> P (ths[i := fst (step (ths ! i) s)]) (snd (step (ths ! i) s))"
  shows "P ths' s'" "\<forall>th \<in> set ths'. rank th = 0"
  using wait_group_invariant [of P ths s step rank sched, OF assms(2,3)] wait_group_done [of _ sched ths s] assms(1)
  by simp_all

end

end
