(* ===== verification/Phases.thy ===== *)
theory Phases
  imports State Tuning_Sets Go_Threads "HOL-Library.Monad_Syntax"
begin

text \<open>
  \<open>pkg/test/simple_test_executor.go\<close>: the execution of one phase. An \<open>*InstancesState\<close> is an
  index into \<open>ex_heap\<close>, so that the closures, the deferred functions and the namespaces state share
  it as they do in the code. The actions of a phase run in goroutines; a goroutine is a \<open>thread\<close>,
  its atomic step is one call of \<open>ExecuteObject\<close>, and the schedule (a list of thread numbers) says
  which thread moves next. When the schedule is exhausted the threads that are left run to their
  end, as \<open>wg.Wait\<close> demands, so every schedule is a complete execution and every interleaving of
  the calls is given by some schedule.

  \<open>phase_env\<close> holds what a phase calls: the template provider, the client of the cluster (whose
  state has the type \<open>'c\<close>) and the selector library. \<open>Index\<close> is the value \<open>VInt\<close>.
  A panic and a loop that does not end are the result \<open>None\<close>.
\<close>

record GroupVersionKind =
  gvk_Group :: string
  gvk_Version :: string
  gvk_Kind :: string

record Unstructured =
  un_GroupVersionKind :: GroupVersionKind
  un_Object :: params

record InstancesState =
  DesiredReplicaCount :: int
  CurrentReplicaCount :: int
  is_Object :: Object

datatype OperationType = createObject | patchObject | deleteObject

record 'c phase_env =
  RawToObject :: "string \<Rightarrow> Unstructured result"
  TemplateToObject :: "string \<Rightarrow> params \<Rightarrow> Unstructured result"
  TemplateMapping :: params
  NamespacePrefix :: string
  fw_CreateObject :: "string \<Rightarrow> string \<Rightarrow> Unstructured \<Rightarrow> 'c \<Rightarrow> 'c \<times> go_error option"
  fw_PatchObject :: "string \<Rightarrow> string \<Rightarrow> Unstructured \<Rightarrow> 'c \<Rightarrow> 'c \<times> go_error option"
  fw_DeleteObject :: "GroupVersionKind \<Rightarrow> string \<Rightarrow> string \<Rightarrow> 'c \<Rightarrow> 'c \<times> go_error option"
  LabelSelectorAsSelector :: "string \<Rightarrow> string result"
  NumObjectsMatchingSelector :: "'c \<Rightarrow> string \<Rightarrow> GroupVersionKind \<Rightarrow> string \<Rightarrow> int result"

record 'c exec_state =
  ex_namespaces :: "nat NamespacesState"
  ex_heap :: "InstancesState list"
  ex_factory :: simpleFactory
  ex_cluster :: 'c

subsection \<open>\<open>ExecuteObject\<close>\<close>

definition objName :: "Object \<Rightarrow> int \<Rightarrow> string" where
  "objName object replicaIndex = obj_Basename object @ ''-'' @ itoa replicaIndex"

definition object_mapping :: "'c phase_env \<Rightarrow> Object \<Rightarrow> string \<Rightarrow> int \<Rightarrow> params" where
  "object_mapping env object namespace replicaIndex =
     (let mapping = (case obj_TemplateFillMap object of
                       None \<Rightarrow> TemplateMapping env
                     | Some fill \<Rightarrow> CopyMap fill (TemplateMapping env))
      in AList.update ''Namespace'' (VString namespace)
          (AList.update ''Name'' (VString (objName object replicaIndex))
            (AList.update ''Index'' (VInt replicaIndex)
              (AList.update ''BaseName'' (VString (obj_Basename object)) mapping))))"

definition call_error :: "string \<Rightarrow> string \<Rightarrow> string \<Rightarrow> go_error option \<Rightarrow> ErrorList" where
  "call_error namespace name what err = (case err of
      None \<Rightarrow> NewErrorList []
    | Some e \<Rightarrow> ErrorList_Append (NewErrorList [])
        [ErrText (''namespace '' @ namespace @ '' object '' @ name @ '' '' @ what @ '' error: '' @ Error e)])"

definition ExecuteObject ::
    "'c phase_env \<Rightarrow> Object \<Rightarrow> string \<Rightarrow> int \<Rightarrow> OperationType \<Rightarrow> 'c \<Rightarrow> 'c \<times> ErrorList" where
  "ExecuteObject env object namespace replicaIndex operation c =
     (let name = objName object replicaIndex;
          path = obj_ObjectTemplatePath object;
          read = (case operation of
              deleteObject \<Rightarrow> RawToObject env path
            | _ \<Rightarrow> TemplateToObject env path (object_mapping env object namespace replicaIndex));
          for_deletion = (if operation = deleteObject then '' for deletion'' else [])
      in case read of
           Inl err \<Rightarrow> (c, if err = ErrorEmptyFile then NewErrorList []
              else NewErrorList [ErrText (''reading template ('' @ path @ '')'' @ for_deletion @ '' error: '' @ Error err)])
         | Inr obj \<Rightarrow> (case operation of
              createObject \<Rightarrow> (let (c', err) = fw_CreateObject env namespace name obj c
                              in (c', call_error namespace name ''creation'' err))
            | patchObject \<Rightarrow> (let (c', err) = fw_PatchObject env namespace name obj c
                              in (c', call_error namespace name ''updating'' err))
            | deleteObject \<Rightarrow> (let (c', err) = fw_DeleteObject env (un_GroupVersionKind obj) namespace name c
                              in (c', call_error namespace name ''deletion'' err))))"

subsection \<open>The helpers of a phase\<close>

fun verify_loop :: "InstancesState option \<Rightarrow> int \<Rightarrow> InstancesState list \<Rightarrow> go_error option" where
  "verify_loop prev expected [] = None"
| "verify_loop prev expected (s # ss) =
     (case prev of
        Some p \<Rightarrow>
          if expected \<noteq> - 1 \<and> CurrentReplicaCount s \<noteq> expected
          then Some (ErrText (''bundle error: '' @ obj_Basename (is_Object s) @ '' has ''
                 @ itoa (CurrentReplicaCount s) @ '' replicas while '' @ obj_Basename (is_Object p)
                 @ '' has '' @ itoa (CurrentReplicaCount p)))
          else verify_loop (Some s) (CurrentReplicaCount s) ss
      | None \<Rightarrow> verify_loop (Some s) (CurrentReplicaCount s) ss)"

definition verifyBundleCorrectness :: "InstancesState list \<Rightarrow> go_error option" where
  "verifyBundleCorrectness instancesStates = verify_loop None (- 1) instancesStates"

definition getIdentifier :: "'c phase_env \<Rightarrow> Object \<Rightarrow> InstancesIdentifier result" where
  "getIdentifier env object = (case RawToObject env (obj_ObjectTemplatePath object) of
      Inl err \<Rightarrow> Inl (ErrText (''reading template ('' @ obj_ObjectTemplatePath object
                   @ '') for identifier error: '' @ Error err))
    | Inr obj \<Rightarrow> Inr \<lparr>Basename = obj_Basename object,
                      ObjectKind = gvk_Kind (un_GroupVersionKind obj),
                      APIGroup = gvk_Group (un_GroupVersionKind obj)\<rparr>)"

definition getReplicaCountOfNewObject :: "'c phase_env \<Rightarrow> 'c \<Rightarrow> string \<Rightarrow> Object \<Rightarrow> int result" where
  "getReplicaCountOfNewObject env c namespace object =
     (case obj_ListUnknownObjectOptions object of
        None \<Rightarrow> Inr 0
      | Some options \<Rightarrow> (case LabelSelectorAsSelector env (luo_LabelSelector options) of
          Inl err \<Rightarrow> Inl err
        | Inr selector \<Rightarrow> (case RawToObject env (obj_ObjectTemplatePath object) of
            Inl err \<Rightarrow> Inl err
          | Inr obj \<Rightarrow>
              (case NumObjectsMatchingSelector env c namespace (un_GroupVersionKind obj) selector of
                 Inl _ \<Rightarrow> Inr 0
               | Inr replicaCount \<Rightarrow> Inr (wrap32 replicaCount)))))"

text \<open>The loop \<open>for i := Min; i <= Max; i++\<close> on \<open>int32\<close>: at the largest value it wraps around.\<close>

partial_function (option) ns_range_loop :: "string \<Rightarrow> int \<Rightarrow> int \<Rightarrow> string list option" where
  "ns_range_loop base mx i =
     (if i \<le> mx
      then do { rest \<leftarrow> ns_range_loop base mx (wrap32 (i + 1)); Some ((base @ ''-'' @ itoa i) # rest) }
      else Some [])"

definition createNamespacesList :: "'c phase_env \<Rightarrow> NamespaceRange option \<Rightarrow> string list option" where
  "createNamespacesList env namespaceRange = (case namespaceRange of
      None \<Rightarrow> Some ['''']
    | Some r \<Rightarrow>
        (let nsBasename = (case nr_Basename r of None \<Rightarrow> NamespacePrefix env | Some b \<Rightarrow> b)
         in ns_range_loop nsBasename (nr_Max r) (nr_Min r)))"

subsection \<open>Threads\<close>

record thread =
  th_op :: OperationType
  th_ns :: string
  th_index :: int
  th_todo :: "(Object \<times> nat) list"

text \<open>
  One pass through the loop over the bundle. A failing create or patch skips the rest of the
  bundle; a delete goes on, and looks at the replica count of the object first.
\<close>

definition thread_step ::
    "'c phase_env \<Rightarrow> InstancesState list \<Rightarrow> thread \<Rightarrow> 'c \<times> ErrorList \<Rightarrow> thread \<times> 'c \<times> ErrorList" where
  "thread_step env heap th s = (case s of (c, errs) \<Rightarrow> (case th_todo th of
      [] \<Rightarrow> (th, c, errs)
    | (object, p) # rest \<Rightarrow>
        if th_op th = deleteObject \<and> \<not> th_index th < CurrentReplicaCount (heap ! p)
        then (th\<lparr>th_todo := rest\<rparr>, c, errs)
        else (let (c', objectErrList) = ExecuteObject env object (th_ns th) (th_index th) (th_op th) c
              in if ErrorList_IsEmpty objectErrList then (th\<lparr>th_todo := rest\<rparr>, c', errs)
                 else (th\<lparr>th_todo := if th_op th = deleteObject then rest else []\<rparr>, c',
                       ErrorList_Concat errs (Some objectErrList)))))"

definition run_threads ::
    "'c phase_env \<Rightarrow> InstancesState list \<Rightarrow> nat list \<Rightarrow> thread list \<Rightarrow> 'c \<times> ErrorList
       \<Rightarrow> thread list \<times> 'c \<times> ErrorList" where
  "run_threads env heap = wait_group (thread_step env heap) (\<lambda>th. length (th_todo th))"

subsection \<open>\<open>ExecutePhase\<close>\<close>

text \<open>The loop over the object bundle (lines 209--231).\<close>

fun bundle_loop ::
    "'c phase_env \<Rightarrow> int \<Rightarrow> string \<Rightarrow> Object list \<Rightarrow> nat list \<Rightarrow> 'c exec_state
       \<Rightarrow> 'c exec_state \<times> nat list result" where
  "bundle_loop env n ns [] ptrs st = (st, Inr ptrs)"
| "bundle_loop env n ns (ob # obs) ptrs st = (case getIdentifier env ob of
      Inl err \<Rightarrow> (st, Inl err)
    | Inr ident \<Rightarrow>
        (case (case NamespacesState_Get (ex_namespaces st) ns ident of
                 Some p \<Rightarrow> Inr (p, ex_heap st)
               | None \<Rightarrow> (case getReplicaCountOfNewObject env (ex_cluster st) ns ob of
                   Inl err \<Rightarrow> Inl err
                 | Inr k \<Rightarrow> Inr (length (ex_heap st), ex_heap st @
                     [\<lparr>DesiredReplicaCount = 0, CurrentReplicaCount = k, is_Object = ob\<rparr>]))) of
           Inl err \<Rightarrow> (st, Inl err)
         | Inr (p, heap) \<Rightarrow>
             bundle_loop env n ns obs (ptrs @ [p])
               (st\<lparr>ex_heap := heap[p := (heap ! p)\<lparr>DesiredReplicaCount := n\<rparr>],
                   ex_namespaces := NamespacesState_Set (ex_namespaces st) ns ident p\<rparr>)))"

text \<open>The actions of one namespace (lines 242--285).\<close>

definition namespace_actions :: "InstancesState list \<Rightarrow> Phase \<Rightarrow> string \<Rightarrow> nat list \<Rightarrow> thread list" where
  "namespace_actions heap phase ns ptrs =
     (let n = ph_ReplicasPerNamespace phase;
          c = CurrentReplicaCount (heap ! hd ptrs);
          bundle = zip (ph_ObjectBundle phase) ptrs;
          action = (\<lambda>operation todo i. \<lparr>th_op = operation, th_ns = ns, th_index = i, th_todo = todo\<rparr>)
      in map (action deleteObject (rev bundle)) [n..c - 1]
         @ (if c = n then map (action patchObject bundle) [0..n - 1] else [])
         @ map (action createObject bundle) [c..n - 1])"

datatype phase_outcome = Return "ErrorList option" | Proceed "thread list"

text \<open>The loop over the namespaces; the deferred functions are collected, the latest first.\<close>

fun namespace_loop ::
    "'c phase_env \<Rightarrow> Phase \<Rightarrow> string list \<Rightarrow> (string \<times> nat list) list \<Rightarrow> thread list \<Rightarrow> 'c exec_state
       \<Rightarrow> 'c exec_state \<times> (string \<times> nat list) list \<times> phase_outcome" where
  "namespace_loop env phase [] deferred actions st = (st, deferred, Proceed actions)"
| "namespace_loop env phase (ns # nss) deferred actions st =
     (case bundle_loop env (ph_ReplicasPerNamespace phase) ns (ph_ObjectBundle phase) [] st of
        (st', Inl err) \<Rightarrow> (st', deferred, Return (Some (ErrorList_Append (NewErrorList []) [err])))
      | (st', Inr ptrs) \<Rightarrow>
          (case verifyBundleCorrectness (map ((!) (ex_heap st')) ptrs) of
             Some err \<Rightarrow> (st', deferred, Return (Some (NewErrorList [err])))
           | None \<Rightarrow>
               if length ptrs = 0 then (st', deferred, Return None)
               else namespace_loop env phase nss ((ns, ptrs) # deferred)
                      (actions @ namespace_actions (ex_heap st') phase ns ptrs) st'))"

text \<open>One deferred function (lines 288--294); an identifier that cannot be read is the zero value.\<close>

fun deferred_loop ::
    "'c phase_env \<Rightarrow> string \<Rightarrow> (Object \<times> nat) list \<Rightarrow> 'c exec_state \<Rightarrow> 'c exec_state" where
  "deferred_loop env ns [] st = st"
| "deferred_loop env ns ((ob, p) # rest) st =
     (let ident = (case getIdentifier env ob of
                     Inr i \<Rightarrow> i | Inl _ \<Rightarrow> \<lparr>Basename = [], ObjectKind = [], APIGroup = []\<rparr>);
          s = ex_heap st ! p
      in deferred_loop env ns rest
           (st\<lparr>ex_heap := (ex_heap st)[p := s\<lparr>CurrentReplicaCount := DesiredReplicaCount s\<rparr>],
               ex_namespaces := NamespacesState_Set (ex_namespaces st) ns ident p\<rparr>))"

fun run_deferred ::
    "'c phase_env \<Rightarrow> Object list \<Rightarrow> (string \<times> nat list) list \<Rightarrow> 'c exec_state \<Rightarrow> 'c exec_state" where
  "run_deferred env obs [] st = st"
| "run_deferred env obs ((ns, ptrs) # ds) st = run_deferred env obs ds (deferred_loop env ns (zip obs ptrs) st)"

definition ExecutePhase ::
    "'c phase_env \<Rightarrow> tuning_env \<Rightarrow> nat list \<Rightarrow> Phase \<Rightarrow> 'c exec_state
       \<Rightarrow> ('c exec_state \<times> ErrorList option) option" where
  "ExecutePhase env tenv sched phase st =
     do { nsList \<leftarrow> (case ph_NamespaceList phase of
                        Some l \<Rightarrow> Some l
                      | None \<Rightarrow> createNamespacesList env (ph_NamespaceRange phase));
          (case CreateTuningSet (ex_factory st) (ph_TuningSet phase) of
             (tf, Inl err) \<Rightarrow> Some (st\<lparr>ex_factory := tf\<rparr>,
               Some (NewErrorList [ErrText (''tuning set creation error: '' @ Error err)]))
           | (tf, Inr tuningSet) \<Rightarrow>
               (case namespace_loop env phase nsList [] [] (st\<lparr>ex_factory := tf\<rparr>) of
                  (st', deferred, Return r) \<Rightarrow> Some (run_deferred env (ph_ObjectBundle phase) deferred st', r)
                | (st', deferred, Proceed actions) \<Rightarrow>
                    do { evs \<leftarrow> TuningSet_Execute tenv tuningSet actions;
                         (case run_threads env (ex_heap st') sched (started evs)
                                 (ex_cluster st', NewErrorList []) of
                            (_, c, errs) \<Rightarrow> Some (run_deferred env (ph_ObjectBundle phase) deferred
                                                 (st'\<lparr>ex_cluster := c\<rparr>), Some errs)) })) }"

subsection \<open>The namespaces of a phase\<close>

lemma ns_range_loop_Some:
  assumes "- (2 ^ 31) \<le> i" and "mx < 2 ^ 31 - 1"
  shows "ns_range_loop base mx i = Some (map (\<lambda>j. base @ ''-'' @ itoa j) [i..mx])"
  using assms(1)
proof (induction "nat (mx + 1 - i)" arbitrary: i)
  case 0
  then show ?case by (subst ns_range_loop.simps) simp
next
  case (Suc k)
  then have le: "i \<le> mx" by linarith
  have "ns_range_loop base mx (i + 1) = Some (map (\<lambda>j. base @ ''-'' @ itoa j) [i + 1..mx])"
    using Suc.hyps(2) Suc.prems by (intro Suc.hyps(1)) linarith+
  moreover have "wrap32 (i + 1) = i + 1"
    using le assms(2) Suc.prems by (intro wrap32_id) linarith+
  ultimately show ?case
    using le by (subst ns_range_loop.simps) (simp add: upto_rec1)
qed

lemma wrap32_range: "- (2 ^ 31) \<le> wrap32 i" "wrap32 i < 2 ^ 31"
  using pos_mod_sign [of "2 ^ 32" "i + 2 ^ 31"] pos_mod_bound [of "2 ^ 32" "i + 2 ^ 31"]
  by (simp_all add: wrap32_def)

lemma ns_range_loop_diverges_aux:
  assumes "ns_range_loop base mx i = Some l"
  shows "mx = 2 ^ 31 - 1 \<longrightarrow> i < 2 ^ 31 \<longrightarrow> False"
  using _ assms
proof (rule ns_range_loop.raw_induct
    [where P = "\<lambda>base mx i l. mx = 2 ^ 31 - 1 \<longrightarrow> i < 2 ^ 31 \<longrightarrow> False"], goal_cases)
  case (1 loop base mx i l)
  show ?case
  proof (intro impI)
    assume mx: "mx = 2 ^ 31 - 1" and "i < 2 ^ 31"
    with 1(2) obtain l' where "loop base mx (wrap32 (i + 1)) = Some l'"
      by (auto simp: bind_eq_Some_conv split: if_splits)
    then show False using 1(1) mx wrap32_range(2) [of "i + 1"] by blast
  qed
qed

lemma ns_range_loop_diverges: "i < 2 ^ 31 \<Longrightarrow> ns_range_loop base (2 ^ 31 - 1) i = None"
  using ns_range_loop_diverges_aux [of base "2 ^ 31 - 1" i] by (cases "ns_range_loop base (2 ^ 31 - 1) i") auto

subsection \<open>The bundle check\<close>

lemma verify_loop_None:
  "verify_loop (Some p) (CurrentReplicaCount p) ss = None \<longleftrightarrow>
     (\<forall>j < length ss. CurrentReplicaCount ((p # ss) ! j) = - 1
        \<or> CurrentReplicaCount (ss ! j) = CurrentReplicaCount ((p # ss) ! j))"
proof (induction ss arbitrary: p)
  case (Cons s ss)
  show ?case by (simp add: Cons.IH All_less_Suc2)
qed simp

lemma verifyBundleCorrectness_None:
  "verifyBundleCorrectness ss = None \<longleftrightarrow>
     (\<forall>j. Suc j < length ss \<longrightarrow> CurrentReplicaCount (ss ! j) = - 1
        \<or> CurrentReplicaCount (ss ! Suc j) = CurrentReplicaCount (ss ! j))"
  by (cases ss) (auto simp: verifyBundleCorrectness_def verify_loop_None)

lemma verifyBundleCorrectness_equal:
  "(\<And>s. s \<in> set ss \<Longrightarrow> CurrentReplicaCount s = c) \<Longrightarrow> verifyBundleCorrectness ss = None"
  by (simp add: verifyBundleCorrectness_None)

subsection \<open>Names of replicas\<close>

lemma utoa_no_dash: "CHR ''-'' \<notin> set (utoa n)"
  using utoa_digits [of n] by (auto simp: list_all_iff is_digit_def)

lemma append_sep_inject:
  assumes "c \<notin> set ys" and "c \<notin> set ys'"
  shows "xs @ c # ys = xs' @ c # ys' \<longleftrightarrow> xs = xs' \<and> ys = ys'"
proof
  assume eq: "xs @ c # ys = xs' @ c # ys'"
  have split: "takeWhile (\<lambda>x. x \<noteq> c) (rev (us @ c # vs)) = rev vs" if "c \<notin> set vs" for us vs
    using that by (auto simp: takeWhile_append2 takeWhile_tail)
  have "ys = ys'" using split [OF assms(1), of xs] split [OF assms(2), of xs'] eq by (metis rev_rev_ident)
  then show "xs = xs' \<and> ys = ys'" using eq by simp
qed simp

lemma objName_inject:
  assumes "0 \<le> i" and "0 \<le> j"
  shows "objName a i = objName b j \<longleftrightarrow> obj_Basename a = obj_Basename b \<and> i = j"
  using assms append_sep_inject [OF utoa_no_dash utoa_no_dash, of "obj_Basename a" "nat i" "obj_Basename b" "nat j"]
  by (auto simp: objName_def itoa_def)

end
