(* ===== verification/Client.thy ===== *)
theory Client
  imports Nodes Pods Phases
begin

text \<open>
  \<open>pkg/framework/client/objects.go\<close>: the calls to the API server, each repeated with exponential
  backoff while its error is transient. The state of the cluster has the type \<open>'s\<close>; a call is a
  function on it. The closures the code hands to the retry loop assign to local variables of the
  function around them: \<open>captured\<close> is the value of that variable, threaded through the attempts.

  \<open>client_lib\<close> holds what the package takes from \<open>k8s.io/apimachinery\<close> and \<open>k8s.io/gengo\<close>: the
  classification of errors, the two wait loops, names and patches. \<open>clientset\<close> and
  \<open>dynamic_client\<close> are the requests of the generated clients.
\<close>

record GroupVersionResource =
  gvr_Group :: string
  gvr_Version :: string
  gvr_Resource :: string

record ListOptions =
  lo_LabelSelector :: string
  lo_FieldSelector :: string

datatype captured =
    NoCapture
  | PodItems "Pod list"
  | NodeItems "Node list"
  | NamespaceItems "string list"
  | EventItems "string list"
  | ObjectItem Unstructured
  | ObjectItems "Unstructured list"

type_synonym 's call_state = "'s \<times> captured"
type_synonym 's condition = "'s call_state \<Rightarrow> 's call_state \<times> bool \<times> go_error option"
type_synonym 's attempt = "'s call_state \<Rightarrow> 's call_state \<times> go_error option"

record Backoff =
  bo_Duration :: duration
  bo_Factor :: int
  bo_Jitter :: int
  bo_Steps :: nat

datatype precondition = RequireKeyUnchanged string | RequireMetadataKeyUnchanged string

record api_errors =
  IsInternalError :: "go_error \<Rightarrow> bool"
  IsTimeout :: "go_error \<Rightarrow> bool"
  IsServerTimeout :: "go_error \<Rightarrow> bool"
  IsTooManyRequests :: "go_error \<Rightarrow> bool"
  IsProbableEOF :: "go_error \<Rightarrow> bool"
  IsConnectionReset :: "go_error \<Rightarrow> bool"
  IsUnauthorized :: "go_error \<Rightarrow> bool"
  IsAlreadyExists :: "go_error \<Rightarrow> bool"
  IsNotFound :: "go_error \<Rightarrow> bool"
  SuggestsClientDelay :: "go_error \<Rightarrow> int \<times> bool"
  as_APIStatus :: "go_error \<Rightarrow> (string \<times> string option) option"
  as_net_Error :: "go_error \<Rightarrow> (bool \<times> bool) option"

record 's client_lib = api_errors +
  ExponentialBackoff :: "Backoff \<Rightarrow> 's condition \<Rightarrow> 's attempt"
  PollImmediate :: "duration \<Rightarrow> duration \<Rightarrow> 's condition \<Rightarrow> 's attempt"
  namer_Name :: "string \<Rightarrow> string \<Rightarrow> string"
  UnsafeGuessKindToResource :: "GroupVersionKind \<Rightarrow> GroupVersionResource"
  SetName :: "string \<Rightarrow> Unstructured \<Rightarrow> Unstructured"
  GetName :: "Unstructured \<Rightarrow> string"
  MarshalJSON :: "Unstructured \<Rightarrow> string result"
  CreateThreeWayJSONMergePatch :: "string option \<Rightarrow> string \<Rightarrow> string \<Rightarrow> precondition list \<Rightarrow> string result"

record 's clientset =
  pods_List :: "string \<Rightarrow> ListOptions \<Rightarrow> 's \<Rightarrow> 's \<times> Pod list result"
  nodes_List :: "ListOptions \<Rightarrow> 's \<Rightarrow> 's \<times> Node list result"
  namespaces_List :: "'s \<Rightarrow> 's \<times> string list result"
  namespaces_Create :: "string \<Rightarrow> 's \<Rightarrow> 's \<times> go_error option"
  namespaces_Delete :: "string \<Rightarrow> 's \<Rightarrow> 's \<times> go_error option"
  namespaces_Get :: "string \<Rightarrow> 's \<Rightarrow> 's \<times> go_error option"
  events_List :: "string \<Rightarrow> ListOptions \<Rightarrow> 's \<Rightarrow> 's \<times> string list result"
  storageclasses_Delete :: "string \<Rightarrow> 's \<Rightarrow> 's \<times> go_error option"

record 's dynamic_client =
  dyn_Create :: "GroupVersionResource \<Rightarrow> string \<Rightarrow> Unstructured \<Rightarrow> 's \<Rightarrow> 's \<times> go_error option"
  dyn_List :: "GroupVersionResource \<Rightarrow> string \<Rightarrow> ListOptions \<Rightarrow> 's \<Rightarrow> 's \<times> Unstructured list result"
  dyn_Get :: "GroupVersionResource \<Rightarrow> string \<Rightarrow> string \<Rightarrow> 's \<Rightarrow> 's \<times> Unstructured result"
  dyn_Patch :: "GroupVersionResource \<Rightarrow> string \<Rightarrow> string \<Rightarrow> string \<Rightarrow> 's \<Rightarrow> 's \<times> go_error option"
  dyn_Delete :: "GroupVersionResource \<Rightarrow> string \<Rightarrow> string \<Rightarrow> 's \<Rightarrow> 's \<times> go_error option"

subsection \<open>Retries\<close>

definition retryBackoff :: Backoff where
  "retryBackoff = \<lparr>bo_Duration = 100 * millisecond, bo_Factor = 3, bo_Jitter = 0, bo_Steps = 6\<rparr>"

definition RetryWithExponentialBackOff :: "'s client_lib \<Rightarrow> 's condition \<Rightarrow> 's attempt" where
  "RetryWithExponentialBackOff lib fn = ExponentialBackoff lib retryBackoff fn"

definition isResourceQuotaConflictError :: "('s, 'x) client_lib_scheme \<Rightarrow> go_error \<Rightarrow> bool" where
  "isResourceQuotaConflictError lib err = (case as_APIStatus lib err of
      None \<Rightarrow> False
    | Some (reason, details) \<Rightarrow>
        if reason \<noteq> ''Conflict'' then False
        else (case details of None \<Rightarrow> False | Some kind \<Rightarrow> kind = ''resourcequotas''))"

definition IsRetryableAPIError :: "('s, 'x) client_lib_scheme \<Rightarrow> go_error \<Rightarrow> bool" where
  "IsRetryableAPIError lib err =
     (if IsInternalError lib err \<or> IsTimeout lib err \<or> IsServerTimeout lib err
         \<or> IsTooManyRequests lib err \<or> IsProbableEOF lib err \<or> IsConnectionReset lib err
         \<or> isResourceQuotaConflictError lib err \<or> IsUnauthorized lib err
      then True
      else if snd (SuggestsClientDelay lib err) then True else False)"

definition http2ClientConnectionLostErr :: string where
  "http2ClientConnectionLostErr = ''http2: client connection lost''"

definition IsRetryableNetError :: "('s, 'x) client_lib_scheme \<Rightarrow> go_error \<Rightarrow> bool" where
  "IsRetryableNetError lib err = (case as_net_Error lib err of
      Some (temporary, timeout) \<Rightarrow> temporary \<or> timeout
    | None \<Rightarrow> if Error err = http2ClientConnectionLostErr then True else False)"

record APICallOptions =
  shouldAllowError :: "(go_error \<Rightarrow> bool) option"
  shouldRetryError :: "(go_error \<Rightarrow> bool) option"

definition Allow :: "(go_error \<Rightarrow> bool) \<Rightarrow> APICallOptions" where
  "Allow allowErrorPredicate = \<lparr>shouldAllowError = Some allowErrorPredicate, shouldRetryError = None\<rparr>"

definition Retry :: "(go_error \<Rightarrow> bool) \<Rightarrow> APICallOptions" where
  "Retry retryErrorPredicate = \<lparr>shouldAllowError = None, shouldRetryError = Some retryErrorPredicate\<rparr>"

fun option_funcs ::
    "APICallOptions list \<Rightarrow> (go_error \<Rightarrow> bool) list \<times> (go_error \<Rightarrow> bool) list
       \<Rightarrow> (go_error \<Rightarrow> bool) list \<times> (go_error \<Rightarrow> bool) list" where
  "option_funcs [] (allows, retries) = (allows, retries)"
| "option_funcs (opt # opts) (allows, retries) = option_funcs opts
     (case shouldAllowError opt of None \<Rightarrow> allows | Some f \<Rightarrow> allows @ [f],
      case shouldRetryError opt of None \<Rightarrow> retries | Some f \<Rightarrow> retries @ [f])"

fun matches_loop :: "(go_error \<Rightarrow> bool) list \<Rightarrow> go_error \<Rightarrow> bool" where
  "matches_loop [] err = False"
| "matches_loop (f # fs) err = (if f err then True else matches_loop fs err)"

definition RetryFunction :: "'s client_lib \<Rightarrow> 's attempt \<Rightarrow> APICallOptions list \<Rightarrow> 's condition" where
  "RetryFunction lib f opts s =
     (let (allows, retries) = option_funcs opts ([], []);
          (s', err) = f s
      in case err of
           None \<Rightarrow> (s', True, None)
         | Some e \<Rightarrow>
             if matches_loop allows e then (s', True, None)
             else if matches_loop retries e then (s', False, None)
             else if IsRetryableAPIError lib e \<or> IsRetryableNetError lib e then (s', False, None)
             else (s', False, Some e))"

subsection \<open>Calls of the generated client\<close>

text \<open>A request that gives no value, as a closure.\<close>

definition plain_call :: "('s \<Rightarrow> 's \<times> go_error option) \<Rightarrow> 's attempt" where
  "plain_call f s = (let (s', err) = f (fst s) in ((s', snd s), err))"

text \<open>A request whose value is assigned to the captured variable when there is no error.\<close>

definition list_call :: "('s \<Rightarrow> 's \<times> 'a result) \<Rightarrow> ('a \<Rightarrow> captured) \<Rightarrow> 's attempt" where
  "list_call f wrap s = (case f (fst s) of
      (s', Inl err) \<Rightarrow> ((s', snd s), Some err)
    | (s', Inr items) \<Rightarrow> ((s', wrap items), None))"

text \<open>A request whose value is assigned in any case; the client returns the empty list along with an error.\<close>

definition assigned_call :: "('s \<Rightarrow> 's \<times> 'a list result) \<Rightarrow> ('a list \<Rightarrow> captured) \<Rightarrow> 's attempt" where
  "assigned_call f wrap s = (case f (fst s) of
      (s', Inl err) \<Rightarrow> ((s', wrap []), Some err)
    | (s', Inr items) \<Rightarrow> ((s', wrap items), None))"

fun captured_pods :: "captured \<Rightarrow> Pod list" where
  "captured_pods (PodItems pods) = pods" | "captured_pods _ = []"

fun captured_nodes :: "captured \<Rightarrow> Node list" where
  "captured_nodes (NodeItems nodes) = nodes" | "captured_nodes _ = []"

fun captured_namespaces :: "captured \<Rightarrow> string list" where
  "captured_namespaces (NamespaceItems nss) = nss" | "captured_namespaces _ = []"

definition ListPodsWithOptions ::
    "'s client_lib \<Rightarrow> 's clientset \<Rightarrow> string \<Rightarrow> ListOptions \<Rightarrow> 's \<Rightarrow> 's \<times> Pod list \<times> go_error option" where
  "ListPodsWithOptions lib c namespace listOpts s =
     (case RetryWithExponentialBackOff lib
             (RetryFunction lib (list_call (pods_List c namespace listOpts) PodItems) []) (s, PodItems []) of
        ((s', pods), err) \<Rightarrow> (s', captured_pods pods, err))"

definition ListNodesWithOptions ::
    "'s client_lib \<Rightarrow> 's clientset \<Rightarrow> ListOptions \<Rightarrow> 's \<Rightarrow> 's \<times> Node list \<times> go_error option" where
  "ListNodesWithOptions lib c listOpts s =
     (case RetryWithExponentialBackOff lib
             (RetryFunction lib (list_call (nodes_List c listOpts) NodeItems) []) (s, NodeItems []) of
        ((s', nodes), err) \<Rightarrow> (s', captured_nodes nodes, err))"

definition ListNodes :: "'s client_lib \<Rightarrow> 's clientset \<Rightarrow> 's \<Rightarrow> 's \<times> Node list \<times> go_error option" where
  "ListNodes lib c = ListNodesWithOptions lib c \<lparr>lo_LabelSelector = [], lo_FieldSelector = []\<rparr>"

definition CreateNamespace :: "'s client_lib \<Rightarrow> 's clientset \<Rightarrow> string \<Rightarrow> 's \<Rightarrow> 's \<times> go_error option" where
  "CreateNamespace lib c namespace s =
     (case RetryWithExponentialBackOff lib
             (RetryFunction lib (plain_call (namespaces_Create c namespace)) [Allow (IsAlreadyExists lib)])
             (s, NoCapture) of ((s', _), err) \<Rightarrow> (s', err))"

definition DeleteNamespace :: "'s client_lib \<Rightarrow> 's clientset \<Rightarrow> string \<Rightarrow> 's \<Rightarrow> 's \<times> go_error option" where
  "DeleteNamespace lib c namespace s =
     (case RetryWithExponentialBackOff lib
             (RetryFunction lib (plain_call (namespaces_Delete c namespace)) [Allow (IsNotFound lib)])
             (s, NoCapture) of ((s', _), err) \<Rightarrow> (s', err))"

definition ListNamespaces :: "'s client_lib \<Rightarrow> 's clientset \<Rightarrow> 's \<Rightarrow> 's \<times> string list \<times> go_error option" where
  "ListNamespaces lib c s =
     (case RetryWithExponentialBackOff lib
             (RetryFunction lib (list_call (namespaces_List c) NamespaceItems) []) (s, NamespaceItems []) of
        ((s', nss), err) \<Rightarrow> (s', captured_namespaces nss, err))"

definition retryWaitFunc :: "'s client_lib \<Rightarrow> 's clientset \<Rightarrow> string \<Rightarrow> 's condition" where
  "retryWaitFunc lib c namespace s =
     (let (s', err) = plain_call (namespaces_Get c namespace) s
      in case err of
           Some e \<Rightarrow> if IsNotFound lib e then (s', True, None)
             else if \<not> IsRetryableAPIError lib e then (s', False, Some e) else (s', False, None)
         | None \<Rightarrow> (s', False, None))"

definition WaitForDeleteNamespace ::
    "'s client_lib \<Rightarrow> 's clientset \<Rightarrow> string \<Rightarrow> duration \<Rightarrow> 's \<Rightarrow> 's \<times> go_error option" where
  "WaitForDeleteNamespace lib c namespace timeout s =
     (case PollImmediate lib (5 * second) timeout (retryWaitFunc lib c namespace) (s, NoCapture) of
        ((s', _), err) \<Rightarrow> (s', err))"

definition ListEvents ::
    "'s client_lib \<Rightarrow> 's clientset \<Rightarrow> string \<Rightarrow> string \<Rightarrow> APICallOptions list \<Rightarrow> 's
       \<Rightarrow> 's \<times> captured result" where
  "ListEvents lib c namespace name opts s =
     (case RetryWithExponentialBackOff lib
             (RetryFunction lib (assigned_call (events_List c namespace
                \<lparr>lo_LabelSelector = [], lo_FieldSelector = ''involvedObject.name='' @ name\<rparr>) EventItems) opts)
             (s, NoCapture) of
        ((s', obj), Some err) \<Rightarrow> (s', Inl err)
      | ((s', obj), None) \<Rightarrow> (s', Inr obj))"

definition DeleteStorageClass :: "'s client_lib \<Rightarrow> 's clientset \<Rightarrow> string \<Rightarrow> 's \<Rightarrow> 's \<times> go_error option" where
  "DeleteStorageClass lib c name s =
     (case RetryWithExponentialBackOff lib
             (RetryFunction lib (plain_call (storageclasses_Delete c name)) [Allow (IsNotFound lib)])
             (s, NoCapture) of ((s', _), err) \<Rightarrow> (s', err))"

subsection \<open>Calls of the dynamic client\<close>

definition to_lower :: "string \<Rightarrow> string" where
  "to_lower s = map (\<lambda>c. if 65 \<le> (of_char c :: nat) \<and> (of_char c :: nat) \<le> 90
                         then char_of ((of_char c :: nat) + 32) else c) s"

definition GroupVersion_String :: "GroupVersionKind \<Rightarrow> string" where
  "GroupVersion_String gvk = (if gvk_Group gvk = [] then gvk_Version gvk
     else gvk_Group gvk @ ''/'' @ gvk_Version gvk)"

definition WithResource :: "GroupVersionKind \<Rightarrow> string \<Rightarrow> GroupVersionResource" where
  "WithResource gvk r = \<lparr>gvr_Group = gvk_Group gvk, gvr_Version = gvk_Version gvk, gvr_Resource = r\<rparr>"

definition pluralResource :: "'s client_lib \<Rightarrow> GroupVersionKind \<Rightarrow> GroupVersionResource" where
  "pluralResource lib kind =
     (let lowerKind = to_lower (gvk_Kind kind)
      in if suffix ''endpoints'' lowerKind then WithResource kind lowerKind
         else WithResource kind (namer_Name lib (GroupVersion_String kind) (gvk_Kind kind)))"

definition client_CreateObject ::
    "'s client_lib \<Rightarrow> 's dynamic_client \<Rightarrow> string \<Rightarrow> string \<Rightarrow> Unstructured \<Rightarrow> APICallOptions list \<Rightarrow> 's
       \<Rightarrow> 's \<times> go_error option" where
  "client_CreateObject lib c namespace name obj opts s =
     (let gvr = pluralResource lib (un_GroupVersionKind obj);
          obj = SetName lib name obj
      in case RetryWithExponentialBackOff lib
                (RetryFunction lib (plain_call (dyn_Create c gvr namespace obj))
                   (opts @ [Allow (IsAlreadyExists lib)])) (s, NoCapture) of ((s', _), err) \<Rightarrow> (s', err))"

definition createPatch :: "'s client_lib \<Rightarrow> Unstructured \<Rightarrow> Unstructured \<Rightarrow> string result" where
  "createPatch lib current modified = (case MarshalJSON lib current of
      Inl err \<Rightarrow> Inl err
    | Inr currentJSON \<Rightarrow> (case MarshalJSON lib modified of
        Inl err \<Rightarrow> Inl err
      | Inr modifiedJSON \<Rightarrow> CreateThreeWayJSONMergePatch lib None modifiedJSON currentJSON
          [RequireKeyUnchanged ''apiVersion'', RequireKeyUnchanged ''kind'', RequireMetadataKeyUnchanged ''name'']))"

definition updateFunc ::
    "'s client_lib \<Rightarrow> 's dynamic_client \<Rightarrow> GroupVersionResource \<Rightarrow> string \<Rightarrow> string \<Rightarrow> Unstructured \<Rightarrow> 's
       \<Rightarrow> 's \<times> go_error option" where
  "updateFunc lib c gvr namespace name obj s = (case dyn_Get c gvr namespace name s of
      (s1, Inl err) \<Rightarrow> (s1, Some err)
    | (s1, Inr currentObj) \<Rightarrow> (case createPatch lib currentObj obj of
        Inl err \<Rightarrow> (s1, Some (ErrText (''creating patch diff error: '' @ Error err)))
      | Inr patch \<Rightarrow> dyn_Patch c gvr namespace (GetName lib obj) patch s1))"

definition client_PatchObject ::
    "'s client_lib \<Rightarrow> 's dynamic_client \<Rightarrow> string \<Rightarrow> string \<Rightarrow> Unstructured \<Rightarrow> APICallOptions list \<Rightarrow> 's
       \<Rightarrow> 's \<times> go_error option" where
  "client_PatchObject lib c namespace name obj opts s =
     (let gvr = pluralResource lib (un_GroupVersionKind obj);
          obj = SetName lib name obj
      in case RetryWithExponentialBackOff lib
                (RetryFunction lib (plain_call (updateFunc lib c gvr namespace name obj)) opts) (s, NoCapture) of
           ((s', _), err) \<Rightarrow> (s', err))"

definition client_DeleteObject ::
    "'s client_lib \<Rightarrow> 's dynamic_client \<Rightarrow> GroupVersionKind \<Rightarrow> string \<Rightarrow> string \<Rightarrow> APICallOptions list \<Rightarrow> 's
       \<Rightarrow> 's \<times> go_error option" where
  "client_DeleteObject lib c gvk namespace name opts s =
     (case RetryWithExponentialBackOff lib
             (RetryFunction lib (plain_call (dyn_Delete c (pluralResource lib gvk) namespace name))
                (opts @ [Allow (IsNotFound lib)])) (s, NoCapture) of ((s', _), err) \<Rightarrow> (s', err))"

text \<open>
  \<open>GetObject\<close> guesses the resource with the library function that \<open>pluralResource\<close> replaces, and
  its closure assigns the object also when the request fails.
\<close>

definition client_GetObject ::
    "'s client_lib \<Rightarrow> 's dynamic_client \<Rightarrow> GroupVersionKind \<Rightarrow> string \<Rightarrow> string \<Rightarrow> APICallOptions list \<Rightarrow> 's
       \<Rightarrow> 's \<times> captured result" where
  "client_GetObject lib c gvk namespace name opts s =
     (let getFunc = (\<lambda>s. case dyn_Get c (UnsafeGuessKindToResource lib gvk) namespace name (fst s) of
             (s', Inl err) \<Rightarrow> ((s', NoCapture), Some err)
           | (s', Inr obj) \<Rightarrow> ((s', ObjectItem obj), None))
      in case RetryWithExponentialBackOff lib (RetryFunction lib getFunc opts) (s, NoCapture) of
           ((s', obj), Some err) \<Rightarrow> (s', Inl err)
         | ((s', obj), None) \<Rightarrow> (s', Inr obj))"


subsection \<open>What the wait loops promise\<close>

text \<open>
  \<open>wait.ExponentialBackoff\<close> checks the condition at most \<open>Steps\<close> times and stops as soon as it
  returns true or an error; \<open>wait.PollImmediate\<close> checks it once and then until the timeout, which
  is some number of times. Both return \<open>ErrWaitTimeout\<close> when they give up.
\<close>

definition ErrWaitTimeout :: go_error where
  "ErrWaitTimeout = ErrText ''timed out waiting for the condition''"

fun checks :: "nat \<Rightarrow> 's condition \<Rightarrow> 's attempt" where
  "checks 0 cond s = (s, Some ErrWaitTimeout)"
| "checks (Suc n) cond s = (case cond s of (s', ok, err) \<Rightarrow>
     if err \<noteq> None \<or> ok then (s', err) else checks n cond s')"

definition backoff_doc :: "'s client_lib \<Rightarrow> bool" where
  "backoff_doc lib \<longleftrightarrow> (\<forall>b cond s. ExponentialBackoff lib b cond s = checks (bo_Steps b) cond s)"

definition poll_doc :: "'s client_lib \<Rightarrow> bool" where
  "poll_doc lib \<longleftrightarrow> (\<forall>interval timeout cond s. \<exists>n. PollImmediate lib interval timeout cond s = checks (Suc n) cond s)"

lemma RetryWithExponentialBackOff_checks:
  "backoff_doc lib \<Longrightarrow> RetryWithExponentialBackOff lib cond s = checks 6 cond s"
  by (cases s) (simp add: RetryWithExponentialBackOff_def backoff_doc_def retryBackoff_def)

text \<open>The errors an option list allows, and the errors that are tried again.\<close>

definition allowed :: "APICallOptions list \<Rightarrow> go_error \<Rightarrow> bool" where
  "allowed opts e \<longleftrightarrow> (\<exists>opt \<in> set opts. \<exists>p. shouldAllowError opt = Some p \<and> p e)"

definition transient :: "'s client_lib \<Rightarrow> APICallOptions list \<Rightarrow> go_error \<Rightarrow> bool" where
  "transient lib opts e \<longleftrightarrow> (\<exists>opt \<in> set opts. \<exists>p. shouldRetryError opt = Some p \<and> p e)
     \<or> IsRetryableAPIError lib e \<or> IsRetryableNetError lib e"

lemma matches_loop_iff [go_simps]: "matches_loop fs e \<longleftrightarrow> (\<exists>f \<in> set fs. f e)"
  by (induction fs) auto

lemma option_funcs_set:
  "set (fst (option_funcs opts (as, rs))) = set as \<union> {p. \<exists>opt \<in> set opts. shouldAllowError opt = Some p}"
  "set (snd (option_funcs opts (as, rs))) = set rs \<union> {p. \<exists>opt \<in> set opts. shouldRetryError opt = Some p}"
  by (induction opts arbitrary: as rs) (auto split: option.splits)

lemma RetryFunction_cases:
  "RetryFunction lib f opts s = (case f s of
      (s', None) \<Rightarrow> (s', True, None)
    | (s', Some e) \<Rightarrow> if allowed opts e then (s', True, None)
        else if transient lib opts e then (s', False, None) else (s', False, Some e))"
proof -
  let ?o = "option_funcs opts ([], [])"
  have "matches_loop (fst ?o) e \<longleftrightarrow> allowed opts e" for e
    by (auto simp: matches_loop_iff option_funcs_set allowed_def)
  moreover have "matches_loop (snd ?o) e \<or> IsRetryableAPIError lib e \<or> IsRetryableNetError lib e \<longleftrightarrow> transient lib opts e" for e
    by (auto simp: matches_loop_iff option_funcs_set transient_def)
  ultimately show ?thesis
    by (simp add: RetryFunction_def split_beta Let_def split: option.split) blast
qed

text \<open>
  A retried call reaches its goal when every attempt either does so or fails with a transient error
  that brings the server closer to an answer.
\<close>

lemma checks_reach:
  assumes "\<And>s s' ok err. I s \<Longrightarrow> cond s = (s', ok, err) \<Longrightarrow> err = None \<and> (if ok then Q s' else I s' \<and> m s' < m s)"
  shows "I s \<Longrightarrow> m s < n \<Longrightarrow> \<exists>s'. checks n cond s = (s', None) \<and> Q s'"
proof (induction n arbitrary: s)
  case (Suc n)
  obtain s' ok err where eq: "cond s = (s', ok, err)" by (metis prod_cases3)
  then have c: "cond s = (s', ok, None)" "if ok then Q s' else I s' \<and> m s' < m s"
    using assms [OF Suc.prems(1) eq] by simp_all
  show ?case
  proof (cases ok)
    case False
    then have "\<exists>s''. checks n cond s' = (s'', None) \<and> Q s''" using Suc.IH [of s'] Suc.prems(2) c(2) by simp
    then show ?thesis using c(1) False by simp
  qed (use c in simp)
qed simp

lemma transient_more: "transient lib [] e \<Longrightarrow> transient lib opts e"
  by (auto simp: transient_def)

text \<open>The shape of every call: allowed errors and successes reach the goal, other errors are transient.\<close>

lemma plain_retry_reach:
  fixes m :: "'s \<Rightarrow> nat"
  assumes lib: "backoff_doc lib" and m: "m s < 6" and I: "I s"
    and step: "\<And>s s' err. I s \<Longrightarrow> f s = (s', err) \<Longrightarrow> (case err of None \<Rightarrow> Q s'
       | Some e \<Rightarrow> if allowed opts e then Q s' else transient lib opts e \<and> I s' \<and> m s' < m s)"
  shows "\<exists>s' cap. RetryWithExponentialBackOff lib (RetryFunction lib (plain_call f) opts) (s, NoCapture) = ((s', cap), None)
    \<and> Q s'"
proof -
  have "\<exists>t. checks 6 (RetryFunction lib (plain_call f) opts) (s, NoCapture) = (t, None) \<and> Q (fst t)"
  proof (rule checks_reach [where I = "I \<circ> fst" and m = "m \<circ> fst"])
    fix t t' :: "'s \<times> captured" and ok err
    assume "(I \<circ> fst) t" and "RetryFunction lib (plain_call f) opts t = (t', ok, err)"
    then show "err = None \<and> (if ok then Q (fst t') else (I \<circ> fst) t' \<and> (m \<circ> fst) t' < (m \<circ> fst) t)"
      using step [of "fst t"]
      by (auto simp: RetryFunction_cases plain_call_def Let_def split: prod.splits option.splits if_splits)
  qed (use m I in simp_all)
  then show ?thesis by (auto simp: RetryWithExponentialBackOff_checks [OF lib])
qed

lemma checks_None: "checks n cond s = (s', None) \<Longrightarrow> \<exists>t. cond t = (s', True, None)"
  by (induction n arbitrary: s) (auto split: prod.splits if_splits)

text \<open>A relation every attempt keeps is kept by the whole call.\<close>

lemma checks_keep:
  assumes "\<And>s. R s (fst (cond s))" and "\<And>s. R s s" and "\<And>a b c. R a b \<Longrightarrow> R b c \<Longrightarrow> R a c"
  shows "R s (fst (checks n cond s))"
proof (induction n arbitrary: s)
  case (Suc n)
  show ?case using assms(1) [of s] Suc.IH [of "fst (cond s)"]
      assms(3) [of s "fst (cond s)" "fst (checks n cond (fst (cond s)))"]
    by (auto split: prod.splits)
qed (simp add: assms(2))

subsection \<open>The attempts of a call\<close>

primrec after_attempts :: "'s attempt \<Rightarrow> nat \<Rightarrow> 's call_state \<Rightarrow> 's call_state" where
  "after_attempts f 0 s = s"
| "after_attempts f (Suc n) s = after_attempts f n (fst (f s))"

definition attempt_error :: "'s attempt \<Rightarrow> 's call_state \<Rightarrow> nat \<Rightarrow> go_error option" where
  "attempt_error f s i = snd (f (after_attempts f i s))"

definition tried_again :: "'s client_lib \<Rightarrow> APICallOptions list \<Rightarrow> go_error option \<Rightarrow> bool" where
  "tried_again lib opts err \<longleftrightarrow> (case err of None \<Rightarrow> False | Some e \<Rightarrow> \<not> allowed opts e \<and> transient lib opts e)"

lemma attempt_error_Suc: "attempt_error f s (Suc i) = attempt_error f (fst (f s)) i"
  by (simp add: attempt_error_def)

lemma checks_RetryFunction:
  "checks (Suc n) (RetryFunction lib f opts) s =
     (if tried_again lib opts (attempt_error f s 0) then checks n (RetryFunction lib f opts) (fst (f s))
      else (fst (f s), case attempt_error f s 0 of None \<Rightarrow> None | Some e \<Rightarrow> if allowed opts e then None else Some e))"
  by (auto simp: RetryFunction_cases attempt_error_def tried_again_def split: prod.splits option.splits)

lemma checks_stop:
  "k < n \<Longrightarrow> \<forall>i < k. tried_again lib opts (attempt_error f s i) \<Longrightarrow> \<not> tried_again lib opts (attempt_error f s k) \<Longrightarrow>
     checks n (RetryFunction lib f opts) s = (after_attempts f (Suc k) s,
       case attempt_error f s k of None \<Rightarrow> None | Some e \<Rightarrow> if allowed opts e then None else Some e)"
proof (induction k arbitrary: n s)
  case 0
  then show ?case by (cases n) (simp_all add: checks_RetryFunction del: checks.simps)
next
  case (Suc k)
  then obtain n' where n: "n = Suc n'" by (cases n) auto
  have "tried_again lib opts (attempt_error f s 0)" using Suc.prems(2) by blast
  moreover have "\<forall>i < k. tried_again lib opts (attempt_error f (fst (f s)) i)"
    using Suc.prems(2) attempt_error_Suc by (metis Suc_less_eq)
  ultimately show ?case using Suc.IH [of n' "fst (f s)"] Suc.prems(1,3) n
    by (simp add: checks_RetryFunction attempt_error_Suc del: checks.simps)
qed

lemma checks_exhausted:
  "\<forall>i < n. tried_again lib opts (attempt_error f s i) \<Longrightarrow>
     checks n (RetryFunction lib f opts) s = (after_attempts f n s, Some ErrWaitTimeout)"
proof (induction n arbitrary: s)
  case (Suc n)
  have "tried_again lib opts (attempt_error f s 0)" using Suc.prems by blast
  moreover have "\<forall>i < n. tried_again lib opts (attempt_error f (fst (f s)) i)"
    using Suc.prems attempt_error_Suc by (metis Suc_less_eq)
  ultimately show ?case using Suc.IH [of "fst (f s)"] by (simp add: checks_RetryFunction del: checks.simps)
qed simp

text \<open>
  C20. A retried call makes at most six attempts. It stops at the first attempt whose error is not
  tried again, and then returns nil if the attempt succeeded or its error is one the options allow,
  and that error otherwise; allowing an error takes precedence over retrying it. When all six
  attempts fail with errors that are tried again it returns the timeout of the wait loop, not one of
  those errors. Hypothesis: the wait loop checks the condition as its library documents.
\<close>

theorem retried_call_outcome:
  assumes "backoff_doc lib"
  shows "RetryWithExponentialBackOff lib (RetryFunction lib f opts) s =
    (case find (\<lambda>i. \<not> tried_again lib opts (attempt_error f s i)) [0..<6] of
       Some k \<Rightarrow> (after_attempts f (Suc k) s,
         case attempt_error f s k of None \<Rightarrow> None | Some e \<Rightarrow> if allowed opts e then None else Some e)
     | None \<Rightarrow> (after_attempts f 6 s, Some ErrWaitTimeout))"
proof (cases "find (\<lambda>i. \<not> tried_again lib opts (attempt_error f s i)) [0..<6]")
  case None
  then have "\<forall>i < 6. tried_again lib opts (attempt_error f s i)" by (simp add: find_None_iff)
  then show ?thesis using None checks_exhausted RetryWithExponentialBackOff_checks [OF assms] by simp
next
  case (Some k)
  then obtain i where i: "i < 6" "k = [0..<6] ! i" "\<not> tried_again lib opts (attempt_error f s k)"
      "\<forall>j < i. tried_again lib opts (attempt_error f s ([0..<6] ! j))"
    by (auto simp: find_Some_iff)
  then have k: "k < 6" "\<forall>j < k. tried_again lib opts (attempt_error f s j)" by simp_all
  show ?thesis using checks_stop [OF k i(3)] Some RetryWithExponentialBackOff_checks [OF assms] by simp
qed

text \<open>
  A server that answers from a script, and the library with the documented wait loops; the document
  of an object is its kind and name, and a patch that changes them is refused.
\<close>

definition sample_lib :: "'s client_lib" where
  "sample_lib = \<lparr>IsInternalError = (\<lambda>e. e = ErrText ''internal''), IsTimeout = (\<lambda>_. False),
     IsServerTimeout = (\<lambda>_. False), IsTooManyRequests = (\<lambda>_. False), IsProbableEOF = (\<lambda>_. False),
     IsConnectionReset = (\<lambda>_. False), IsUnauthorized = (\<lambda>_. False),
     IsAlreadyExists = (\<lambda>e. e = ErrText ''already exists''), IsNotFound = (\<lambda>e. e = ErrText ''not found''),
     SuggestsClientDelay = (\<lambda>_. (0, False)), as_APIStatus = (\<lambda>_. None), as_net_Error = (\<lambda>_. None),
     ExponentialBackoff = (\<lambda>b. checks (bo_Steps b)), PollImmediate = (\<lambda>_ _. checks 3),
     namer_Name = (\<lambda>_ kind. to_lower kind @ ''s''),
     UnsafeGuessKindToResource = (\<lambda>gvk. WithResource gvk (to_lower (gvk_Kind gvk) @ ''s'')),
     SetName = (\<lambda>n obj. obj\<lparr>un_Object := AList.update ''name'' (VString n) (un_Object obj)\<rparr>),
     GetName = (\<lambda>obj. case map_of (un_Object obj) ''name'' of Some (VString n) \<Rightarrow> n | _ \<Rightarrow> []),
     MarshalJSON = (\<lambda>obj. Inr (gvk_Kind (un_GroupVersionKind obj) @ '' ''
       @ (case map_of (un_Object obj) ''name'' of Some (VString n) \<Rightarrow> n | _ \<Rightarrow> []))),
     CreateThreeWayJSONMergePatch = (\<lambda>_ modified current _.
       if modified = current then Inr ''{}'' else Inl (ErrText ''precondition failed''))\<rparr>"

lemma backoff_doc_sample: "backoff_doc sample_lib"
  by (simp add: backoff_doc_def sample_lib_def)

lemma poll_doc_sample: "poll_doc sample_lib"
  unfolding poll_doc_def
proof (intro allI)
  show "\<exists>n. PollImmediate sample_lib interval timeout cond s = checks (Suc n) cond s" for interval timeout cond s
    by (rule exI [of _ 2]) (simp add: sample_lib_def numeral_3_eq_3 numeral_2_eq_2 del: checks.simps)
qed

lemma mod3_decreases: "n mod 3 \<noteq> 0 \<Longrightarrow> (n - Suc 0) mod 3 < n mod 3" for n :: nat
  by (cases n) (simp_all add: mod_Suc split: if_splits)

lemma sample_codes:
  "transient sample_lib [] (ErrText ''internal'')" "\<not> IsAlreadyExists sample_lib (ErrText ''internal'')"
  "\<not> IsNotFound sample_lib (ErrText ''internal'')" "IsAlreadyExists sample_lib (ErrText ''already exists'')"
  "IsNotFound sample_lib (ErrText ''not found'')"
  by (simp_all add: transient_def IsRetryableAPIError_def sample_lib_def)

definition scripted :: "go_error option list attempt" where
  "scripted = plain_call (\<lambda>s. (tl s, hd s))"

theorem retried_call_outcome_witness:
  "RetryWithExponentialBackOff sample_lib
     (RetryFunction sample_lib scripted [Allow (IsAlreadyExists sample_lib)])
     ([Some (ErrText ''internal''), Some (ErrText ''already exists''), None], NoCapture) = (([None], NoCapture), None)"
  unfolding retried_call_outcome [OF backoff_doc_sample]
  by (simp add: scripted_def plain_call_def attempt_error_def tried_again_def allowed_def transient_def Allow_def
      IsRetryableAPIError_def isResourceQuotaConflictError_def IsRetryableNetError_def http2ClientConnectionLostErr_def
      sample_lib_def upt_rec)

end
