(* ===== verification/Framework.thy ===== *)
theory Framework
  imports Client
begin

text \<open>
  \<open>pkg/framework/framework.go\<close> and \<open>multiclient.go\<close>: the automanaged namespaces of a test and the
  objects it creates, through a set of clients that is used round robin. The framework and the
  cluster are the state \<open>'s fw\<close>. \<open>None\<close> as a result is a panic: the index of an empty client set.
  The goroutines that delete namespaces take one client call per step.
\<close>

record 'c multi_client =
  mc_clients :: "'c list"
  mc_current :: nat

subsection \<open>\<open>multiclient.go\<close>\<close>

text \<open>The loop that makes the clients; the check of \<open>number\<close> stands inside it.\<close>

fun new_clients_loop ::
    "string \<Rightarrow> (string \<Rightarrow> 'cfg result) \<Rightarrow> ('cfg \<Rightarrow> 'c result) \<Rightarrow> string \<Rightarrow> int \<Rightarrow> nat \<Rightarrow> 'c list \<Rightarrow> 'c list result" where
  "new_clients_loop what PrepareConfig NewForConfig path number 0 acc = Inr acc"
| "new_clients_loop what PrepareConfig NewForConfig path number (Suc left) acc = (case PrepareConfig path of
      Inl err \<Rightarrow> Inl (ErrText (''config prepare failed: '' @ Error err))
    | Inr conf \<Rightarrow>
        if number < 1 then Inl (ErrText ''incorrect clients number'')
        else (case NewForConfig conf of
            Inl err \<Rightarrow> Inl (ErrText (what @ Error err))
          | Inr c \<Rightarrow> new_clients_loop what PrepareConfig NewForConfig path number left (acc @ [c])))"

definition new_multi ::
    "string \<Rightarrow> (string \<Rightarrow> 'cfg result) \<Rightarrow> ('cfg \<Rightarrow> 'c result) \<Rightarrow> string \<Rightarrow> int \<Rightarrow> 'c multi_client result option" where
  "new_multi what PrepareConfig NewForConfig path number =
     (if number < 0 then None
      else Some (case new_clients_loop what PrepareConfig NewForConfig path number (nat number) [] of
          Inl err \<Rightarrow> Inl err
        | Inr cs \<Rightarrow> Inr \<lparr>mc_clients = cs, mc_current = 0\<rparr>))"

definition NewMultiClientSet ::
    "(string \<Rightarrow> 'cfg result) \<Rightarrow> ('cfg \<Rightarrow> 's clientset result) \<Rightarrow> string \<Rightarrow> int \<Rightarrow> 's clientset multi_client result option" where
  "NewMultiClientSet = new_multi ''creating clientset failed: ''"

definition NewMultiDynamicClient ::
    "(string \<Rightarrow> 'cfg result) \<Rightarrow> ('cfg \<Rightarrow> 's dynamic_client result) \<Rightarrow> string \<Rightarrow> int
       \<Rightarrow> 's dynamic_client multi_client result option" where
  "NewMultiDynamicClient = new_multi ''creating dynamic config failed: ''"

definition GetClient :: "'c multi_client \<Rightarrow> ('c \<times> 'c multi_client) option" where
  "GetClient m =
     (if length (mc_clients m) = 0 then None
      else (let current = (mc_current m + 1) mod length (mc_clients m)
            in Some (mc_clients m ! current, m\<lparr>mc_current := current\<rparr>)))"

subsection \<open>\<open>framework.go\<close>\<close>

record 's Framework =
  automanagedNamespacePrefix :: string
  automanagedNamespaces :: "(string, bool) go_map"
  clientSets :: "'s clientset multi_client"
  dynamicClients :: "'s dynamic_client multi_client"

type_synonym 's fw = "'s Framework \<times> 's"

definition newFramework ::
    "(string \<Rightarrow> 'cfg result) \<Rightarrow> ('cfg \<Rightarrow> 's clientset result) \<Rightarrow> ('cfg \<Rightarrow> 's dynamic_client result)
       \<Rightarrow> (string \<Rightarrow> 'cfg result) \<Rightarrow> ('cfg \<Rightarrow> go_error option) \<Rightarrow> int \<Rightarrow> string \<Rightarrow> 's Framework result option" where
  "newFramework PrepareConfig NewClientset NewDynamic GetConfig NewDiscovery clientsNumber kubeConfigPath =
     do { cs \<leftarrow> NewMultiClientSet PrepareConfig NewClientset kubeConfigPath clientsNumber;
          (case cs of
             Inl err \<Rightarrow> Some (Inl (ErrText (''multi client set creation error: '' @ Error err)))
           | Inr cs \<Rightarrow> do { ds \<leftarrow> NewMultiDynamicClient PrepareConfig NewDynamic kubeConfigPath clientsNumber;
               (case ds of
                  Inl err \<Rightarrow> Some (Inl (ErrText (''multi dynamic client creation error: '' @ Error err)))
                | Inr ds \<Rightarrow> (case GetConfig kubeConfigPath of
                    Inl err \<Rightarrow> Some (Inl (ErrText (''rest client creation error: '' @ Error err)))
                  | Inr cfg \<Rightarrow> (case NewDiscovery cfg of
                      Some err \<Rightarrow> Some (Inl (ErrText (''discovery client creation error: '' @ Error err)))
                    | None \<Rightarrow> Some (Inr \<lparr>automanagedNamespacePrefix = [], automanagedNamespaces = [],
                                       clientSets = cs, dynamicClients = ds\<rparr>)))) }) }"

definition GetAutomanagedNamespacePrefix :: "'s Framework \<Rightarrow> string" where
  "GetAutomanagedNamespacePrefix f = automanagedNamespacePrefix f"

definition SetAutomanagedNamespacePrefix :: "string \<Rightarrow> 's Framework \<Rightarrow> 's Framework" where
  "SetAutomanagedNamespacePrefix nsName f = f\<lparr>automanagedNamespacePrefix := nsName\<rparr>"

text \<open>\<open>f.clientSets.GetClient()\<close> and \<open>f.dynamicClients.GetClient()\<close>.\<close>

definition get_clientset :: "'s fw \<Rightarrow> ('s clientset \<times> 's fw) option" where
  "get_clientset w = do { (c, m) \<leftarrow> GetClient (clientSets (fst w)); Some (c, (fst w)\<lparr>clientSets := m\<rparr>, snd w) }"

definition get_dynamic :: "'s fw \<Rightarrow> ('s dynamic_client \<times> 's fw) option" where
  "get_dynamic w = do { (c, m) \<leftarrow> GetClient (dynamicClients (fst w)); Some (c, (fst w)\<lparr>dynamicClients := m\<rparr>, snd w) }"

definition automanaged_name :: "'s Framework \<Rightarrow> int \<Rightarrow> string" where
  "automanaged_name f i = automanagedNamespacePrefix f @ ''-'' @ itoa i"

fun create_namespaces_loop ::
    "'s client_lib \<Rightarrow> string set \<Rightarrow> bool \<Rightarrow> bool \<Rightarrow> int list \<Rightarrow> 's fw \<Rightarrow> ('s fw \<times> go_error option) option" where
  "create_namespaces_loop lib existing allowExisting del [] w = Some (w, None)"
| "create_namespaces_loop lib existing allowExisting del (i # is) w =
     (let name = automanaged_name (fst w) i;
          record_and_go_on = (\<lambda>(f, s). create_namespaces_loop lib existing allowExisting del is
             (f\<lparr>automanagedNamespaces := AList.update name del (automanagedNamespaces f)\<rparr>, s))
      in if name \<notin> existing
         then do { (c, f, s) \<leftarrow> get_clientset w;
                   (case CreateNamespace lib c name s of
                      (s', Some err) \<Rightarrow> Some ((f, s'), Some err)
                    | (s', None) \<Rightarrow> record_and_go_on (f, s')) }
         else if \<not> allowExisting
              then Some (w, Some (ErrText (''automanaged namespace '' @ name @ '' already created'')))
              else record_and_go_on w)"

definition CreateAutomanagedNamespaces ::
    "'s client_lib \<Rightarrow> int \<Rightarrow> bool \<Rightarrow> bool \<Rightarrow> 's fw \<Rightarrow> ('s fw \<times> go_error option) option" where
  "CreateAutomanagedNamespaces lib namespaceCount allowExistingNamespaces deleteAutomanaged w =
     do { (c, f, s) \<leftarrow> get_clientset w;
          (case ListNamespaces lib c s of
             (s', nss, Some err) \<Rightarrow> Some ((f, s'), Some err)
           | (s', nss, None) \<Rightarrow> create_namespaces_loop lib (set nss) allowExistingNamespaces deleteAutomanaged
                                  [1..namespaceCount] (f, s')) }"

text \<open>
  \<open>namespaceID\<close> is \<open>^test-[a-z0-9]+-[0-9]+$\<close>. None of its classes holds a hyphen, so a name matches
  when its parts between hyphens are \<open>test\<close>, a part of the first and a part of the second class.
\<close>

definition is_lower_or_digit :: "char \<Rightarrow> bool" where
  "is_lower_or_digit c \<longleftrightarrow> is_digit c \<or> (97 \<le> (of_char c :: nat) \<and> (of_char c :: nat) \<le> 122)"

definition namespaceID :: "string \<Rightarrow> bool" where
  "namespaceID name = (case str_split CHR ''-'' name of
      [t, a, d] \<Rightarrow> t = ''test'' \<and> a \<noteq> [] \<and> list_all is_lower_or_digit a \<and> d \<noteq> [] \<and> list_all is_digit d
    | _ \<Rightarrow> False)"

definition getAutomanagedNamespaces :: "'s Framework \<Rightarrow> (string, bool) go_map" where
  "getAutomanagedNamespaces f = foldl (\<lambda>m (k, v). AList.update k v m) [] (automanagedNamespaces f)"

definition isStaleAutomanagedNamespace :: "'s Framework \<Rightarrow> string \<Rightarrow> bool" where
  "isStaleAutomanagedNamespace f name =
     (if namespaceID name then map_of (getAutomanagedNamespaces f) name = None else False)"

definition isAutomanagedNamespaceCurrentPrefix ::
    "(string \<Rightarrow> string \<Rightarrow> bool result) \<Rightarrow> 's Framework \<Rightarrow> string \<Rightarrow> bool result" where
  "isAutomanagedNamespaceCurrentPrefix MatchString f name =
     MatchString (automanagedNamespacePrefix f @ ''-[1-9][0-9]*'') name"

fun list_automanaged_loop ::
    "(string \<Rightarrow> string \<Rightarrow> bool result) \<Rightarrow> 's Framework \<Rightarrow> string list \<Rightarrow> string list \<Rightarrow> string list
       \<Rightarrow> string list \<times> string list \<times> go_error option" where
  "list_automanaged_loop MatchString f [] cur stale = (cur, stale, None)"
| "list_automanaged_loop MatchString f (ns # nss) cur stale =
     (case isAutomanagedNamespaceCurrentPrefix MatchString f ns of
        Inl err \<Rightarrow> (cur, stale, Some err)
      | Inr True \<Rightarrow> list_automanaged_loop MatchString f nss (cur @ [ns]) stale
      | Inr False \<Rightarrow> list_automanaged_loop MatchString f nss cur
          (if isStaleAutomanagedNamespace f ns then stale @ [ns] else stale))"

definition ListAutomanagedNamespaces ::
    "'s client_lib \<Rightarrow> (string \<Rightarrow> string \<Rightarrow> bool result) \<Rightarrow> 's fw
       \<Rightarrow> ('s fw \<times> string list \<times> string list \<times> go_error option) option" where
  "ListAutomanagedNamespaces lib MatchString w =
     do { (c, f, s) \<leftarrow> get_clientset w;
          (case ListNamespaces lib c s of
             (s', nss, Some err) \<Rightarrow> Some ((f, s'), [], [], Some err)
           | (s', nss, None) \<Rightarrow> Some ((f, s'), list_automanaged_loop MatchString f nss [] [])) }"

definition removeAutomanagedNamespace :: "string \<Rightarrow> 's Framework \<Rightarrow> 's Framework" where
  "removeAutomanagedNamespace namespace f =
     f\<lparr>automanagedNamespaces := AList.delete namespace (automanagedNamespaces f)\<rparr>"

text \<open>
  \<open>deleteNamespace\<close> in a goroutine: the request, then the wait, which ends with the removal. The
  shared state is lost (\<open>None\<close>) when a goroutine panics.
\<close>

datatype 's delete_thread =
    DeleteRequest string
  | DeleteWait "'s clientset" string
  | DeleteDone

fun delete_step ::
    "'s client_lib \<Rightarrow> duration \<Rightarrow> 's delete_thread \<Rightarrow> ('s fw \<times> ErrorList) option
       \<Rightarrow> 's delete_thread \<times> ('s fw \<times> ErrorList) option" where
  "delete_step lib timeout th None = (DeleteDone, None)"
| "delete_step lib timeout (DeleteRequest ns) (Some (w, errs)) = (case get_clientset w of
      None \<Rightarrow> (DeleteDone, None)
    | Some (c, f, s) \<Rightarrow> (case DeleteNamespace lib c ns s of
        (s', Some err) \<Rightarrow> (DeleteDone, Some ((f, s'), ErrorList_Append errs [err]))
      | (s', None) \<Rightarrow> (DeleteWait c ns, Some ((f, s'), errs))))"
| "delete_step lib timeout (DeleteWait c ns) (Some ((f, s), errs)) =
     (case WaitForDeleteNamespace lib c ns timeout s of
        (s', Some err) \<Rightarrow> (DeleteDone, Some ((f, s'), ErrorList_Append errs [err]))
      | (s', None) \<Rightarrow> (DeleteDone, Some ((removeAutomanagedNamespace ns f, s'), errs)))"
| "delete_step lib timeout DeleteDone s = (DeleteDone, s)"

fun delete_rank :: "'s delete_thread \<Rightarrow> nat" where
  "delete_rank (DeleteRequest _) = 2"
| "delete_rank (DeleteWait _ _) = 1"
| "delete_rank DeleteDone = 0"

definition DeleteNamespaces ::
    "'s client_lib \<Rightarrow> nat list \<Rightarrow> string list \<Rightarrow> duration \<Rightarrow> 's fw \<Rightarrow> ('s fw \<times> ErrorList) option" where
  "DeleteNamespaces lib sched namespaces timeout w =
     snd (wait_group (delete_step lib timeout) delete_rank sched (map DeleteRequest namespaces)
       (Some (w, NewErrorList [])))"

definition DeleteAutomanagedNamespaces ::
    "'s client_lib \<Rightarrow> nat list \<Rightarrow> duration \<Rightarrow> 's fw \<Rightarrow> ('s fw \<times> ErrorList) option" where
  "DeleteAutomanagedNamespaces lib sched timeout w =
     snd (wait_group (delete_step lib timeout) delete_rank sched
       (map (\<lambda>(ns, shouldBeDeleted). DeleteRequest ns)
          (filter (\<lambda>(ns, shouldBeDeleted). shouldBeDeleted) (getAutomanagedNamespaces (fst w))))
       (Some (w, NewErrorList [])))"

subsection \<open>Objects\<close>

definition Framework_CreateObject ::
    "'s client_lib \<Rightarrow> string \<Rightarrow> string \<Rightarrow> Unstructured \<Rightarrow> APICallOptions list \<Rightarrow> 's fw \<Rightarrow> ('s fw \<times> go_error option) option" where
  "Framework_CreateObject lib namespace name obj opts w =
     do { (c, f, s) \<leftarrow> get_dynamic w;
          let (s', err) = client_CreateObject lib c namespace name obj opts s;
          Some ((f, s'), err) }"

text \<open>The other three drop the options they are called with.\<close>

definition Framework_PatchObject ::
    "'s client_lib \<Rightarrow> string \<Rightarrow> string \<Rightarrow> Unstructured \<Rightarrow> APICallOptions list \<Rightarrow> 's fw \<Rightarrow> ('s fw \<times> go_error option) option" where
  "Framework_PatchObject lib namespace name obj opts w =
     do { (c, f, s) \<leftarrow> get_dynamic w;
          let (s', err) = client_PatchObject lib c namespace name obj [] s;
          Some ((f, s'), err) }"

definition Framework_DeleteObject ::
    "'s client_lib \<Rightarrow> GroupVersionKind \<Rightarrow> string \<Rightarrow> string \<Rightarrow> APICallOptions list \<Rightarrow> 's fw \<Rightarrow> ('s fw \<times> go_error option) option" where
  "Framework_DeleteObject lib gvk namespace name opts w =
     do { (c, f, s) \<leftarrow> get_dynamic w;
          let (s', err) = client_DeleteObject lib c gvk namespace name [] s;
          Some ((f, s'), err) }"

definition Framework_GetObject ::
    "'s client_lib \<Rightarrow> GroupVersionKind \<Rightarrow> string \<Rightarrow> string \<Rightarrow> APICallOptions list \<Rightarrow> 's fw \<Rightarrow> ('s fw \<times> captured result) option" where
  "Framework_GetObject lib gvk namespace name opts w =
     do { (c, f, s) \<leftarrow> get_dynamic w;
          let (s', res) = client_GetObject lib c gvk namespace name [] s;
          Some ((f, s'), res) }"

text \<open>\<open>ApplyTemplatedManifests\<close>: the file system, the template provider and lists of objects.\<close>

record manifest_env =
  fs_Glob :: "string \<Rightarrow> string list result"
  mf_TemplateToObject :: "string \<Rightarrow> params \<Rightarrow> Unstructured result"
  IsList :: "Unstructured \<Rightarrow> bool"
  ToList :: "Unstructured \<Rightarrow> Unstructured list result"
  GetNamespace :: "Unstructured \<Rightarrow> string"

fun apply_items ::
    "'s client_lib \<Rightarrow> manifest_env \<Rightarrow> string \<Rightarrow> APICallOptions list \<Rightarrow> Unstructured list \<Rightarrow> 's fw
       \<Rightarrow> ('s fw \<times> go_error option) option" where
  "apply_items lib env manifest opts [] w = Some (w, None)"
| "apply_items lib env manifest opts (item # items) w =
     do { (w', err) \<leftarrow> Framework_CreateObject lib (GetNamespace env item) (GetName lib item) item opts w;
          (case err of
             Some e \<Rightarrow> Some (w', Some (ErrText (''error while applying ('' @ manifest @ ''): '' @ Error e)))
           | None \<Rightarrow> apply_items lib env manifest opts items w') }"

fun apply_manifests ::
    "'s client_lib \<Rightarrow> manifest_env \<Rightarrow> params \<Rightarrow> APICallOptions list \<Rightarrow> string list \<Rightarrow> 's fw
       \<Rightarrow> ('s fw \<times> go_error option) option" where
  "apply_manifests lib env mapping opts [] w = Some (w, None)"
| "apply_manifests lib env mapping opts (manifest # manifests) w =
     (case mf_TemplateToObject env manifest mapping of
        Inl err \<Rightarrow> if err = ErrorEmptyFile then apply_manifests lib env mapping opts manifests w
          else Some (w, Some (ErrText (''TemplateToObject error: '' @ Error err)))
      | Inr obj \<Rightarrow> (case (if IsList env obj then ToList env obj else Inr [obj]) of
          Inl err \<Rightarrow> Some (w, Some err)
        | Inr items \<Rightarrow> do { (w', err) \<leftarrow> apply_items lib env manifest opts items w;
            (case err of Some e \<Rightarrow> Some (w', Some e)
             | None \<Rightarrow> apply_manifests lib env mapping opts manifests w') }))"

definition ApplyTemplatedManifests ::
    "'s client_lib \<Rightarrow> manifest_env \<Rightarrow> string \<Rightarrow> params \<Rightarrow> APICallOptions list \<Rightarrow> 's fw \<Rightarrow> ('s fw \<times> go_error option) option" where
  "ApplyTemplatedManifests lib env manifestGlob mapping opts w = (case fs_Glob env manifestGlob of
      Inl err \<Rightarrow> Some (w, Some err)
    | Inr manifests \<Rightarrow> apply_manifests lib env mapping opts manifests w)"

subsection \<open>Round robin\<close>

primrec get_clients :: "nat \<Rightarrow> 'c multi_client \<Rightarrow> ('c list \<times> 'c multi_client) option" where
  "get_clients 0 m = Some ([], m)"
| "get_clients (Suc k) m = do { (c, m1) \<leftarrow> GetClient m; (cs, m2) \<leftarrow> get_clients k m1; Some (c # cs, m2) }"

lemma get_clients_nth:
  assumes "mc_clients m \<noteq> []"
  shows "get_clients k m = Some (map (\<lambda>i. mc_clients m ! ((mc_current m + 1 + i) mod length (mc_clients m))) [0..<k],
    if k = 0 then m else m\<lparr>mc_current := (mc_current m + k) mod length (mc_clients m)\<rparr>)"
  using assms
proof (induction k arbitrary: m)
  case (Suc k)
  let ?n = "length (mc_clients m)" and ?m = "m\<lparr>mc_current := (mc_current m + 1) mod length (mc_clients m)\<rparr>"
  have step: "Suc (Suc c mod n + x) mod n = Suc (Suc (c + x)) mod n" for c n x :: nat
    by (metis add_Suc mod_Suc_eq mod_add_left_eq)
  have "map (\<lambda>i. mc_clients m ! (((mc_current m + 1) mod ?n + 1 + i) mod ?n)) [0..<k] =
        map (\<lambda>i. mc_clients m ! ((mc_current m + 1 + i) mod ?n)) (map Suc [0..<k])"
    by (simp add: step comp_def)
  moreover have "((mc_current m + 1) mod ?n + k) mod ?n = (mc_current m + Suc k) mod ?n" by (simp add: mod_simps)
  ultimately show ?case
    using Suc.IH [of ?m] Suc.prems
    by (cases "k = 0") (simp_all add: GetClient_def Let_def map_Suc_upt upt_conv_Cons del: upt_Suc)
qed simp

text \<open>
  The clients of a set are used in turn: as many calls of \<open>GetClient\<close> as there are clients give
  each of them exactly once, in the order of the set from the one after the current, and leave the
  set as it was.
\<close>

theorem GetClient_round_robin:
  assumes "mc_clients m \<noteq> []" and "mc_current m < length (mc_clients m)"
  shows "get_clients (length (mc_clients m)) m = Some (rotate (mc_current m + 1) (mc_clients m), m)"
proof -
  let ?n = "length (mc_clients m)"
  have "map (\<lambda>i. mc_clients m ! ((mc_current m + 1 + i) mod ?n)) [0..<?n] = rotate (mc_current m + 1) (mc_clients m)"
    by (rule nth_equalityI) (simp_all add: nth_rotate del: rotate_Suc)
  moreover have "(mc_current m + ?n) mod ?n = mc_current m" using assms(2) by simp
  ultimately show ?thesis using get_clients_nth [OF assms(1), of ?n] assms(1) by simp
qed

theorem GetClient_round_robin_witness:
  "get_clients 3 \<lparr>mc_clients = [''a'', ''b'', ''c''], mc_current = 0\<rparr> =
     Some ([''b'', ''c'', ''a''], \<lparr>mc_clients = [''a'', ''b'', ''c''], mc_current = 0\<rparr>)"
  using GetClient_round_robin [of "\<lparr>mc_clients = [''a'', ''b'', ''c''], mc_current = 0\<rparr>"]
  by (simp add: numeral_3_eq_3 del: get_clients.simps)

lemma new_clients_loop_error:
  assumes "hd what = CHR ''c''" and "what \<noteq> []" and "left = 0 \<or> 1 \<le> number"
  shows "new_clients_loop what prep newc path number left acc \<noteq> Inl (ErrText ''incorrect clients number'')"
  using assms(3)
proof (induction left arbitrary: acc)
  case (Suc left)
  then show ?case using assms(1,2) by (cases what) (auto split: sum.splits)
qed simp

text \<open>
  C22. Asking for no client at all is not refused: the check of the number stands inside the loop
  that runs that many times, so it is never reached. For zero clients an empty set is returned,
  and the first use of it panics.
\<close>

theorem clients_number_never_refused:
  "NewMultiClientSet prep newc path number \<noteq> Some (Inl (ErrText ''incorrect clients number''))
   \<and> (\<exists>m. NewMultiClientSet prep newc path 0 = Some (Inr m) \<and> GetClient m = None)"
proof
  have number: "nat number = 0 \<or> 1 \<le> number" by linarith
  show "NewMultiClientSet prep newc path number \<noteq> Some (Inl (ErrText ''incorrect clients number''))"
    using new_clients_loop_error [of "''creating clientset failed: ''" "nat number" number prep newc path "[]"]
      number by (auto simp: NewMultiClientSet_def new_multi_def split: sum.splits)
qed (simp add: NewMultiClientSet_def new_multi_def GetClient_def)


end
