(* ===== verification/Phase_Threads.thy ===== *)
theory Phase_Threads
  imports Phases
begin

text \<open>
  The goroutines of a phase. \<open>client_ok\<close> is what a phase relies on in its client; every thread
  finishes (\<open>run_threads_done\<close>), and under any schedule the threads leave exactly the target set
  of objects (\<open>run_threads_target\<close>), by an invariant over the atomic steps.
\<close>

subsection \<open>What a phase relies on\<close>

type_synonym obj_key = "GroupVersionKind \<times> string \<times> string"

definition replica_key :: "(Object \<Rightarrow> GroupVersionKind) \<Rightarrow> Object \<Rightarrow> string \<Rightarrow> int \<Rightarrow> obj_key" where
  "replica_key kind ob ns i = (kind ob, ns, objName ob i)"

text \<open>
  The templates of the bundle give objects of a fixed kind; creating an object makes it present,
  deleting it makes it absent, and patching an object that is present succeeds. The objects created
  and patched are those the templates give (\<open>built\<close>).
\<close>

definition built :: "'c phase_env \<Rightarrow> Object set \<Rightarrow> Unstructured \<Rightarrow> bool" where
  "built env obs r \<longleftrightarrow> (\<exists>ob \<in> obs. \<exists>m. TemplateToObject env (obj_ObjectTemplatePath ob) m = Inr r)"

definition client_ok ::
    "'c phase_env \<Rightarrow> Object set \<Rightarrow> (Object \<Rightarrow> GroupVersionKind) \<Rightarrow> ('c \<Rightarrow> obj_key set) \<Rightarrow> bool" where
  "client_ok env obs kind present \<longleftrightarrow>
     (\<forall>ob \<in> obs. \<exists>raw. RawToObject env (obj_ObjectTemplatePath ob) = Inr raw \<and> un_GroupVersionKind raw = kind ob)
   \<and> (\<forall>ob \<in> obs. \<forall>m. \<exists>r. TemplateToObject env (obj_ObjectTemplatePath ob) m = Inr r \<and> un_GroupVersionKind r = kind ob)
   \<and> (\<forall>ns name r c. built env obs r \<longrightarrow> (\<exists>c'. fw_CreateObject env ns name r c = (c', None)
        \<and> present c' = insert (un_GroupVersionKind r, ns, name) (present c)))
   \<and> (\<forall>k \<in> kind ` obs. \<forall>ns name c. \<exists>c'. fw_DeleteObject env k ns name c = (c', None)
        \<and> present c' = present c - {(k, ns, name)})
   \<and> (\<forall>ns name r c. built env obs r \<and> (un_GroupVersionKind r, ns, name) \<in> present c \<longrightarrow>
        (\<exists>c'. fw_PatchObject env ns name r c = (c', None) \<and> present c' = present c))"

lemma client_ok_raw:
  "client_ok env obs kind present \<Longrightarrow> ob \<in> obs \<Longrightarrow>
     \<exists>raw. RawToObject env (obj_ObjectTemplatePath ob) = Inr raw \<and> un_GroupVersionKind raw = kind ob"
  unfolding client_ok_def by (elim conjE) (erule (1) bspec)

lemma client_ok_template:
  "client_ok env obs kind present \<Longrightarrow> ob \<in> obs \<Longrightarrow>
     \<exists>r. TemplateToObject env (obj_ObjectTemplatePath ob) m = Inr r \<and> un_GroupVersionKind r = kind ob"
  unfolding client_ok_def by (elim conjE) (drule (1) bspec, erule spec)

lemma client_ok_create:
  "client_ok env obs kind present \<Longrightarrow> built env obs r \<Longrightarrow> \<exists>c'. fw_CreateObject env ns name r c = (c', None)
     \<and> present c' = insert (un_GroupVersionKind r, ns, name) (present c)"
  unfolding client_ok_def by (elim conjE) simp

lemma client_ok_delete:
  "client_ok env obs kind present \<Longrightarrow> k \<in> kind ` obs \<Longrightarrow> \<exists>c'. fw_DeleteObject env k ns name c = (c', None)
     \<and> present c' = present c - {(k, ns, name)}"
  unfolding client_ok_def by (elim conjE) (drule bspec [where x = k], assumption, simp)

lemma client_ok_patch:
  "client_ok env obs kind present \<Longrightarrow> built env obs r \<Longrightarrow>
     (un_GroupVersionKind r, ns, name) \<in> present c \<Longrightarrow>
     \<exists>c'. fw_PatchObject env ns name r c = (c', None) \<and> present c' = present c"
  unfolding client_ok_def by (elim conjE) simp

lemma ExecuteObject_create:
  assumes "client_ok env obs kind present" and "ob \<in> obs"
  shows "\<exists>c'. ExecuteObject env ob ns i createObject c = (c', NewErrorList [])
           \<and> present c' = insert (replica_key kind ob ns i) (present c)"
proof -
  obtain r where r: "TemplateToObject env (obj_ObjectTemplatePath ob) (object_mapping env ob ns i) = Inr r"
      "un_GroupVersionKind r = kind ob"
    using client_ok_template [OF assms] by metis
  have "built env obs r" using r(1) assms(2) by (auto simp: built_def)
  then obtain c' where "fw_CreateObject env ns (objName ob i) r c = (c', None)"
      "present c' = insert (un_GroupVersionKind r, ns, objName ob i) (present c)"
    using client_ok_create [OF assms(1)] by metis
  then show ?thesis by (simp add: ExecuteObject_def r call_error_def replica_key_def)
qed

lemma ExecuteObject_delete:
  assumes "client_ok env obs kind present" and "ob \<in> obs"
  shows "\<exists>c'. ExecuteObject env ob ns i deleteObject c = (c', NewErrorList [])
           \<and> present c' = present c - {replica_key kind ob ns i}"
proof -
  obtain r where r: "RawToObject env (obj_ObjectTemplatePath ob) = Inr r" "un_GroupVersionKind r = kind ob"
    using client_ok_raw [OF assms] by metis
  obtain c' where "fw_DeleteObject env (un_GroupVersionKind r) ns (objName ob i) c = (c', None)"
      "present c' = present c - {(un_GroupVersionKind r, ns, objName ob i)}"
    using client_ok_delete [OF assms(1)] r(2) assms(2) by (metis imageI)
  then show ?thesis by (simp add: ExecuteObject_def r call_error_def replica_key_def)
qed

lemma ExecuteObject_patch:
  assumes "client_ok env obs kind present" and "ob \<in> obs" and "replica_key kind ob ns i \<in> present c"
  shows "\<exists>c'. ExecuteObject env ob ns i patchObject c = (c', NewErrorList []) \<and> present c' = present c"
proof -
  obtain r where r: "TemplateToObject env (obj_ObjectTemplatePath ob) (object_mapping env ob ns i) = Inr r"
      "un_GroupVersionKind r = kind ob"
    using client_ok_template [OF assms(1,2)] by metis
  have "(un_GroupVersionKind r, ns, objName ob i) \<in> present c"
    using assms(3) r(2) by (simp add: replica_key_def)
  moreover have "built env obs r" using r(1) assms(2) by (auto simp: built_def)
  ultimately obtain c' where "fw_PatchObject env ns (objName ob i) r c = (c', None)" "present c' = present c"
    using client_ok_patch [OF assms(1)] by metis
  then show ?thesis by (simp add: ExecuteObject_def r call_error_def)
qed

subsection \<open>Every thread finishes\<close>

interpretation phase_threads: goroutines "thread_step env heap" "\<lambda>th. length (th_todo th)"
  for env :: "'c phase_env" and heap
  by unfold_locales (auto simp: thread_step_def Let_def split: prod.splits list.splits)

subsection \<open>The effect of the threads, in any order\<close>

definition thread_keys :: "(Object \<Rightarrow> GroupVersionKind) \<Rightarrow> thread \<Rightarrow> obj_key set" where
  "thread_keys kind th = (\<lambda>(ob, p). replica_key kind ob (th_ns th) (th_index th)) ` set (th_todo th)"

definition op_keys :: "(Object \<Rightarrow> GroupVersionKind) \<Rightarrow> OperationType \<Rightarrow> thread list \<Rightarrow> obj_key set" where
  "op_keys kind oper ths = \<Union> (thread_keys kind ` {th \<in> set ths. th_op th = oper})"

definition thread_ok :: "InstancesState list \<Rightarrow> Object set \<Rightarrow> thread \<Rightarrow> bool" where
  "thread_ok heap obs th \<longleftrightarrow> (\<forall>(ob, p) \<in> set (th_todo th). ob \<in> obs
     \<and> (th_op th = deleteObject \<longrightarrow> th_index th < CurrentReplicaCount (heap ! p)))"

text \<open>
  What is present, less what is still to be deleted, with what is still to be created, is the
  target throughout.
\<close>

definition threads_inv ::
    "InstancesState list \<Rightarrow> Object set \<Rightarrow> (Object \<Rightarrow> GroupVersionKind) \<Rightarrow> ('c \<Rightarrow> obj_key set) \<Rightarrow> obj_key set
       \<Rightarrow> thread list \<Rightarrow> 'c \<times> ErrorList \<Rightarrow> bool" where
  "threads_inv heap obs kind present target ths s \<longleftrightarrow>
     (\<forall>th \<in> set ths. thread_ok heap obs th) \<and> snd s = NewErrorList []
     \<and> (present (fst s) - op_keys kind deleteObject ths) \<union> op_keys kind createObject ths = target
     \<and> op_keys kind createObject ths \<inter> op_keys kind deleteObject ths = {}
     \<and> op_keys kind patchObject ths \<inter> op_keys kind deleteObject ths = {}
     \<and> op_keys kind patchObject ths \<subseteq> present (fst s)"

lemma op_keys_simps [simp]:
  "op_keys kind oper [] = {}"
  "op_keys kind oper (th # ths) = (if th_op th = oper then thread_keys kind th else {}) \<union> op_keys kind oper ths"
  "op_keys kind oper (xs @ ys) = op_keys kind oper xs \<union> op_keys kind oper ys"
  by (auto simp: op_keys_def)

lemma op_keys_update:
  assumes "i < length ths" and "th_op th = th_op (ths ! i)"
    and "thread_keys kind (ths ! i) = insert k (thread_keys kind th)"
  shows "op_keys kind oper ths =
    (if th_op th = oper then insert k (op_keys kind oper (ths[i := th])) else op_keys kind oper (ths[i := th]))"
proof -
  have "op_keys kind oper ths = op_keys kind oper (take i ths @ ths ! i # drop (Suc i) ths)"
    using id_take_nth_drop [OF assms(1)] by simp
  moreover have "op_keys kind oper (ths[i := th]) = op_keys kind oper (take i ths @ th # drop (Suc i) ths)"
    using upd_conv_take_nth_drop [OF assms(1)] by simp
  ultimately show ?thesis using assms(2,3) by auto
qed

lemma threads_inv_step:
  assumes ok: "client_ok env obs kind present" and inv: "threads_inv heap obs kind present target ths s"
    and i: "i < length ths"
  shows "threads_inv heap obs kind present target
           (ths[i := fst (thread_step env heap (ths ! i) s)]) (snd (thread_step env heap (ths ! i) s))"
proof (cases "th_todo (ths ! i)")
  case Nil
  then have "thread_step env heap (ths ! i) s = (ths ! i, s)" by (simp add: thread_step_def split_beta)
  then show ?thesis using inv by simp
next
  case (Cons todo rest)
  obtain ob p where todo: "todo = (ob, p)" by (cases todo)
  obtain c errs where s: "s = (c, errs)" by (cases s)
  let ?th = "ths ! i" and ?th' = "(ths ! i)\<lparr>th_todo := rest\<rparr>"
  let ?k = "replica_key kind ob (th_ns ?th) (th_index ?th)"
  have oki: "thread_ok heap obs ?th" using inv i by (simp add: threads_inv_def)
  then have ob: "ob \<in> obs" and del: "th_op ?th = deleteObject \<Longrightarrow> th_index ?th < CurrentReplicaCount (heap ! p)"
    and ok': "thread_ok heap obs ?th'"
    by (auto simp: thread_ok_def Cons todo)
  have keys: "thread_keys kind ?th = insert ?k (thread_keys kind ?th')"
    by (simp add: thread_keys_def Cons todo)
  note upd = op_keys_update [OF i _ keys, simplified]
  have all_ok: "\<forall>th \<in> set (ths[i := ?th']). thread_ok heap obs th"
    using inv ok' set_update_subset_insert [of ths i ?th'] by (auto simp: threads_inv_def)
  have step: "thread_step env heap ?th s = (?th', c', errs)"
    if "ExecuteObject env ob (th_ns ?th) (th_index ?th) (th_op ?th) c = (c', NewErrorList [])" for c'
    using that del by (auto simp: thread_step_def s Cons todo ErrorList_IsEmpty_def)
  show ?thesis
  proof (cases "th_op ?th")
    case createObject
    then obtain c' where "thread_step env heap ?th s = (?th', c', errs)" "present c' = insert ?k (present c)"
      using ExecuteObject_create [OF ok ob] step by metis
    then show ?thesis using inv all_ok upd createObject unfolding threads_inv_def s by auto
  next
    case patchObject
    then have "?k \<in> present c" using inv upd [of patchObject] by (simp add: threads_inv_def s)
    then obtain c' where "thread_step env heap ?th s = (?th', c', errs)" "present c' = present c"
      using ExecuteObject_patch [OF ok ob] step patchObject by metis
    then show ?thesis using inv all_ok upd patchObject unfolding threads_inv_def s by auto
  next
    case deleteObject
    then obtain c' where "thread_step env heap ?th s = (?th', c', errs)" "present c' = present c - {?k}"
      using ExecuteObject_delete [OF ok ob] step by metis
    then show ?thesis using inv all_ok upd deleteObject unfolding threads_inv_def s by auto
  qed
qed

lemma op_keys_done: "(\<And>th. th \<in> set ths \<Longrightarrow> th_todo th = []) \<Longrightarrow> op_keys kind oper ths = {}"
  by (auto simp: op_keys_def thread_keys_def)

text \<open>Every schedule ends with exactly the target present, and without an error.\<close>

lemma run_threads_target:
  assumes "client_ok env obs kind present"
    and "threads_inv heap obs kind present target ths s"
    and "run_threads env heap sched ths s = (ths', c, errs)"
  shows "present c = target" "errs = NewErrorList []"
proof -
  note res = phase_threads.wait_group_result [OF assms(3) [unfolded run_threads_def],
      of "threads_inv heap obs kind present target", OF assms(2) threads_inv_step [OF assms(1)]]
  have "th \<in> set ths' \<Longrightarrow> th_todo th = []" for th using res(2) by simp
  then show "present c = target" "errs = NewErrorList []"
    using res(1) by (simp_all add: threads_inv_def op_keys_done)
qed

end
