(* ===== verification/Phase_State.thy ===== *)
theory Phase_State
  imports Phase_Threads
begin

text \<open>
  The recorded state of a phase. \<open>inst\<close> is the abstract view of the shared heap: what the namespaces
  state says of an object in a namespace. The lemmas describe the loop over the bundle, the loop
  over the namespaces and the deferred updates through this view.
\<close>

subsection \<open>The recorded state\<close>

definition ptr_of :: "'c exec_state \<Rightarrow> string \<Rightarrow> InstancesIdentifier \<Rightarrow> nat option" where
  "ptr_of st ns i = NamespacesState_Get (ex_namespaces st) ns i"

definition inst :: "'c exec_state \<Rightarrow> string \<Rightarrow> InstancesIdentifier \<Rightarrow> InstancesState option" where
  "inst st ns i = map_option ((!) (ex_heap st)) (ptr_of st ns i)"

text \<open>Pointers are allocated, and no two entries share one.\<close>

definition exec_wf :: "'c exec_state \<Rightarrow> bool" where
  "exec_wf st \<longleftrightarrow> (\<forall>ns i p. ptr_of st ns i = Some p \<longrightarrow> p < length (ex_heap st))
     \<and> (\<forall>ns i ns' i' p. ptr_of st ns i = Some p \<longrightarrow> ptr_of st ns' i' = Some p \<longrightarrow> ns = ns' \<and> i = i')"

text \<open>The replica count a phase starts from.\<close>

definition tracked_count :: "'c phase_env \<Rightarrow> 'c exec_state \<Rightarrow> string \<Rightarrow> Object \<Rightarrow> int result" where
  "tracked_count env st ns ob = (case getIdentifier env ob of
      Inl e \<Rightarrow> Inl e
    | Inr i \<Rightarrow> (case inst st ns i of
        Some s \<Rightarrow> Inr (CurrentReplicaCount s)
      | None \<Rightarrow> getReplicaCountOfNewObject env (ex_cluster st) ns ob))"

text \<open>\<open>st'\<close> differs from \<open>st\<close> at most in the entries of \<open>D\<close>.\<close>

definition same_outside :: "(string \<times> InstancesIdentifier) set \<Rightarrow> 'c exec_state \<Rightarrow> 'c exec_state \<Rightarrow> bool" where
  "same_outside D st st' \<longleftrightarrow> ex_cluster st' = ex_cluster st \<and> ex_factory st' = ex_factory st
     \<and> (\<forall>ns i. (ns, i) \<notin> D \<longrightarrow> ptr_of st' ns i = ptr_of st ns i \<and> inst st' ns i = inst st ns i)"

lemma same_outside_trans:
  "same_outside D st st' \<Longrightarrow> same_outside E st' st'' \<Longrightarrow> same_outside (D \<union> E) st st''"
  by (simp add: same_outside_def)

lemma same_outside_mono: "same_outside D st st' \<Longrightarrow> D \<subseteq> E \<Longrightarrow> same_outside E st st'"
  unfolding same_outside_def by blast

lemma tracked_count_same:
  "same_outside D st st' \<Longrightarrow> getIdentifier env ob = Inr i \<Longrightarrow> (ns, i) \<notin> D \<Longrightarrow>
     tracked_count env st' ns ob = tracked_count env st ns ob"
  by (simp add: tracked_count_def same_outside_def split: option.split)

text \<open>Storing through a pointer that is new or already belongs to the entry.\<close>

definition store :: "string \<Rightarrow> InstancesIdentifier \<Rightarrow> nat \<Rightarrow> InstancesState list \<Rightarrow> 'c exec_state \<Rightarrow> 'c exec_state" where
  "store ns i p heap st = st\<lparr>ex_heap := heap, ex_namespaces := NamespacesState_Set (ex_namespaces st) ns i p\<rparr>"

lemma ptr_of_store: "ptr_of (store ns i p heap st) ns' i' = (if ns' = ns \<and> i' = i then Some p else ptr_of st ns' i')"
  by (simp add: ptr_of_def store_def NamespacesState_Get_Set)

lemma store_facts:
  assumes wf: "exec_wf st" and p: "ptr_of st ns i = Some p \<or> (ptr_of st ns i = None \<and> p = length (ex_heap st))"
    and len: "p < length heap" "length (ex_heap st) \<le> length heap"
    and old: "\<And>q. q < length (ex_heap st) \<Longrightarrow> q \<noteq> p \<Longrightarrow> heap ! q = ex_heap st ! q"
  shows "exec_wf (store ns i p heap st)" "same_outside {(ns, i)} st (store ns i p heap st)"
    "inst (store ns i p heap st) ns i = Some (heap ! p)"
proof -
  have fresh: "q < length (ex_heap st) \<and> q \<noteq> p" if "ptr_of st ns' i' = Some q" "\<not> (ns' = ns \<and> i' = i)" for ns' i' q
    using wf p that unfolding exec_wf_def by (metis less_irrefl)
  have [simp]: "ex_heap (store ns i p heap st) = heap" by (simp add: store_def)
  show "exec_wf (store ns i p heap st)"
    unfolding exec_wf_def
  proof (intro conjI allI impI)
    fix n1 i1 q assume "ptr_of (store ns i p heap st) n1 i1 = Some q"
    then show "q < length (ex_heap (store ns i p heap st))"
      using len fresh [of n1 i1 q] by (auto simp: ptr_of_store split: if_splits)
  next
    fix n1 i1 n2 i2 q
    assume a: "ptr_of (store ns i p heap st) n1 i1 = Some q" "ptr_of (store ns i p heap st) n2 i2 = Some q"
    have "n1 = n2 \<and> i1 = i2"
    proof (cases "(n1 = ns \<and> i1 = i) \<or> (n2 = ns \<and> i2 = i)")
      case True
      then show ?thesis using a fresh [of n1 i1 q] fresh [of n2 i2 q] by (auto simp: ptr_of_store split: if_splits)
    next
      case False
      then have "ptr_of st n1 i1 = Some q" "ptr_of st n2 i2 = Some q" using a by (auto simp: ptr_of_store split: if_splits)
      then show ?thesis using wf unfolding exec_wf_def by metis
    qed
    then show "n1 = n2" "i1 = i2" by simp_all
  qed
  have "inst (store ns i p heap st) n1 i1 = inst st n1 i1" if "\<not> (n1 = ns \<and> i1 = i)" for n1 i1
    using that fresh [of n1 i1] old by (cases "ptr_of st n1 i1") (auto simp: inst_def ptr_of_store)
  then show "same_outside {(ns, i)} st (store ns i p heap st)"
    by (auto simp: same_outside_def ptr_of_store) (simp_all add: store_def)
  show "inst (store ns i p heap st) ns i = Some (heap ! p)" by (simp add: inst_def ptr_of_store)
qed

subsection \<open>The loop over the bundle\<close>

lemma bundle_loop_step:
  assumes wf: "exec_wf st" and i: "getIdentifier env ob = Inr i" and k: "tracked_count env st ns ob = Inr k"
  shows "\<exists>p st1 s. bundle_loop env n ns (ob # obs) ptrs st = bundle_loop env n ns obs (ptrs @ [p]) st1
     \<and> exec_wf st1 \<and> same_outside {(ns, i)} st st1 \<and> ptr_of st1 ns i = Some p
     \<and> inst st1 ns i = Some s \<and> CurrentReplicaCount s = k \<and> DesiredReplicaCount s = n"
proof (cases "ptr_of st ns i")
  case None
  let ?s = "\<lparr>DesiredReplicaCount = 0, CurrentReplicaCount = k, is_Object = ob\<rparr>"
  let ?p = "length (ex_heap st)"
  let ?heap = "(ex_heap st @ [?s])[?p := ?s\<lparr>DesiredReplicaCount := n\<rparr>]"
  have "getReplicaCountOfNewObject env (ex_cluster st) ns ob = Inr k"
    using k None by (simp add: tracked_count_def i inst_def)
  then have "bundle_loop env n ns (ob # obs) ptrs st = bundle_loop env n ns obs (ptrs @ [?p]) (store ns i ?p ?heap st)"
    using None by (simp add: i ptr_of_def store_def)
  moreover have "exec_wf (store ns i ?p ?heap st)" "same_outside {(ns, i)} st (store ns i ?p ?heap st)"
      "inst (store ns i ?p ?heap st) ns i = Some (?heap ! ?p)"
    by (rule store_facts [OF wf]; use None in \<open>simp add: nth_append\<close>)+
  ultimately show ?thesis
    by (intro exI [of _ ?p] exI [of _ "store ns i ?p ?heap st"] exI [of _ "?heap ! ?p"])
      (simp add: ptr_of_store del: bundle_loop.simps)
next
  case (Some p)
  let ?heap = "(ex_heap st)[p := (ex_heap st ! p)\<lparr>DesiredReplicaCount := n\<rparr>]"
  have p: "p < length (ex_heap st)" using wf Some unfolding exec_wf_def by blast
  have "CurrentReplicaCount (ex_heap st ! p) = k" using k Some by (simp add: tracked_count_def i inst_def)
  moreover have "bundle_loop env n ns (ob # obs) ptrs st = bundle_loop env n ns obs (ptrs @ [p]) (store ns i p ?heap st)"
    using Some by (simp add: i ptr_of_def store_def)
  moreover have "exec_wf (store ns i p ?heap st)" "same_outside {(ns, i)} st (store ns i p ?heap st)"
      "inst (store ns i p ?heap st) ns i = Some (?heap ! p)"
    by (rule store_facts [OF wf]; use Some p in simp)+
  ultimately show ?thesis using p
    by (intro exI [of _ p] exI [of _ "store ns i p ?heap st"] exI [of _ "?heap ! p"])
      (simp add: ptr_of_store del: bundle_loop.simps)
qed

definition ptrs_of :: "'c exec_state \<Rightarrow> (Object \<Rightarrow> InstancesIdentifier) \<Rightarrow> Object list \<Rightarrow> string \<Rightarrow> nat list" where
  "ptrs_of st ident obs ns = map (\<lambda>ob. the (ptr_of st ns (ident ob))) obs"

lemma bundle_loop_ok:
  assumes "exec_wf st" and "\<forall>ob \<in> set obs. getIdentifier env ob = Inr (ident ob)"
    and "distinct (map ident obs)" and "\<forall>ob \<in> set obs. tracked_count env st ns ob = Inr (k ob)"
  shows "\<exists>st'. bundle_loop env n ns obs ptrs st = (st', Inr (ptrs @ ptrs_of st' ident obs ns))
     \<and> exec_wf st' \<and> same_outside ({ns} \<times> ident ` set obs) st st'
     \<and> (\<forall>ob \<in> set obs. \<exists>s. inst st' ns (ident ob) = Some s \<and> CurrentReplicaCount s = k ob \<and> DesiredReplicaCount s = n)"
  using assms
proof (induction obs arbitrary: st ptrs)
  case Nil
  then show ?case by (simp add: ptrs_of_def same_outside_def)
next
  case (Cons ob obs)
  obtain p st1 s where s1: "bundle_loop env n ns (ob # obs) ptrs st = bundle_loop env n ns obs (ptrs @ [p]) st1"
      "exec_wf st1" "same_outside {(ns, ident ob)} st st1" "ptr_of st1 ns (ident ob) = Some p"
      "inst st1 ns (ident ob) = Some s" "CurrentReplicaCount s = k ob" "DesiredReplicaCount s = n"
    using bundle_loop_step [of st env ob "ident ob" ns "k ob" n obs ptrs] Cons.prems by auto
  have new: "ident ob \<notin> ident ` set obs" using Cons.prems(3) by simp
  have "\<forall>o' \<in> set obs. tracked_count env st1 ns o' = Inr (k o')"
    using tracked_count_same [OF s1(3)] Cons.prems(2,4) new by (metis Pair_inject imageI list.set_intros(2) singletonD)
  then obtain st' where st': "bundle_loop env n ns obs (ptrs @ [p]) st1 = (st', Inr ((ptrs @ [p]) @ ptrs_of st' ident obs ns))"
      "exec_wf st'" "same_outside ({ns} \<times> ident ` set obs) st1 st'"
      "\<forall>ob \<in> set obs. \<exists>s. inst st' ns (ident ob) = Some s \<and> CurrentReplicaCount s = k ob \<and> DesiredReplicaCount s = n"
    using Cons.IH [of st1 "ptrs @ [p]"] s1(2) Cons.prems by auto
  have keep: "ptr_of st' ns (ident ob) = Some p" "inst st' ns (ident ob) = Some s"
    using st'(3) s1(4,5) new by (simp_all add: same_outside_def)
  have "same_outside ({ns} \<times> ident ` set (ob # obs)) st st'"
    by (rule same_outside_mono [OF same_outside_trans [OF s1(3) st'(3)]]) auto
  then show ?case using s1(1,6,7) st' keep by (auto simp: ptrs_of_def simp del: bundle_loop.simps)
qed

subsection \<open>The loop over the namespaces\<close>

definition planned :: "int \<Rightarrow> int \<Rightarrow> string \<Rightarrow> (Object \<times> nat) list \<Rightarrow> thread list" where
  "planned n c ns bundle =
     map (\<lambda>i. \<lparr>th_op = deleteObject, th_ns = ns, th_index = i, th_todo = rev bundle\<rparr>) [n..c - 1]
   @ (if c = n then map (\<lambda>i. \<lparr>th_op = patchObject, th_ns = ns, th_index = i, th_todo = bundle\<rparr>) [0..n - 1] else [])
   @ map (\<lambda>i. \<lparr>th_op = createObject, th_ns = ns, th_index = i, th_todo = bundle\<rparr>) [c..n - 1]"

lemma namespace_actions_planned:
  "CurrentReplicaCount (heap ! hd ptrs) = c \<Longrightarrow>
     namespace_actions heap phase ns ptrs = planned (ph_ReplicasPerNamespace phase) c ns (zip (ph_ObjectBundle phase) ptrs)"
  by (simp add: namespace_actions_def planned_def Let_def)

lemma inst_heap: "inst st ns i = Some s \<Longrightarrow> ex_heap st ! the (ptr_of st ns i) = s"
  by (cases "ptr_of st ns i") (simp_all add: inst_def)

lemma namespace_loop_ok:
  assumes "exec_wf st" and "\<forall>ob \<in> set obs. getIdentifier env ob = Inr (ident ob)"
    and "distinct (map ident obs)" and "obs \<noteq> []" and "obs = ph_ObjectBundle phase"
    and "n = ph_ReplicasPerNamespace phase"
    and "distinct nss" and "\<forall>ns \<in> set nss. \<forall>ob \<in> set obs. tracked_count env st ns ob = Inr (c ns)"
  shows "\<exists>st'. namespace_loop env phase nss deferred actions st =
       (st', rev (map (\<lambda>ns. (ns, ptrs_of st' ident obs ns)) nss) @ deferred,
        Proceed (actions @ concat (map (\<lambda>ns. planned n (c ns) ns (zip obs (ptrs_of st' ident obs ns))) nss)))
     \<and> exec_wf st' \<and> same_outside (set nss \<times> ident ` set obs) st st'
     \<and> (\<forall>ns \<in> set nss. \<forall>ob \<in> set obs. \<exists>s. inst st' ns (ident ob) = Some s
          \<and> CurrentReplicaCount s = c ns \<and> DesiredReplicaCount s = n)"
  using assms(1,7,8)
proof (induction nss arbitrary: st deferred actions)
  case Nil
  then show ?case by (simp add: same_outside_def)
next
  case (Cons ns nss)
  obtain st1 where b: "bundle_loop env n ns obs [] st = (st1, Inr (ptrs_of st1 ident obs ns))"
      "exec_wf st1" "same_outside ({ns} \<times> ident ` set obs) st st1"
      "\<forall>ob \<in> set obs. \<exists>s. inst st1 ns (ident ob) = Some s \<and> CurrentReplicaCount s = c ns \<and> DesiredReplicaCount s = n"
    using bundle_loop_ok [of st obs env ident ns "\<lambda>_. c ns" n "[]"] Cons.prems assms(2,3) by auto
  let ?ptrs = "ptrs_of st1 ident obs ns"
  have cur: "CurrentReplicaCount (ex_heap st1 ! p) = c ns" if "p \<in> set ?ptrs" for p
    using that b(4) inst_heap by (fastforce simp: ptrs_of_def)
  have ne: "?ptrs \<noteq> []" using assms(4) by (simp add: ptrs_of_def)
  have "verifyBundleCorrectness (map ((!) (ex_heap st1)) ?ptrs) = None"
    by (rule verifyBundleCorrectness_equal [of _ "c ns"]) (use cur in auto)
  moreover have "namespace_actions (ex_heap st1) phase ns ?ptrs = planned n (c ns) ns (zip obs ?ptrs)"
    using namespace_actions_planned [OF cur [OF hd_in_set [OF ne]]] assms(5,6) by simp
  ultimately have step: "namespace_loop env phase (ns # nss) deferred actions st =
      namespace_loop env phase nss ((ns, ?ptrs) # deferred) (actions @ planned n (c ns) ns (zip obs ?ptrs)) st1"
    using b(1) ne assms(5,6) by simp
  have "\<forall>m \<in> set nss. \<forall>ob \<in> set obs. tracked_count env st1 m ob = Inr (c m)"
  proof (intro ballI)
    fix m ob assume m: "m \<in> set nss" and ob: "ob \<in> set obs"
    then have "(m, ident ob) \<notin> {ns} \<times> ident ` set obs" using Cons.prems(2) by auto
    then show "tracked_count env st1 m ob = Inr (c m)"
      using tracked_count_same [OF b(3)] assms(2) Cons.prems(3) m ob by simp
  qed
  then obtain st' where r: "namespace_loop env phase nss ((ns, ?ptrs) # deferred) (actions @ planned n (c ns) ns (zip obs ?ptrs)) st1 =
       (st', rev (map (\<lambda>ns. (ns, ptrs_of st' ident obs ns)) nss) @ (ns, ?ptrs) # deferred,
        Proceed ((actions @ planned n (c ns) ns (zip obs ?ptrs)) @
          concat (map (\<lambda>ns. planned n (c ns) ns (zip obs (ptrs_of st' ident obs ns))) nss)))"
      "exec_wf st'" "same_outside (set nss \<times> ident ` set obs) st1 st'"
      "\<forall>ns \<in> set nss. \<forall>ob \<in> set obs. \<exists>s. inst st' ns (ident ob) = Some s
          \<and> CurrentReplicaCount s = c ns \<and> DesiredReplicaCount s = n"
    using Cons.IH [of st1 "(ns, ?ptrs) # deferred" "actions @ planned n (c ns) ns (zip obs ?ptrs)"] b(2) Cons.prems(2)
    by auto
  have out: "ptr_of st' ns i = ptr_of st1 ns i" "inst st' ns i = inst st1 ns i" for i
    using r(3) Cons.prems(2) by (simp_all add: same_outside_def)
  have ptrs: "ptrs_of st' ident obs ns = ?ptrs" by (simp add: ptrs_of_def out)
  have same: "same_outside (set (ns # nss) \<times> ident ` set obs) st st'"
    by (rule same_outside_mono [OF same_outside_trans [OF b(3) r(3)]]) auto
  have inst': "\<forall>m \<in> set (ns # nss). \<forall>ob \<in> set obs. \<exists>s. inst st' m (ident ob) = Some s
      \<and> CurrentReplicaCount s = c m \<and> DesiredReplicaCount s = n"
    using b(4) r(4) out by simp
  show ?case
    by (rule exI [of _ st'], intro conjI r(2) same inst') (simp add: step r(1) ptrs del: namespace_loop.simps)
qed

subsection \<open>The deferred updates\<close>

definition settle :: "InstancesState \<Rightarrow> InstancesState" where
  "settle s = s\<lparr>CurrentReplicaCount := DesiredReplicaCount s\<rparr>"

lemma settle_settle [simp]: "settle (settle s) = settle s"
  by (simp add: settle_def)

definition settled :: "(string \<times> InstancesIdentifier) set \<Rightarrow> 'c exec_state \<Rightarrow> 'c exec_state \<Rightarrow> bool" where
  "settled D st st' \<longleftrightarrow> exec_wf st' \<and> ex_cluster st' = ex_cluster st \<and> ex_factory st' = ex_factory st
     \<and> ptr_of st' = ptr_of st
     \<and> (\<forall>ns i. inst st' ns i = (if (ns, i) \<in> D then map_option settle (inst st ns i) else inst st ns i))"

lemma settled_trans: "settled D st st' \<Longrightarrow> settled E st' st'' \<Longrightarrow> settled (D \<union> E) st st''"
  by (auto simp: settled_def option.map_comp comp_def)

lemma deferred_loop_settled:
  assumes "exec_wf st" and "\<forall>(ob, p) \<in> set todo. getIdentifier env ob = Inr (ident ob) \<and> ptr_of st ns (ident ob) = Some p"
  shows "settled ({ns} \<times> ident ` fst ` set todo) st (deferred_loop env ns todo st)"
  using assms
proof (induction todo arbitrary: st)
  case Nil
  then show ?case by (simp add: settled_def)
next
  case (Cons obp todo)
  obtain ob p where obp: "obp = (ob, p)" by (cases obp)
  have id: "getIdentifier env ob = Inr (ident ob)" and ptr: "ptr_of st ns (ident ob) = Some p"
    using Cons.prems(2) by (simp_all add: obp)
  have p: "p < length (ex_heap st)" using Cons.prems(1) ptr unfolding exec_wf_def by blast
  let ?st = "store ns (ident ob) p ((ex_heap st)[p := settle (ex_heap st ! p)]) st"
  have f: "exec_wf ?st" "same_outside {(ns, ident ob)} st ?st"
      "inst ?st ns (ident ob) = Some ((ex_heap st)[p := settle (ex_heap st ! p)] ! p)"
    by (rule store_facts [OF Cons.prems(1)]; use ptr p in simp)+
  have ptrs: "ptr_of ?st = ptr_of st" using ptr by (auto simp: fun_eq_iff ptr_of_store)
  have one: "settled {(ns, ident ob)} st ?st"
    using f p ptr ptrs by (auto simp: settled_def same_outside_def inst_def)
  have "settled ({ns} \<times> ident ` fst ` set todo) ?st (deferred_loop env ns todo ?st)"
    using Cons.IH [of ?st] f(1) Cons.prems(2) ptrs by simp
  from settled_trans [OF one this] show ?case
    by (simp add: obp id store_def settle_def Let_def insert_Times_insert)
qed

lemma run_deferred_settled:
  assumes "exec_wf st" and "\<forall>ob \<in> set obs. getIdentifier env ob = Inr (ident ob)"
    and "\<forall>(ns, ptrs) \<in> set ds. ptrs = ptrs_of st ident obs ns \<and> (\<forall>ob \<in> set obs. ptr_of st ns (ident ob) \<noteq> None)"
  shows "settled (fst ` set ds \<times> ident ` set obs) st (run_deferred env obs ds st)"
  using assms(1,3)
proof (induction ds arbitrary: st)
  case Nil
  then show ?case by (simp add: settled_def)
next
  case (Cons d ds)
  obtain ns ptrs where d: "d = (ns, ptrs)" by (cases d)
  let ?st = "deferred_loop env ns (zip obs ptrs) st"
  have ptrs: "ptrs = map (\<lambda>ob. the (ptr_of st ns (ident ob))) obs" and ex: "\<forall>ob \<in> set obs. ptr_of st ns (ident ob) \<noteq> None"
    using Cons.prems(2) by (simp_all add: d ptrs_of_def)
  have zip: "zip obs ptrs = map (\<lambda>ob. (ob, the (ptr_of st ns (ident ob)))) obs"
    by (simp add: ptrs zip_map2 zip_same_conv_map)
  have "settled ({ns} \<times> ident ` fst ` set (zip obs ptrs)) st ?st"
    by (rule deferred_loop_settled [OF Cons.prems(1)]) (use assms(2) ex in \<open>auto simp: zip\<close>)
  then have one: "settled ({ns} \<times> ident ` set obs) st ?st" by (simp add: zip image_image)
  then have "settled (fst ` set ds \<times> ident ` set obs) ?st (run_deferred env obs ds ?st)"
    using Cons.prems(2) by (intro Cons.IH) (auto simp: settled_def ptrs_of_def)
  from settled_trans [OF one this] show ?case by (simp add: d Un_commute Sigma_Un_distrib1 [symmetric])
qed

lemma settled_count:
  assumes "settled D st st'" and "(ns, i) \<in> D" and "inst st ns i = Some s" and "getIdentifier env ob = Inr i"
  shows "tracked_count env st' ns ob = Inr (DesiredReplicaCount s)"
  using assms by (simp add: settled_def tracked_count_def settle_def)

lemma inst_ptr: "inst st ns i = Some s \<Longrightarrow> ptr_of st ns i \<noteq> None"
  by (auto simp: inst_def)

lemma view_factory [simp]:
  "ptr_of (st\<lparr>ex_factory := tf\<rparr>) = ptr_of st" "inst (st\<lparr>ex_factory := tf\<rparr>) = inst st"
  "exec_wf (st\<lparr>ex_factory := tf\<rparr>) = exec_wf st"
  "tracked_count env (st\<lparr>ex_factory := tf\<rparr>) = tracked_count env st"
proof -
  show p: "ptr_of (st\<lparr>ex_factory := tf\<rparr>) = ptr_of st" and i: "inst (st\<lparr>ex_factory := tf\<rparr>) = inst st"
    by (auto simp: ptr_of_def inst_def fun_eq_iff)
  show "exec_wf (st\<lparr>ex_factory := tf\<rparr>) = exec_wf st" by (simp add: exec_wf_def p)
  show "tracked_count env (st\<lparr>ex_factory := tf\<rparr>) = tracked_count env st"
    by (simp add: fun_eq_iff tracked_count_def i cong: option.case_cong sum.case_cong)
qed

lemma view_cluster [simp]:
  "ptr_of (st\<lparr>ex_cluster := cl\<rparr>) = ptr_of st" "inst (st\<lparr>ex_cluster := cl\<rparr>) = inst st"
  "exec_wf (st\<lparr>ex_cluster := cl\<rparr>) = exec_wf st"
proof -
  show p: "ptr_of (st\<lparr>ex_cluster := cl\<rparr>) = ptr_of st" and "inst (st\<lparr>ex_cluster := cl\<rparr>) = inst st"
    by (auto simp: ptr_of_def inst_def fun_eq_iff)
  show "exec_wf (st\<lparr>ex_cluster := cl\<rparr>) = exec_wf st" by (simp add: exec_wf_def p)
qed

end
