(* ===== verification/Phase_Correct.thy ===== *)
theory Phase_Correct
  imports Phase_State
begin

text \<open>
  The properties of \<open>ExecutePhase\<close> and its helpers: reconciliation of the cluster under every
  interleaving, what an early return records, the namespaces of a range, the bundle check.
\<close>

subsection \<open>A phase reconciles the cluster\<close>

lemma op_keys_concat: "op_keys kind oper (concat (map f xs)) = (\<Union>x \<in> set xs. op_keys kind oper (f x))"
  by (induction xs) simp_all

lemma op_keys_map:
  "op_keys kind oper (map (\<lambda>i. \<lparr>th_op = oper', th_ns = ns, th_index = i, th_todo = todo\<rparr>) is) =
     (if oper = oper' then {replica_key kind ob ns i | ob i. ob \<in> fst ` set todo \<and> i \<in> set is} else {})"
  by (induction "is") (force simp: thread_keys_def)+

definition keys_between :: "(Object \<Rightarrow> GroupVersionKind) \<Rightarrow> Object set \<Rightarrow> string \<Rightarrow> int \<Rightarrow> int \<Rightarrow> obj_key set" where
  "keys_between kind obs ns a b = {replica_key kind ob ns i | ob i. ob \<in> obs \<and> a \<le> i \<and> i < b}"

lemma op_keys_planned:
  assumes "length ptrs = length obs"
  shows "op_keys kind deleteObject (planned n c ns (zip obs ptrs)) = keys_between kind (set obs) ns n c"
    and "op_keys kind createObject (planned n c ns (zip obs ptrs)) = keys_between kind (set obs) ns c n"
    and "op_keys kind patchObject (planned n c ns (zip obs ptrs)) = (if c = n then keys_between kind (set obs) ns 0 n else {})"
proof -
  have "fst ` set (zip obs ptrs) = set obs" using assms by (metis map_fst_zip set_map)
  then show "op_keys kind deleteObject (planned n c ns (zip obs ptrs)) = keys_between kind (set obs) ns n c"
    and "op_keys kind createObject (planned n c ns (zip obs ptrs)) = keys_between kind (set obs) ns c n"
    and "op_keys kind patchObject (planned n c ns (zip obs ptrs)) = (if c = n then keys_between kind (set obs) ns 0 n else {})"
    by (simp_all add: planned_def op_keys_map keys_between_def)
qed

definition obj_ident :: "(Object \<Rightarrow> GroupVersionKind) \<Rightarrow> Object \<Rightarrow> InstancesIdentifier" where
  "obj_ident kind ob = \<lparr>Basename = obj_Basename ob, ObjectKind = gvk_Kind (kind ob), APIGroup = gvk_Group (kind ob)\<rparr>"

lemma getIdentifier_ok: "client_ok env obs kind present \<Longrightarrow> ob \<in> obs \<Longrightarrow> getIdentifier env ob = Inr (obj_ident kind ob)"
  using client_ok_raw [of env obs kind present ob] by (auto simp: getIdentifier_def obj_ident_def)

lemma replica_key_inject:
  assumes "inj_on (obj_ident kind) obs" and "a \<in> obs" and "b \<in> obs" and "0 \<le> i" and "0 \<le> j"
  shows "replica_key kind a ns i = replica_key kind b m j \<longleftrightarrow> a = b \<and> ns = m \<and> i = j"
  using assms by (auto simp: replica_key_def objName_inject obj_ident_def inj_on_def)

lemma replica_in_keys_between:
  assumes "inj_on (obj_ident kind) obs" and "ob \<in> obs" and "0 \<le> i" and "0 \<le> a"
  shows "replica_key kind ob ns i \<in> keys_between kind obs m a b \<longleftrightarrow> ns = m \<and> a \<le> i \<and> i < b"
proof
  assume "replica_key kind ob ns i \<in> keys_between kind obs m a b"
  then obtain ob' j where "replica_key kind ob ns i = replica_key kind ob' m j" "ob' \<in> obs" "a \<le> j" "j < b"
    by (auto simp: keys_between_def)
  then show "ns = m \<and> a \<le> i \<and> i < b"
    using replica_key_inject [OF assms(1,2), of ob' i j ns m] assms(3,4) by simp
qed (use assms(2) in \<open>auto simp: keys_between_def\<close>)

text \<open>What a phase expects of the cluster and of the recorded state: in every namespace all objects
  of the bundle have the same number of replicas, and these are the ones that are present.\<close>

definition phase_pre ::
    "'c phase_env \<Rightarrow> (Object \<Rightarrow> GroupVersionKind) \<Rightarrow> ('c \<Rightarrow> obj_key set) \<Rightarrow> Object list \<Rightarrow> string list
       \<Rightarrow> (string \<Rightarrow> int) \<Rightarrow> 'c exec_state \<Rightarrow> bool" where
  "phase_pre env kind present obs nss c st \<longleftrightarrow> exec_wf st \<and> distinct nss
     \<and> (\<forall>ns \<in> set nss. 0 \<le> c ns \<and> (\<forall>ob \<in> set obs. tracked_count env st ns ob = Inr (c ns)
          \<and> (\<forall>i \<ge> 0. replica_key kind ob ns i \<in> present (ex_cluster st) \<longleftrightarrow> i < c ns)))"

lemma planned_threads_inv:
  fixes st' :: "'c exec_state"
  assumes obs: "inj_on (obj_ident kind) (set obs)" and n: "0 \<le> n"
    and pre: "\<forall>ns \<in> set nss. 0 \<le> c ns \<and> (\<forall>ob \<in> set obs. \<forall>i \<ge> 0. replica_key kind ob ns i \<in> present cl \<longleftrightarrow> i < c ns)"
    and cur: "\<forall>ns \<in> set nss. \<forall>ob \<in> set obs. \<exists>s. inst st' ns (obj_ident kind ob) = Some s \<and> CurrentReplicaCount s = c ns"
    and ths: "ths = concat (map (\<lambda>ns. planned n (c ns) ns (zip obs (ptrs_of st' (obj_ident kind) obs ns))) nss)"
  shows "threads_inv (ex_heap st') (set obs) kind present
    ((present cl - (\<Union>ns \<in> set nss. keys_between kind (set obs) ns n (c ns))) \<union> (\<Union>ns \<in> set nss. keys_between kind (set obs) ns (c ns) n))
    ths (cl, NewErrorList [])"
proof -
  let ?K = "keys_between kind (set obs)"
  have len: "length (ptrs_of st' (obj_ident kind) obs ns) = length obs" for ns by (simp add: ptrs_of_def)
  have keys: "op_keys kind deleteObject ths = (\<Union>ns \<in> set nss. ?K ns n (c ns))"
      "op_keys kind createObject ths = (\<Union>ns \<in> set nss. ?K ns (c ns) n)"
      "op_keys kind patchObject ths = (\<Union>ns \<in> set nss. if c ns = n then ?K ns 0 n else {})"
    by (simp_all add: ths op_keys_concat op_keys_planned [OF len])
  have disj: "?K ns a b \<inter> (\<Union>m \<in> set nss. ?K m n (c m)) = {}"
    if "ns \<in> set nss" "0 \<le> a" "b \<le> n \<or> c ns \<le> a" for ns a b
  proof -
    have False if k: "k \<in> ?K ns a b" and m: "m \<in> set nss" "k \<in> ?K m n (c m)" for k m
    proof -
      obtain ob i where i: "k = replica_key kind ob ns i" "ob \<in> set obs" "a \<le> i" "i < b"
        using k by (auto simp: keys_between_def)
      then have "ns = m \<and> n \<le> i \<and> i < c m"
        using replica_in_keys_between [OF obs i(2), of i n ns m "c m"] m(2) n \<open>0 \<le> a\<close> by simp
      then show False using i that(3) \<open>b \<le> n \<or> c ns \<le> a\<close> by auto
    qed
    then show ?thesis by blast
  qed
  have ok: "thread_ok (ex_heap st') (set obs) th" if th: "th \<in> set ths" for th
  proof -
    obtain ns where ns: "ns \<in> set nss" "th \<in> set (planned n (c ns) ns (zip obs (ptrs_of st' (obj_ident kind) obs ns)))"
      using th by (auto simp: ths)
    have todo: "ob \<in> set obs \<and> CurrentReplicaCount (ex_heap st' ! p) = c ns"
      if "(ob, p) \<in> set (zip obs (ptrs_of st' (obj_ident kind) obs ns))" for ob p
    proof -
      have "ob \<in> set obs" "p = the (ptr_of st' ns (obj_ident kind ob))"
        using that by (auto simp: ptrs_of_def zip_map2 zip_same_conv_map)
      then show ?thesis using cur ns(1) inst_heap by metis
    qed
    then show ?thesis using ns(2) by (auto simp: planned_def thread_ok_def split: if_splits)
  qed
  have "op_keys kind patchObject ths \<subseteq> present cl"
    using pre by (fastforce simp: keys keys_between_def split: if_splits)
  moreover have "op_keys kind createObject ths \<inter> op_keys kind deleteObject ths = {}"
  proof -
    have "?K ns (c ns) n \<inter> (\<Union>m \<in> set nss. ?K m n (c m)) = {}" if "ns \<in> set nss" for ns
      using disj [OF that, of "c ns" n] pre that by simp
    then show ?thesis unfolding keys by blast
  qed
  moreover have "op_keys kind patchObject ths \<inter> op_keys kind deleteObject ths = {}"
    unfolding keys using disj n by (fastforce split: if_splits)
  ultimately show ?thesis using ok by (simp add: threads_inv_def keys)
qed

definition starts_all :: "tuning_env \<Rightarrow> tuning_set \<Rightarrow> bool" where
  "starts_all tenv ts \<longleftrightarrow> runnable ts \<and> (\<forall>l j. 0 < lim_Burst l \<longrightarrow> limiter_Wait tenv l j = None)"

definition phase_target ::
    "(Object \<Rightarrow> GroupVersionKind) \<Rightarrow> Object set \<Rightarrow> string list \<Rightarrow> int \<Rightarrow> (string \<Rightarrow> int) \<Rightarrow> obj_key set \<Rightarrow> obj_key set" where
  "phase_target kind obs nss n c before =
     (before - (\<Union>ns \<in> set nss. keys_between kind obs ns n (c ns))) \<union> (\<Union>ns \<in> set nss. keys_between kind obs ns (c ns) n)"

lemma phase_target_replica:
  assumes "inj_on (obj_ident kind) obs" and "0 \<le> n" and "\<forall>ns \<in> set nss. 0 \<le> c ns"
    and "ns \<in> set nss" and "ob \<in> obs" and "0 \<le> i"
    and "replica_key kind ob ns i \<in> before \<longleftrightarrow> i < c ns"
  shows "replica_key kind ob ns i \<in> phase_target kind obs nss n c before \<longleftrightarrow> i < n"
proof -
  have "replica_key kind ob ns i \<in> (\<Union>m \<in> set nss. keys_between kind obs m n (c m)) \<longleftrightarrow> n \<le> i \<and> i < c ns"
    "replica_key kind ob ns i \<in> (\<Union>m \<in> set nss. keys_between kind obs m (c m) n) \<longleftrightarrow> c ns \<le> i \<and> i < n"
    using replica_in_keys_between [OF assms(1,5,6)] assms by simp_all
  then show ?thesis using assms(7) by (auto simp: phase_target_def)
qed

lemma phase_target_other:
  assumes "0 \<le> n" and "\<forall>ns \<in> set nss. 0 \<le> c ns"
    and k: "\<forall>ns \<in> set nss. \<forall>ob \<in> obs. \<forall>i \<ge> 0. k \<noteq> replica_key kind ob ns i"
  shows "k \<in> phase_target kind obs nss n c before \<longleftrightarrow> k \<in> before"
proof -
  have "k \<notin> keys_between kind obs ns a b" if m: "ns \<in> set nss" "0 \<le> a" for ns a b
  proof
    assume "k \<in> keys_between kind obs ns a b"
    then obtain ob i where "k = replica_key kind ob ns i" "ob \<in> obs" "a \<le> i" by (auto simp: keys_between_def)
    then show False using k m by (metis order.trans)
  qed
  then show ?thesis using assms(1,2) by (auto simp: phase_target_def)
qed

text \<open>The sequential part of a phase, its threads under any schedule, and its deferred updates.\<close>

lemma ExecutePhase_run:
  assumes ok: "client_ok env (set obs) kind present"
    and obs: "obs = ph_ObjectBundle phase" "obs \<noteq> []" "distinct (map (obj_ident kind) obs)"
    and nss: "ph_NamespaceList phase = Some nss"
    and pre: "phase_pre env kind present obs nss c st"
    and n: "n = ph_ReplicasPerNamespace phase" "0 \<le> n"
    and ts: "CreateTuningSet (ex_factory st) (ph_TuningSet phase) = (tf, Inr ts)" "starts_all tenv ts"
  shows "\<exists>st'. ExecutePhase env tenv sched phase st = Some (st', Some (NewErrorList [])) \<and> exec_wf st'
    \<and> present (ex_cluster st') = phase_target kind (set obs) nss n c (present (ex_cluster st))
    \<and> (\<forall>ns \<in> set nss. \<forall>ob \<in> set obs. tracked_count env st' ns ob = Inr n)"
proof -
  let ?ident = "obj_ident kind" and ?st = "st\<lparr>ex_factory := tf\<rparr>"
  note pre = pre [unfolded phase_pre_def]
  have id: "\<forall>ob \<in> set obs. getIdentifier env ob = Inr (?ident ob)" using getIdentifier_ok [OF ok] by blast
  have wf: "exec_wf ?st" and tr: "\<forall>ns \<in> set nss. \<forall>ob \<in> set obs. tracked_count env ?st ns ob = Inr (c ns)"
    using pre by simp_all
  obtain st1 where l: "namespace_loop env phase nss [] [] ?st =
       (st1, rev (map (\<lambda>ns. (ns, ptrs_of st1 ?ident obs ns)) nss),
        Proceed (concat (map (\<lambda>ns. planned n (c ns) ns (zip obs (ptrs_of st1 ?ident obs ns))) nss)))"
      "exec_wf st1" "same_outside (set nss \<times> ?ident ` set obs) ?st st1"
      "\<forall>ns \<in> set nss. \<forall>ob \<in> set obs. \<exists>s. inst st1 ns (?ident ob) = Some s
          \<and> CurrentReplicaCount s = c ns \<and> DesiredReplicaCount s = n"
    using namespace_loop_ok [OF wf id obs(3,2,1) n(1) _ tr, of "[]" "[]"] pre by auto
  let ?acts = "concat (map (\<lambda>ns. planned n (c ns) ns (zip obs (ptrs_of st1 ?ident obs ns))) nss)"
  let ?ds = "rev (map (\<lambda>ns. (ns, ptrs_of st1 ?ident obs ns)) nss)"
  have cl: "ex_cluster st1 = ex_cluster st" using l(3) by (simp add: same_outside_def)
  obtain evs where evs: "TuningSet_Execute tenv ts ?acts = Some evs" "started evs = ?acts"
    using TuningSet_Execute_runnable [of ts tenv ?acts] ts(2) by (auto simp: starts_all_def)
  have cur: "\<forall>ns \<in> set nss. \<forall>ob \<in> set obs. \<exists>s. inst st1 ns (?ident ob) = Some s \<and> CurrentReplicaCount s = c ns"
    using l(4) by metis
  have inv: "threads_inv (ex_heap st1) (set obs) kind present (phase_target kind (set obs) nss n c (present (ex_cluster st1)))
      ?acts (ex_cluster st1, NewErrorList [])"
    unfolding phase_target_def
    by (rule planned_threads_inv [where c = c and st' = st1 and n = n and nss = nss and cl = "ex_cluster st1"])
      (use obs(3) pre n cur in \<open>simp_all add: distinct_map cl\<close>)
  obtain ths' c' errs where run: "run_threads env (ex_heap st1) sched ?acts (ex_cluster st1, NewErrorList []) = (ths', c', errs)"
    by (rule prod_cases3)
  note tgt = run_threads_target [OF ok inv run]
  let ?st2 = "st1\<lparr>ex_cluster := c'\<rparr>" let ?st' = "run_deferred env obs ?ds ?st2"
  have "\<forall>ns \<in> set nss. \<forall>ob \<in> set obs. ptr_of st1 ns (?ident ob) \<noteq> None" using l(4) inst_ptr by metis
  then have "settled (fst ` set ?ds \<times> ?ident ` set obs) ?st2 ?st'"
    by (intro run_deferred_settled [OF _ id]) (use l(2) in \<open>auto simp: ptrs_of_def\<close>)
  then have fin: "settled (set nss \<times> ?ident ` set obs) ?st2 ?st'" by (simp add: image_image)
  have "\<forall>ns \<in> set nss. \<forall>ob \<in> set obs. tracked_count env ?st' ns ob = Inr n"
  proof (intro ballI)
    fix ns ob assume m: "ns \<in> set nss" "ob \<in> set obs"
    then obtain s where "inst ?st2 ns (?ident ob) = Some s" "DesiredReplicaCount s = n" using l(4) by fastforce
    then show "tracked_count env ?st' ns ob = Inr n"
      using settled_count [OF fin, of ns "?ident ob" s env ob] id m by simp
  qed
  moreover have "ExecutePhase env tenv sched phase st = Some (?st', Some (NewErrorList []))"
    using l(1) evs run tgt(2) by (simp add: ExecutePhase_def nss ts(1) obs(1))
  ultimately show ?thesis using fin tgt(1) cl by (intro exI [of _ ?st']) (simp add: settled_def)
qed

lemma phase_reconciles:
  assumes "client_ok env (set (ph_ObjectBundle phase)) kind present"
    and "ph_ObjectBundle phase \<noteq> []" and "distinct (map (obj_ident kind) (ph_ObjectBundle phase))"
    and "ph_NamespaceList phase = Some nss"
    and "phase_pre env kind present (ph_ObjectBundle phase) nss c st"
    and "0 \<le> ph_ReplicasPerNamespace phase"
    and "CreateTuningSet (ex_factory st) (ph_TuningSet phase) = (tf, Inr ts)" and "starts_all tenv ts"
  shows "\<exists>st'. ExecutePhase env tenv sched phase st = Some (st', Some (NewErrorList []))
    \<and> phase_pre env kind present (ph_ObjectBundle phase) nss (\<lambda>_. ph_ReplicasPerNamespace phase) st'
    \<and> (\<forall>k. (\<forall>ns \<in> set nss. \<forall>ob \<in> set (ph_ObjectBundle phase). \<forall>i \<ge> 0. k \<noteq> replica_key kind ob ns i)
         \<longrightarrow> (k \<in> present (ex_cluster st') \<longleftrightarrow> k \<in> present (ex_cluster st)))"
proof -
  let ?obs = "set (ph_ObjectBundle phase)" and ?n = "ph_ReplicasPerNamespace phase"
  obtain st' where st': "ExecutePhase env tenv sched phase st = Some (st', Some (NewErrorList []))" "exec_wf st'"
      "present (ex_cluster st') = phase_target kind ?obs nss ?n c (present (ex_cluster st))"
      "\<forall>ns \<in> set nss. \<forall>ob \<in> ?obs. tracked_count env st' ns ob = Inr ?n"
    using ExecutePhase_run [OF assms(1) refl assms(2-5) refl assms(6-8)] by blast
  have c: "\<forall>ns \<in> set nss. 0 \<le> c ns" and inj: "inj_on (obj_ident kind) ?obs"
    using assms(3,5) by (simp_all add: phase_pre_def distinct_map)
  have "phase_pre env kind present (ph_ObjectBundle phase) nss (\<lambda>_. ?n) st'"
    using st'(2,4) assms(5,6) phase_target_replica [OF inj assms(6) c] by (simp add: phase_pre_def st'(3))
  then show ?thesis
    using st'(1) phase_target_other [OF assms(6) c] by (intro exI [of _ st']) (simp add: st'(3))
qed

text \<open>
  C2. A phase reconciles the cluster. When all objects of its bundle have \<open>c ns\<close> replicas in each
  namespace \<open>ns\<close> of the phase, the replicas \<open>0, ..., c ns - 1\<close> are the ones that exist, and the
  client creates, patches and deletes as documented, then after \<open>ExecutePhase\<close> exactly the
  replicas \<open>0, ..., ReplicasPerNamespace - 1\<close> exist, no other object of the cluster has been
  touched, no error is reported, and the recorded state says so. This holds for every
  interleaving of the actions.
\<close>

theorem ExecutePhase_reconciles:
  assumes "client_ok env (set (ph_ObjectBundle phase)) kind present"
    and "ph_ObjectBundle phase \<noteq> []" and "distinct (map (obj_ident kind) (ph_ObjectBundle phase))"
    and "ph_NamespaceList phase = Some nss"
    and "phase_pre env kind present (ph_ObjectBundle phase) nss c st"
    and "0 \<le> ph_ReplicasPerNamespace phase"
    and "CreateTuningSet (ex_factory st) (ph_TuningSet phase) = (tf, Inr ts)" and "starts_all tenv ts"
  shows "\<exists>st'. ExecutePhase env tenv sched phase st = Some (st', Some (NewErrorList []))
    \<and> phase_pre env kind present (ph_ObjectBundle phase) nss (\<lambda>_. ph_ReplicasPerNamespace phase) st'
    \<and> (\<forall>k. (\<forall>ns \<in> set nss. \<forall>ob \<in> set (ph_ObjectBundle phase). \<forall>i \<ge> 0. k \<noteq> replica_key kind ob ns i)
         \<longrightarrow> (k \<in> present (ex_cluster st') \<longleftrightarrow> k \<in> present (ex_cluster st)))"
  using assms by (rule phase_reconciles)

definition sample_object :: Object where
  "sample_object = \<lparr>obj_Basename = ''pod'', obj_ObjectTemplatePath = ''pod.yaml'', obj_TemplateFillMap = None,
     obj_ListUnknownObjectOptions = None\<rparr>"

definition sample_kind :: GroupVersionKind where
  "sample_kind = \<lparr>gvk_Group = [], gvk_Version = ''v1'', gvk_Kind = ''Pod''\<rparr>"

text \<open>A cluster that is the set of its objects; patching an absent object is an error.\<close>

definition sample_phase_env :: "(obj_key set) phase_env" where
  "sample_phase_env = \<lparr>RawToObject = (\<lambda>_. Inr \<lparr>un_GroupVersionKind = sample_kind, un_Object = []\<rparr>),
     TemplateToObject = (\<lambda>_ m. Inr \<lparr>un_GroupVersionKind = sample_kind, un_Object = m\<rparr>),
     TemplateMapping = [], NamespacePrefix = ''test'',
     fw_CreateObject = (\<lambda>ns name r c. (insert (un_GroupVersionKind r, ns, name) c, None)),
     fw_PatchObject = (\<lambda>ns name r c. (c, if (un_GroupVersionKind r, ns, name) \<in> c then None else Some (ErrText ''not found''))),
     fw_DeleteObject = (\<lambda>k ns name c. (c - {(k, ns, name)}, None)),
     LabelSelectorAsSelector = Inr, NumObjectsMatchingSelector = (\<lambda>_ _ _ _. Inr 0)\<rparr>"

definition sample_phase :: Phase where
  "sample_phase = \<lparr>ph_NamespaceRange = None, ph_NamespaceList = Some [''a'', ''b''], ph_ReplicasPerNamespace = 2,
     ph_TuningSet = ''Uniform'', ph_ObjectBundle = [sample_object]\<rparr>"

definition sample_state :: "(obj_key set) exec_state" where
  "sample_state = \<lparr>ex_namespaces = newNamespacesState, ex_heap = [],
     ex_factory = Factory_Init NewFactory [sample_tuning_set], ex_cluster = {}\<rparr>"

lemma sample_phase_facts:
  "client_ok sample_phase_env {sample_object} (\<lambda>_. sample_kind) id"
  "phase_pre sample_phase_env (\<lambda>_. sample_kind) id [sample_object] [''a'', ''b''] (\<lambda>_. 0) sample_state"
  "CreateTuningSet (ex_factory sample_state) ''Uniform'' =
     (ex_factory sample_state, Inr (TStepped \<lparr>sl_BurstSize = 2, sl_StepDelay = 5\<rparr>))"
  "starts_all sample_tuning_env (TStepped \<lparr>sl_BurstSize = 2, sl_StepDelay = 5\<rparr>)"
  by (simp_all add: client_ok_def sample_phase_env_def phase_pre_def sample_state_def exec_wf_def ptr_of_def
      newNamespacesState_def NamespacesState_Get_def tracked_count_def getIdentifier_def inst_def
      getReplicaCountOfNewObject_def sample_object_def CreateTuningSet_def Factory_Init_def NewFactory_def
      sample_tuning_set_def starts_all_def runnable_def sample_tuning_env_def)

lemma sample_phase_simps [simp]:
  "ph_ObjectBundle sample_phase = [sample_object]" "ph_NamespaceList sample_phase = Some [''a'', ''b'']"
  "ph_ReplicasPerNamespace sample_phase = 2" "ph_TuningSet sample_phase = ''Uniform''"
  by (simp_all add: sample_phase_def)

theorem ExecutePhase_reconciles_witness:
  "\<exists>st'. ExecutePhase sample_phase_env sample_tuning_env [3, 0, 1] sample_phase sample_state = Some (st', Some (NewErrorList []))
    \<and> phase_pre sample_phase_env (\<lambda>_. sample_kind) id [sample_object] [''a'', ''b''] (\<lambda>_. 2) st'"
proof -
  have "client_ok sample_phase_env (set (ph_ObjectBundle sample_phase)) (\<lambda>_. sample_kind) id"
    "phase_pre sample_phase_env (\<lambda>_. sample_kind) id (ph_ObjectBundle sample_phase) [''a'', ''b''] (\<lambda>_. 0) sample_state"
    "CreateTuningSet (ex_factory sample_state) (ph_TuningSet sample_phase) =
       (ex_factory sample_state, Inr (TStepped \<lparr>sl_BurstSize = 2, sl_StepDelay = 5\<rparr>))"
    by (simp_all add: sample_phase_facts)
  from ExecutePhase_reconciles [OF this(1) _ _ _ this(2) _ this(3) sample_phase_facts(4), of "[3, 0, 1]"]
  show ?thesis by auto
qed

subsection \<open>Returning early\<close>

lemma namespace_loop_append:
  "namespace_loop env phase xs d a st = (st1, d1, Proceed a1) \<Longrightarrow>
     namespace_loop env phase (xs @ ys) d a st = namespace_loop env phase ys d1 a1 st1"
  by (induction xs arbitrary: d a st) (auto split: prod.splits sum.splits option.splits if_splits)

text \<open>
  C3. A phase that stops at an incorrect bundle has already advanced its records: the bundle of the
  namespace \<open>bad\<close> has objects with different replica counts, so no action is executed and the
  cluster is untouched; yet the deferred updates of the namespaces before it record the requested
  number of replicas as the current one.
\<close>

theorem ExecutePhase_early_return_advances_state:
  assumes id: "\<forall>ob \<in> set (ph_ObjectBundle phase). getIdentifier env ob = Inr (ident ob)"
    and obs: "distinct (map ident (ph_ObjectBundle phase))" "ph_ObjectBundle phase \<noteq> []"
    and nss: "ph_NamespaceList phase = Some (good @ bad # rest)" "distinct (good @ bad # rest)" and wf: "exec_wf st"
    and good: "\<forall>ns \<in> set good. \<forall>ob \<in> set (ph_ObjectBundle phase). tracked_count env st ns ob = Inr (c ns)"
    and bad: "\<forall>ob \<in> set (ph_ObjectBundle phase). tracked_count env st bad ob = Inr (k ob)"
      "Suc j < length (ph_ObjectBundle phase)" "k (ph_ObjectBundle phase ! j) \<noteq> - 1"
      "k (ph_ObjectBundle phase ! Suc j) \<noteq> k (ph_ObjectBundle phase ! j)"
    and ts: "CreateTuningSet (ex_factory st) (ph_TuningSet phase) = (tf, Inr ts)"
  shows "\<exists>st' err. ExecutePhase env tenv sched phase st = Some (st', Some (NewErrorList [err]))
    \<and> ex_cluster st' = ex_cluster st
    \<and> (\<forall>ns \<in> set good. \<forall>ob \<in> set (ph_ObjectBundle phase). tracked_count env st' ns ob = Inr (ph_ReplicasPerNamespace phase))"
proof -
  let ?obs = "ph_ObjectBundle phase" and ?n = "ph_ReplicasPerNamespace phase" and ?st = "st\<lparr>ex_factory := tf\<rparr>"
  have wf': "exec_wf ?st" using wf by simp
  obtain st1 where l: "namespace_loop env phase good [] [] ?st =
       (st1, rev (map (\<lambda>ns. (ns, ptrs_of st1 ident ?obs ns)) good) @ [],
        Proceed ([] @ concat (map (\<lambda>ns. planned ?n (c ns) ns (zip ?obs (ptrs_of st1 ident ?obs ns))) good)))"
      "exec_wf st1" "same_outside (set good \<times> ident ` set ?obs) ?st st1"
      "\<forall>ns \<in> set good. \<forall>ob \<in> set ?obs. \<exists>s. inst st1 ns (ident ob) = Some s
         \<and> CurrentReplicaCount s = c ns \<and> DesiredReplicaCount s = ?n"
    using namespace_loop_ok [OF wf' id obs refl refl, of good c "[]" "[]"] nss(2) good by auto
  have "\<forall>ob \<in> set ?obs. tracked_count env st1 bad ob = Inr (k ob)"
    using tracked_count_same [OF l(3), of env _ _ bad] id bad(1) nss(2) by auto
  then obtain st2 where b: "bundle_loop env ?n bad ?obs [] st1 = (st2, Inr (ptrs_of st2 ident ?obs bad))" "exec_wf st2"
      "same_outside ({bad} \<times> ident ` set ?obs) st1 st2"
      "\<forall>ob \<in> set ?obs. \<exists>s. inst st2 bad (ident ob) = Some s \<and> CurrentReplicaCount s = k ob \<and> DesiredReplicaCount s = ?n"
    using bundle_loop_ok [OF l(2) id obs(1), of bad k ?n "[]"] by auto
  have cnt: "CurrentReplicaCount (map ((!) (ex_heap st2)) (ptrs_of st2 ident ?obs bad) ! m) = k (?obs ! m)"
    if m: "m < length ?obs" for m
  proof -
    obtain s where s: "inst st2 bad (ident (?obs ! m)) = Some s" "CurrentReplicaCount s = k (?obs ! m)"
      using b(4) nth_mem [OF m] by metis
    then show ?thesis using inst_heap [OF s(1)] m by (simp add: ptrs_of_def)
  qed
  obtain err where "verifyBundleCorrectness (map ((!) (ex_heap st2)) (ptrs_of st2 ident ?obs bad)) = Some err"
    using bad(2-4) cnt [of j] cnt [of "Suc j"]
    by (cases "verifyBundleCorrectness (map ((!) (ex_heap st2)) (ptrs_of st2 ident ?obs bad))")
      (auto simp: verifyBundleCorrectness_None ptrs_of_def)
  then have stop: "namespace_loop env phase (good @ bad # rest) [] [] ?st =
      (st2, rev (map (\<lambda>ns. (ns, ptrs_of st1 ident ?obs ns)) good), Return (Some (NewErrorList [err])))"
    using namespace_loop_append [OF l(1), of "bad # rest"] b(1) by simp
  let ?ds = "rev (map (\<lambda>ns. (ns, ptrs_of st1 ident ?obs ns)) good)" let ?st' = "run_deferred env ?obs ?ds st2"
  have keep: "ptr_of st2 ns i = ptr_of st1 ns i" "inst st2 ns i = inst st1 ns i" if "ns \<in> set good" for ns i
    using b(3) nss(2) that by (auto simp: same_outside_def)
  have some: "\<forall>ns \<in> set good. \<forall>ob \<in> set ?obs. ptr_of st1 ns (ident ob) \<noteq> None" using l(4) inst_ptr by metis
  have "settled (fst ` set ?ds \<times> ident ` set ?obs) st2 ?st'"
    by (rule run_deferred_settled [OF b(2) id]) (use keep some in \<open>auto simp: ptrs_of_def\<close>)
  then have fin: "settled (set good \<times> ident ` set ?obs) st2 ?st'" by (simp add: image_image)
  have "\<forall>ns \<in> set good. \<forall>ob \<in> set ?obs. tracked_count env ?st' ns ob = Inr ?n"
  proof (intro ballI)
    fix ns ob assume m: "ns \<in> set good" "ob \<in> set ?obs"
    then obtain s where "inst st2 ns (ident ob) = Some s" "DesiredReplicaCount s = ?n"
      using l(4) keep by metis
    then show "tracked_count env ?st' ns ob = Inr ?n"
      using settled_count [OF fin, of ns "ident ob" s env ob] id m by simp
  qed
  moreover have "ex_cluster ?st' = ex_cluster st" using fin b(3) l(3) by (simp add: settled_def same_outside_def)
  moreover have "ExecutePhase env tenv sched phase st = Some (?st', Some (NewErrorList [err]))"
    using stop by (simp add: ExecutePhase_def nss(1) ts)
  ultimately show ?thesis by blast
qed

definition mixed_object :: "string \<Rightarrow> Object" where
  "mixed_object name = sample_object\<lparr>obj_Basename := name\<rparr>"

definition mixed_phase :: Phase where
  "mixed_phase = sample_phase\<lparr>ph_ObjectBundle := [mixed_object ''x'', mixed_object ''y'']\<rparr>"

definition mixed_ident :: "Object \<Rightarrow> InstancesIdentifier" where
  "mixed_ident ob = \<lparr>Basename = obj_Basename ob, ObjectKind = ''Pod'', APIGroup = []\<rparr>"

text \<open>In the namespace \<open>b\<close> the object \<open>x\<close> has one replica and \<open>y\<close> none.\<close>

definition mixed_state :: "(obj_key set) exec_state" where
  "mixed_state = sample_state\<lparr>
     ex_namespaces := NamespacesState_Set newNamespacesState ''b'' (mixed_ident (mixed_object ''x'')) 0,
     ex_heap := [\<lparr>DesiredReplicaCount = 1, CurrentReplicaCount = 1, is_Object = mixed_object ''x''\<rparr>]\<rparr>"

lemmas mixed_defs = mixed_object_def mixed_ident_def sample_object_def

lemma mixed_ident_ok: "getIdentifier sample_phase_env ob = Inr (mixed_ident ob)"
  by (simp add: getIdentifier_def sample_phase_env_def sample_kind_def mixed_ident_def)

lemma mixed_ptr: "ptr_of mixed_state ns i = (if ns = ''b'' \<and> i = mixed_ident (mixed_object ''x'') then Some 0 else None)"
  by (simp add: ptr_of_def mixed_state_def NamespacesState_Get_Set)
    (simp add: NamespacesState_Get_def newNamespacesState_def)

lemma mixed_heap:
  "ex_heap mixed_state = [\<lparr>DesiredReplicaCount = 1, CurrentReplicaCount = 1, is_Object = mixed_object ''x''\<rparr>]"
  by (simp add: mixed_state_def)

lemma mixed_ident_eq: "mixed_ident (mixed_object a) = mixed_ident (mixed_object b) \<longleftrightarrow> a = b"
  by (simp add: mixed_defs)

lemma mixed_new_count: "getReplicaCountOfNewObject env c ns (mixed_object name) = Inr 0"
  by (simp add: getReplicaCountOfNewObject_def mixed_defs)

lemma mixed_count:
  "tracked_count sample_phase_env mixed_state ns (mixed_object name) = Inr (if ns = ''b'' \<and> name = ''x'' then 1 else 0)"
  by (simp add: tracked_count_def mixed_ident_ok inst_def mixed_ptr mixed_heap mixed_ident_eq mixed_new_count)

theorem ExecutePhase_early_return_advances_state_witness:
  "\<exists>st' err. ExecutePhase sample_phase_env sample_tuning_env [] mixed_phase mixed_state = Some (st', Some (NewErrorList [err]))
    \<and> ex_cluster st' = {} \<and> tracked_count sample_phase_env st' ''a'' (mixed_object ''x'') = Inr 2"
proof -
  have obs: "ph_ObjectBundle mixed_phase = [mixed_object ''x'', mixed_object ''y'']"
    "ph_NamespaceList mixed_phase = Some ([''a''] @ ''b'' # [])" "ph_ReplicasPerNamespace mixed_phase = 2"
    by (simp_all add: mixed_phase_def sample_phase_def)
  have ts: "CreateTuningSet (ex_factory mixed_state) (ph_TuningSet mixed_phase) =
      (ex_factory mixed_state, Inr (TStepped \<lparr>sl_BurstSize = 2, sl_StepDelay = 5\<rparr>))"
    using sample_phase_facts(3) by (simp add: mixed_state_def mixed_phase_def)
  have "exec_wf mixed_state" by (simp add: exec_wf_def mixed_ptr mixed_heap)
  then have "\<exists>st' err. ExecutePhase sample_phase_env sample_tuning_env [] mixed_phase mixed_state = Some (st', Some (NewErrorList [err]))
    \<and> ex_cluster st' = ex_cluster mixed_state
    \<and> (\<forall>ns \<in> set [''a'']. \<forall>ob \<in> set (ph_ObjectBundle mixed_phase). tracked_count sample_phase_env st' ns ob = Inr (ph_ReplicasPerNamespace mixed_phase))"
    by (intro ExecutePhase_early_return_advances_state [where ident = mixed_ident and bad = "''b''" and rest = "[]"
          and c = "\<lambda>_. 0" and k = "\<lambda>ob. if obj_Basename ob = ''x'' then 1 else 0" and j = 0, OF _ _ _ obs(2) _ _ _ _ _ _ _ ts])
      (simp_all add: obs(1) mixed_ident_ok mixed_count, simp_all add: mixed_defs)
  then show ?thesis by (auto simp: obs mixed_state_def sample_state_def)
qed

text \<open>
  C10. The namespaces of a phase with a range are \<open>basename-Min, ..., basename-Max\<close>, with the
  automanaged prefix when the range has no basename; when \<open>Max\<close> is the largest 32-bit value the
  loop counter wraps around and the function never returns.
\<close>

theorem createNamespacesList_range:
  assumes "- (2 ^ 31) \<le> nr_Min r" and "nr_Min r \<le> nr_Max r" and "nr_Max r < 2 ^ 31"
  shows "createNamespacesList env (Some r) =
    (if nr_Max r = 2 ^ 31 - 1 then None
     else Some (map (\<lambda>i. (case nr_Basename r of None \<Rightarrow> NamespacePrefix env | Some b \<Rightarrow> b) @ ''-'' @ itoa i)
            [nr_Min r..nr_Max r]))"
proof (cases "nr_Max r = 2 ^ 31 - 1")
  case True
  then show ?thesis using assms ns_range_loop_diverges [of "nr_Min r"] by (simp add: createNamespacesList_def Let_def)
next
  case False
  then have "nr_Max r < 2 ^ 31 - 1" using assms(3) by linarith
  then show ?thesis using False ns_range_loop_Some [OF assms(1)] by (simp add: createNamespacesList_def Let_def)
qed

lemma digit_chars: "char_of (49::nat) = CHR ''1''" "char_of (50::nat) = CHR ''2''"
  by code_simp+

lemma sample_prefix: "NamespacePrefix sample_phase_env = ''test''"
  by (simp add: sample_phase_env_def)

theorem createNamespacesList_range_witness:
  "createNamespacesList sample_phase_env (Some \<lparr>nr_Min = 1, nr_Max = 2, nr_Basename = None\<rparr>) = Some [''test-1'', ''test-2'']
   \<and> createNamespacesList sample_phase_env (Some \<lparr>nr_Min = 1, nr_Max = 2147483647, nr_Basename = None\<rparr>) = None"
  using createNamespacesList_range [of "\<lparr>nr_Min = 1, nr_Max = 2, nr_Basename = None\<rparr>" sample_phase_env]
    createNamespacesList_range [of "\<lparr>nr_Min = 1, nr_Max = 2147483647, nr_Basename = None\<rparr>" sample_phase_env]
  by (simp add: sample_prefix upto_rec1 itoa_def utoa.simps digit_char_def digit_chars)

text \<open>
  \<open>verifyBundleCorrectness\<close> accepts a bundle exactly when neighbouring objects have the same
  current replica count, except after an object whose count is \<open>-1\<close>, the value the code uses
  for "not initialised".
\<close>

theorem verifyBundleCorrectness_accepts:
  "verifyBundleCorrectness ss = None \<longleftrightarrow> successively (\<lambda>a b. a = - 1 \<or> b = a) (map CurrentReplicaCount ss)"
proof -
  have "verify_loop (Some p) (CurrentReplicaCount p) xs = None \<longleftrightarrow>
      successively (\<lambda>a b. a = - 1 \<or> b = a) (map CurrentReplicaCount (p # xs))" for p xs
    by (induction xs arbitrary: p) auto
  then show ?thesis by (cases ss) (simp_all add: verifyBundleCorrectness_def)
qed

end
