(* ===== verification/Framework_Objects.thy ===== *)
theory Framework_Objects
  imports Framework Phase_Correct
begin

text \<open>
  The object calls of the framework on a cluster that fails now and then: with at most five
  transient failures in a row they have exactly the effect a phase expects of its client.
\<close>

subsection \<open>A cluster that fails now and then\<close>

text \<open>
  What the requests of the dynamic client promise, for a cluster that stores objects by resource,
  namespace and name: a request succeeds and has its effect, is refused because the object exists
  already or does not exist, or fails with a transient error, and then may have had its effect or
  not. \<open>flaky\<close> bounds the transient failures in a row: at most five, one less than the attempts.
\<close>

type_synonym stored_key = "GroupVersionResource \<times> string \<times> string"

definition create_doc :: "'s client_lib \<Rightarrow> 's dynamic_client \<Rightarrow> ('s \<Rightarrow> stored_key set) \<Rightarrow> ('s \<Rightarrow> nat) \<Rightarrow> bool" where
  "create_doc lib c stored flaky \<longleftrightarrow> (\<forall>gvr ns obj s s' err. dyn_Create c gvr ns obj s = (s', err) \<longrightarrow>
     (case err of
        None \<Rightarrow> stored s' = insert (gvr, ns, GetName lib obj) (stored s)
      | Some e \<Rightarrow> if IsAlreadyExists lib e then (gvr, ns, GetName lib obj) \<in> stored s \<and> stored s' = stored s
          else transient lib [] e \<and> stored s' \<in> {stored s, insert (gvr, ns, GetName lib obj) (stored s)} \<and> flaky s' < flaky s))"

definition delete_doc :: "'s client_lib \<Rightarrow> 's dynamic_client \<Rightarrow> ('s \<Rightarrow> stored_key set) \<Rightarrow> ('s \<Rightarrow> nat) \<Rightarrow> bool" where
  "delete_doc lib c stored flaky \<longleftrightarrow> (\<forall>gvr ns name s s' err. dyn_Delete c gvr ns name s = (s', err) \<longrightarrow>
     (case err of
        None \<Rightarrow> stored s' = stored s - {(gvr, ns, name)}
      | Some e \<Rightarrow> if IsNotFound lib e then (gvr, ns, name) \<notin> stored s \<and> stored s' = stored s
          else transient lib [] e \<and> stored s' \<in> {stored s, stored s - {(gvr, ns, name)}} \<and> flaky s' < flaky s))"

text \<open>
  An object that \<open>MarshalJSON\<close> can encode. What the server returns is one: the object of the
  requested name, and of the kind whose resource was requested.
\<close>

definition encodable :: "'s client_lib \<Rightarrow> Unstructured \<Rightarrow> bool" where
  "encodable lib obj \<longleftrightarrow> (\<exists>j. MarshalJSON lib obj = Inr j)"

definition returned :: "'s client_lib \<Rightarrow> GroupVersionKind set \<Rightarrow> GroupVersionResource \<Rightarrow> string \<Rightarrow> Unstructured \<Rightarrow> bool" where
  "returned lib kinds gvr name obj \<longleftrightarrow> encodable lib obj \<and> GetName lib obj = name
     \<and> (\<forall>k \<in> kinds. pluralResource lib k = gvr \<longrightarrow> un_GroupVersionKind obj = k)"

definition get_doc ::
    "'s client_lib \<Rightarrow> 's dynamic_client \<Rightarrow> GroupVersionKind set \<Rightarrow> ('s \<Rightarrow> stored_key set) \<Rightarrow> ('s \<Rightarrow> nat) \<Rightarrow> bool" where
  "get_doc lib c kinds stored flaky \<longleftrightarrow> (\<forall>gvr ns name s s' res.
     dyn_Get c gvr ns name s = (s', res) \<longrightarrow> (gvr, ns, name) \<in> stored s \<longrightarrow> stored s' = stored s
       \<and> (case res of Inr obj \<Rightarrow> flaky s' \<le> flaky s \<and> returned lib kinds gvr name obj
           | Inl e \<Rightarrow> transient lib [] e \<and> flaky s' < flaky s))"

definition patch_doc :: "'s client_lib \<Rightarrow> 's dynamic_client \<Rightarrow> ('s \<Rightarrow> stored_key set) \<Rightarrow> ('s \<Rightarrow> nat) \<Rightarrow> bool" where
  "patch_doc lib c stored flaky \<longleftrightarrow> (\<forall>gvr ns name patch s s' err.
     dyn_Patch c gvr ns name patch s = (s', err) \<longrightarrow> (gvr, ns, name) \<in> stored s \<longrightarrow> stored s' = stored s
       \<and> (case err of None \<Rightarrow> True | Some e \<Rightarrow> transient lib [] e \<and> flaky s' < flaky s))"

definition object_server ::
    "'s client_lib \<Rightarrow> 's dynamic_client \<Rightarrow> GroupVersionKind set \<Rightarrow> ('s \<Rightarrow> stored_key set) \<Rightarrow> ('s \<Rightarrow> nat) \<Rightarrow> bool" where
  "object_server lib c kinds stored flaky \<longleftrightarrow> (\<forall>s. flaky s < 6) \<and> create_doc lib c stored flaky
     \<and> delete_doc lib c stored flaky \<and> get_doc lib c kinds stored flaky \<and> patch_doc lib c stored flaky"

lemma object_serverD:
  assumes "object_server lib c kinds stored flaky"
  shows "flaky s < 6"
    and "dyn_Create c gvr ns obj s = (s', err) \<Longrightarrow> (case err of
        None \<Rightarrow> stored s' = insert (gvr, ns, GetName lib obj) (stored s)
      | Some e \<Rightarrow> if IsAlreadyExists lib e then (gvr, ns, GetName lib obj) \<in> stored s \<and> stored s' = stored s
          else transient lib [] e \<and> stored s' \<in> {stored s, insert (gvr, ns, GetName lib obj) (stored s)} \<and> flaky s' < flaky s)"
    and "dyn_Delete c gvr ns name s = (s', err) \<Longrightarrow> (case err of
        None \<Rightarrow> stored s' = stored s - {(gvr, ns, name)}
      | Some e \<Rightarrow> if IsNotFound lib e then (gvr, ns, name) \<notin> stored s \<and> stored s' = stored s
          else transient lib [] e \<and> stored s' \<in> {stored s, stored s - {(gvr, ns, name)}} \<and> flaky s' < flaky s)"
    and "dyn_Get c gvr ns name s = (s', res) \<Longrightarrow> (gvr, ns, name) \<in> stored s \<Longrightarrow> stored s' = stored s
       \<and> (case res of Inr obj \<Rightarrow> flaky s' \<le> flaky s \<and> returned lib kinds gvr name obj | Inl e \<Rightarrow> transient lib [] e \<and> flaky s' < flaky s)"
    and "dyn_Patch c gvr ns name patch s = (s', err) \<Longrightarrow> (gvr, ns, name) \<in> stored s \<Longrightarrow> stored s' = stored s
       \<and> (case err of None \<Rightarrow> True | Some e \<Rightarrow> transient lib [] e \<and> flaky s' < flaky s)"
  subgoal using assms by (simp add: object_server_def)
  subgoal using assms by (simp add: object_server_def create_doc_def)
  subgoal using assms by (simp add: object_server_def delete_doc_def)
  subgoal using assms by (simp add: object_server_def get_doc_def)
  subgoal using assms by (simp add: object_server_def patch_doc_def)
  done

text \<open>
  Names and patches. \<open>SetName\<close> sets the name and nothing else. The merge patch between two documents
  exists when they are encoded objects of the same kind and version and of the same name, which is
  what the preconditions ask; for other documents it may fail.
\<close>

definition object_lib :: "'s client_lib \<Rightarrow> bool" where
  "object_lib lib \<longleftrightarrow> backoff_doc lib
     \<and> (\<forall>n obj. GetName lib (SetName lib n obj) = n \<and> un_GroupVersionKind (SetName lib n obj) = un_GroupVersionKind obj)
     \<and> (\<forall>n obj. encodable lib obj \<longrightarrow> encodable lib (SetName lib n obj))
     \<and> (\<forall>cur obj a b. MarshalJSON lib cur = Inr a \<and> MarshalJSON lib obj = Inr b
           \<and> un_GroupVersionKind cur = un_GroupVersionKind obj \<and> GetName lib cur = GetName lib obj \<longrightarrow>
          (\<exists>p. CreateThreeWayJSONMergePatch lib None b a
             [RequireKeyUnchanged ''apiVersion'', RequireKeyUnchanged ''kind'', RequireMetadataKeyUnchanged ''name''] = Inr p))"

lemma createPatch_ok:
  assumes "object_lib lib" and "encodable lib cur" and "encodable lib obj"
    and "un_GroupVersionKind cur = un_GroupVersionKind obj" and "GetName lib cur = GetName lib obj"
  shows "\<exists>p. createPatch lib cur obj = Inr p"
proof -
  obtain a b where "MarshalJSON lib cur = Inr a" "MarshalJSON lib obj = Inr b" using assms(2,3) by (auto simp: encodable_def)
  then show ?thesis using assms(1,4,5) unfolding createPatch_def object_lib_def by auto
qed

lemma client_CreateObject_ok:
  assumes "object_lib lib" and "object_server lib c kinds stored flaky"
  shows "\<exists>s'. client_CreateObject lib c ns name obj [] s = (s', None)
    \<and> stored s' = insert (pluralResource lib (un_GroupVersionKind obj), ns, name) (stored s)"
proof -
  let ?gvr = "pluralResource lib (un_GroupVersionKind obj)" and ?obj = "SetName lib name obj"
  let ?k = "(?gvr, ns, name)"
  have name: "GetName lib ?obj = name" and lib: "backoff_doc lib" using assms(1) by (simp_all add: object_lib_def)
  have "\<exists>s' cap. RetryWithExponentialBackOff lib (RetryFunction lib (plain_call (dyn_Create c ?gvr ns ?obj))
      [Allow (IsAlreadyExists lib)]) (s, NoCapture) = ((s', cap), None) \<and> stored s' = insert ?k (stored s)"
  proof (rule plain_retry_reach [OF lib, where m = flaky and I = "\<lambda>t. stored t \<in> {stored s, insert ?k (stored s)}"])
    fix t t' err
    assume I: "stored t \<in> {stored s, insert ?k (stored s)}" and c: "dyn_Create c ?gvr ns ?obj t = (t', err)"
    have "case err of None \<Rightarrow> stored t' = insert ?k (stored t)
        | Some e \<Rightarrow> if IsAlreadyExists lib e then ?k \<in> stored t \<and> stored t' = stored t
            else transient lib [] e \<and> stored t' \<in> {stored t, insert ?k (stored t)} \<and> flaky t' < flaky t"
      using object_serverD(2) [OF assms(2) c] unfolding name .
    then show "case err of None \<Rightarrow> stored t' = insert ?k (stored s)
        | Some e \<Rightarrow> if allowed [Allow (IsAlreadyExists lib)] e then stored t' = insert ?k (stored s)
            else transient lib [Allow (IsAlreadyExists lib)] e \<and> stored t' \<in> {stored s, insert ?k (stored s)} \<and> flaky t' < flaky t"
      using I by (elim insertE emptyE) (simp_all add: allowed_def Allow_def transient_more insert_absorb split: option.splits if_splits)
  qed (use object_serverD(1) [OF assms(2)] in simp_all)
  then show ?thesis by (auto simp: client_CreateObject_def Let_def)
qed

lemma client_DeleteObject_ok:
  assumes "object_lib lib" and "object_server lib c kinds stored flaky"
  shows "\<exists>s'. client_DeleteObject lib c gvk ns name [] s = (s', None)
    \<and> stored s' = stored s - {(pluralResource lib gvk, ns, name)}"
proof -
  let ?gvr = "pluralResource lib gvk"
  let ?k = "(?gvr, ns, name)"
  have lib: "backoff_doc lib" using assms(1) by (simp add: object_lib_def)
  have "\<exists>s' cap. RetryWithExponentialBackOff lib (RetryFunction lib (plain_call (dyn_Delete c ?gvr ns name))
      [Allow (IsNotFound lib)]) (s, NoCapture) = ((s', cap), None) \<and> stored s' = stored s - {?k}"
  proof (rule plain_retry_reach [OF lib, where m = flaky and I = "\<lambda>t. stored t \<in> {stored s, stored s - {?k}}"])
    fix t t' err
    assume I: "stored t \<in> {stored s, stored s - {?k}}" and c: "dyn_Delete c ?gvr ns name t = (t', err)"
    have "case err of None \<Rightarrow> stored t' = stored t - {?k}
        | Some e \<Rightarrow> if IsNotFound lib e then ?k \<notin> stored t \<and> stored t' = stored t
            else transient lib [] e \<and> stored t' \<in> {stored t, stored t - {?k}} \<and> flaky t' < flaky t"
      using object_serverD(3) [OF assms(2) c] .
    then show "case err of None \<Rightarrow> stored t' = stored s - {?k}
        | Some e \<Rightarrow> if allowed [Allow (IsNotFound lib)] e then stored t' = stored s - {?k}
            else transient lib [Allow (IsNotFound lib)] e \<and> stored t' \<in> {stored s, stored s - {?k}} \<and> flaky t' < flaky t"
      using I by (elim insertE emptyE) (simp_all add: allowed_def Allow_def transient_more insert_absorb split: option.splits if_splits)
  qed (use object_serverD(1) [OF assms(2)] in simp_all)
  then show ?thesis by (auto simp: client_DeleteObject_def Let_def)
qed

lemma client_PatchObject_ok:
  assumes "object_lib lib" and "object_server lib c kinds stored flaky"
    and "(pluralResource lib (un_GroupVersionKind obj), ns, name) \<in> stored s"
    and "encodable lib obj" and "un_GroupVersionKind obj \<in> kinds"
  shows "\<exists>s'. client_PatchObject lib c ns name obj [] s = (s', None) \<and> stored s' = stored s"
proof -
  let ?gvr = "pluralResource lib (un_GroupVersionKind obj)" and ?obj = "SetName lib name obj"
  have name: "GetName lib ?obj = name" and lib: "backoff_doc lib" using assms(1) by (simp_all add: object_lib_def)
  have patch: "\<exists>p. createPatch lib cur ?obj = Inr p" if "returned lib kinds ?gvr name cur" for cur
    using that assms(4,5) assms(1)
    by (intro createPatch_ok [OF assms(1)]) (simp_all add: returned_def object_lib_def)
  have "\<exists>s' cap. RetryWithExponentialBackOff lib (RetryFunction lib (plain_call (updateFunc lib c ?gvr ns name ?obj)) [])
      (s, NoCapture) = ((s', cap), None) \<and> stored s' = stored s"
  proof (rule plain_retry_reach [OF lib, where m = flaky and I = "\<lambda>t. stored t = stored s"])
    fix t t' err
    assume I: "stored t = stored s" and u: "updateFunc lib c ?gvr ns name ?obj t = (t', err)"
    obtain t1 res where g: "dyn_Get c ?gvr ns name t = (t1, res)" by fastforce
    have k: "(?gvr, ns, name) \<in> stored t" using I assms(3) by simp
    then have t1: "stored t1 = stored s"
        "case res of Inr obj \<Rightarrow> flaky t1 \<le> flaky t \<and> returned lib kinds ?gvr name obj | Inl e \<Rightarrow> transient lib [] e \<and> flaky t1 < flaky t"
      using object_serverD(4) [OF assms(2) g k] I by simp_all
    show "case err of None \<Rightarrow> stored t' = stored s
        | Some e \<Rightarrow> if allowed [] e then stored t' = stored s
            else transient lib [] e \<and> stored t' = stored s \<and> flaky t' < flaky t"
    proof (cases res)
      case (Inl e)
      then show ?thesis using u g t1 by (auto simp: updateFunc_def allowed_def)
    next
      case (Inr cur)
      obtain p where "createPatch lib cur ?obj = Inr p" using patch [of cur] t1(2) Inr by auto
      then have "dyn_Patch c ?gvr ns name p t1 = (t', err)" using u g Inr name by (simp add: updateFunc_def)
      then have "stored t' = stored t1" "case err of None \<Rightarrow> True | Some e \<Rightarrow> transient lib [] e \<and> flaky t' < flaky t1"
        using object_serverD(5) [OF assms(2), of ?gvr ns name p t1 t' err] assms(3) t1(1) by simp_all
      then show ?thesis using t1 Inr by (auto simp: allowed_def split: option.splits)
    qed
  qed (use object_serverD(1) [OF assms(2)] in simp_all)
  then show ?thesis by (auto simp: client_PatchObject_def Let_def)
qed


subsection \<open>The framework as the client of a phase\<close>

text \<open>
  Of the framework, an object call changes only which client is the current one. So the state of a
  phase is the number of the current client and the cluster.
\<close>

definition fw_call ::
    "'s Framework \<Rightarrow> ('s fw \<Rightarrow> ('s fw \<times> go_error option) option) \<Rightarrow> nat \<times> 's \<Rightarrow> (nat \<times> 's) \<times> go_error option" where
  "fw_call f call c = (case call (f\<lparr>dynamicClients := (dynamicClients f)\<lparr>mc_current := fst c\<rparr>\<rparr>, snd c) of
      None \<Rightarrow> (c, Some (ErrText ''panic''))
    | Some ((f', s'), err) \<Rightarrow> ((mc_current (dynamicClients f'), s'), err))"

definition framework_env :: "'s client_lib \<Rightarrow> 's Framework \<Rightarrow> (nat \<times> 's) phase_env \<Rightarrow> (nat \<times> 's) phase_env" where
  "framework_env lib f env = env\<lparr>
     fw_CreateObject := (\<lambda>ns name obj. fw_call f (Framework_CreateObject lib ns name obj [])),
     fw_PatchObject := (\<lambda>ns name obj. fw_call f (Framework_PatchObject lib ns name obj [])),
     fw_DeleteObject := (\<lambda>gvk ns name. fw_call f (Framework_DeleteObject lib gvk ns name []))\<rparr>"

definition cluster_objects ::
    "'s client_lib \<Rightarrow> GroupVersionKind set \<Rightarrow> ('s \<Rightarrow> stored_key set) \<Rightarrow> nat \<times> 's \<Rightarrow> obj_key set" where
  "cluster_objects lib kinds stored c = {(k, ns, name). k \<in> kinds \<and> (pluralResource lib k, ns, name) \<in> stored (snd c)}"

lemma cluster_objects_insert:
  "inj_on (pluralResource lib) kinds \<Longrightarrow> k \<in> kinds \<Longrightarrow>
     stored (snd c') = insert (pluralResource lib k, ns, name) (stored (snd c)) \<Longrightarrow>
     cluster_objects lib kinds stored c' = insert (k, ns, name) (cluster_objects lib kinds stored c)"
  by (auto simp: cluster_objects_def inj_on_eq_iff)

lemma cluster_objects_remove:
  "inj_on (pluralResource lib) kinds \<Longrightarrow> k \<in> kinds \<Longrightarrow>
     stored (snd c') = stored (snd c) - {(pluralResource lib k, ns, name)} \<Longrightarrow>
     cluster_objects lib kinds stored c' = cluster_objects lib kinds stored c - {(k, ns, name)}"
  unfolding cluster_objects_def by (simp only:) (auto dest: inj_onD)

lemma get_dynamic_call:
  assumes "mc_clients (dynamicClients f) \<noteq> []"
  shows "\<exists>c f'. c \<in> set (mc_clients (dynamicClients f))
    \<and> (\<forall>s. get_dynamic (f\<lparr>dynamicClients := (dynamicClients f)\<lparr>mc_current := i\<rparr>\<rparr>, s) = Some (c, f', s))"
  using assms by (simp add: get_dynamic_def GetClient_def Let_def)

text \<open>The templates of the bundle expand to objects of a fixed kind that can be encoded.\<close>

definition templates_ok :: "'s client_lib \<Rightarrow> 'c phase_env \<Rightarrow> Object set \<Rightarrow> (Object \<Rightarrow> GroupVersionKind) \<Rightarrow> bool" where
  "templates_ok lib env obs kind \<longleftrightarrow> (\<forall>ob \<in> obs.
     (\<exists>raw. RawToObject env (obj_ObjectTemplatePath ob) = Inr raw \<and> un_GroupVersionKind raw = kind ob)
     \<and> (\<forall>m. \<exists>r. TemplateToObject env (obj_ObjectTemplatePath ob) m = Inr r \<and> un_GroupVersionKind r = kind ob \<and> encodable lib r))"

lemma built_template:
  assumes "templates_ok lib env obs kind" and "built env obs r"
  shows "un_GroupVersionKind r \<in> kind ` obs \<and> encodable lib r"
proof -
  obtain ob m where "ob \<in> obs" "TemplateToObject env (obj_ObjectTemplatePath ob) m = Inr r" using assms(2) by (auto simp: built_def)
  then show ?thesis using assms(1) unfolding templates_ok_def by (metis imageI sum.inject(2))
qed

lemma framework_calls:
  assumes lib: "object_lib lib" and ne: "mc_clients (dynamicClients f) \<noteq> []"
    and srv: "\<forall>c \<in> set (mc_clients (dynamicClients f)). object_server lib c kinds stored flaky"
    and inj: "inj_on (pluralResource lib) kinds"
  shows "un_GroupVersionKind r \<in> kinds \<Longrightarrow> \<exists>c'. fw_CreateObject (framework_env lib f env) ns name r c = (c', None)
      \<and> cluster_objects lib kinds stored c' = insert (un_GroupVersionKind r, ns, name) (cluster_objects lib kinds stored c)"
    and "k \<in> kinds \<Longrightarrow> \<exists>c'. fw_DeleteObject (framework_env lib f env) k ns name c = (c', None)
      \<and> cluster_objects lib kinds stored c' = cluster_objects lib kinds stored c - {(k, ns, name)}"
    and "encodable lib r \<Longrightarrow> (un_GroupVersionKind r, ns, name) \<in> cluster_objects lib kinds stored c \<Longrightarrow>
      \<exists>c'. fw_PatchObject (framework_env lib f env) ns name r c = (c', None)
        \<and> cluster_objects lib kinds stored c' = cluster_objects lib kinds stored c"
proof -
  obtain cl f' where cl: "cl \<in> set (mc_clients (dynamicClients f))"
      "\<And>s. get_dynamic (f\<lparr>dynamicClients := (dynamicClients f)\<lparr>mc_current := fst c\<rparr>\<rparr>, s) = Some (cl, f', s)"
    using get_dynamic_call [OF ne, of "fst c"] by (elim exE conjE) simp
  have srv': "object_server lib cl kinds stored flaky" using srv cl(1) by blast
  note calls = framework_env_def fw_call_def cl(2)
  show "\<exists>c'. fw_CreateObject (framework_env lib f env) ns name r c = (c', None)
      \<and> cluster_objects lib kinds stored c' = insert (un_GroupVersionKind r, ns, name) (cluster_objects lib kinds stored c)"
    if r: "un_GroupVersionKind r \<in> kinds"
  proof -
    obtain s' where s': "client_CreateObject lib cl ns name r [] (snd c) = (s', None)"
        "stored s' = insert (pluralResource lib (un_GroupVersionKind r), ns, name) (stored (snd c))"
      using client_CreateObject_ok [OF lib srv', of ns name r "snd c"] by (elim exE conjE) simp
    then show ?thesis
      by (intro exI [of _ "(mc_current (dynamicClients f'), s')"])
        (simp add: calls Framework_CreateObject_def cluster_objects_insert [OF inj r])
  qed
  show "\<exists>c'. fw_DeleteObject (framework_env lib f env) k ns name c = (c', None)
      \<and> cluster_objects lib kinds stored c' = cluster_objects lib kinds stored c - {(k, ns, name)}" if k: "k \<in> kinds"
  proof -
    obtain s' where s': "client_DeleteObject lib cl k ns name [] (snd c) = (s', None)"
        "stored s' = stored (snd c) - {(pluralResource lib k, ns, name)}"
      using client_DeleteObject_ok [OF lib srv', of k ns name "snd c"] by (elim exE conjE) simp
    then show ?thesis
      by (intro exI [of _ "(mc_current (dynamicClients f'), s')"])
        (simp add: calls Framework_DeleteObject_def cluster_objects_remove [OF inj k])
  qed
  show "\<exists>c'. fw_PatchObject (framework_env lib f env) ns name r c = (c', None)
      \<and> cluster_objects lib kinds stored c' = cluster_objects lib kinds stored c"
    if enc: "encodable lib r" and r: "(un_GroupVersionKind r, ns, name) \<in> cluster_objects lib kinds stored c"
  proof -
    have key: "(pluralResource lib (un_GroupVersionKind r), ns, name) \<in> stored (snd c)" "un_GroupVersionKind r \<in> kinds"
      using r by (simp_all add: cluster_objects_def)
    obtain s' where s': "client_PatchObject lib cl ns name r [] (snd c) = (s', None)" "stored s' = stored (snd c)"
      using client_PatchObject_ok [OF lib srv' key(1) enc key(2)] by (elim exE conjE) simp
    then show ?thesis
      by (intro exI [of _ "(mc_current (dynamicClients f'), s')"])
        (simp add: calls Framework_PatchObject_def cluster_objects_def)
  qed
qed

lemma framework_client_ok:
  assumes "object_lib lib" and "mc_clients (dynamicClients f) \<noteq> []"
    and "\<forall>c \<in> set (mc_clients (dynamicClients f)). object_server lib c (kind ` obs) stored flaky"
    and "inj_on (pluralResource lib) (kind ` obs)" and "templates_ok lib env obs kind"
  shows "client_ok (framework_env lib f env) obs kind (cluster_objects lib (kind ` obs) stored)"
proof -
  have t: "RawToObject (framework_env lib f env) = RawToObject env"
    "TemplateToObject (framework_env lib f env) = TemplateToObject env"
    by (simp_all add: framework_env_def)
  have "built (framework_env lib f env) obs r \<Longrightarrow> un_GroupVersionKind r \<in> kind ` obs \<and> encodable lib r" for r
    using built_template [OF assms(5), of r] by (simp add: built_def t)
  moreover have "\<forall>ob \<in> obs. (\<exists>raw. RawToObject env (obj_ObjectTemplatePath ob) = Inr raw \<and> un_GroupVersionKind raw = kind ob)
      \<and> (\<forall>m. \<exists>r. TemplateToObject env (obj_ObjectTemplatePath ob) m = Inr r \<and> un_GroupVersionKind r = kind ob)"
    using assms(5) unfolding templates_ok_def by blast
  ultimately show ?thesis
    unfolding client_ok_def t using framework_calls [OF assms(1-4)] by (intro conjI) simp_all
qed

text \<open>
  C1. A phase run through the framework reconciles a cluster whose API server fails now and then.
  As long as no request fails more than five times in a row, and also when a request that reports a
  failure has had its effect, every order in which the goroutines take their steps ends without an
  error, with exactly the requested replicas of every object of the bundle in every namespace and
  everything else untouched; one action on one object, with its retries, is one step. The retries of
  the client, its treatment of objects that exist already or no longer, the choice of the next client
  and the phase itself are all the code's. The hypotheses are about the API server, the wait loop,
  the templates, whose objects can be encoded, and the patch library, which is relied on only for two
  documents of the same kind, version and name: that the client hands it no others is proved.
\<close>

theorem phase_reconciles_flaky_cluster:
  assumes "object_lib lib" and "mc_clients (dynamicClients f) \<noteq> []"
    and "\<forall>c \<in> set (mc_clients (dynamicClients f)). object_server lib c (kind ` set (ph_ObjectBundle phase)) stored flaky"
    and "inj_on (pluralResource lib) (kind ` set (ph_ObjectBundle phase))"
    and "templates_ok lib env (set (ph_ObjectBundle phase)) kind"
    and "ph_ObjectBundle phase \<noteq> []" and "distinct (map (obj_ident kind) (ph_ObjectBundle phase))"
    and "ph_NamespaceList phase = Some nss" and "0 \<le> ph_ReplicasPerNamespace phase"
    and "CreateTuningSet (ex_factory st) (ph_TuningSet phase) = (tf, Inr ts)" and "starts_all tenv ts"
    and "phase_pre (framework_env lib f env) kind
      (cluster_objects lib (kind ` set (ph_ObjectBundle phase)) stored) (ph_ObjectBundle phase) nss c st"
  shows "\<exists>st'. ExecutePhase (framework_env lib f env) tenv sched phase st = Some (st', Some (NewErrorList []))
    \<and> phase_pre (framework_env lib f env) kind
        (cluster_objects lib (kind ` set (ph_ObjectBundle phase)) stored) (ph_ObjectBundle phase) nss
        (\<lambda>_. ph_ReplicasPerNamespace phase) st'
    \<and> (\<forall>k. (\<forall>ns \<in> set nss. \<forall>ob \<in> set (ph_ObjectBundle phase). \<forall>i \<ge> 0. k \<noteq> replica_key kind ob ns i) \<longrightarrow>
         (k \<in> cluster_objects lib (kind ` set (ph_ObjectBundle phase)) stored (ex_cluster st') \<longleftrightarrow>
          k \<in> cluster_objects lib (kind ` set (ph_ObjectBundle phase)) stored (ex_cluster st)))"
  by (rule phase_reconciles [OF framework_client_ok [OF assms(1-5)] assms(6-8,12,9-11)])

text \<open>A server that answers every third request; before an answer its failing creations take effect.\<close>

definition sample_server :: "(stored_key set \<times> nat) dynamic_client" where
  "sample_server = (let fails = (\<lambda>n. n mod 3 \<noteq> 0) in
     \<lparr>dyn_Create = (\<lambda>gvr ns obj (S, n). let k = (gvr, ns, GetName (sample_lib :: (stored_key set \<times> nat) client_lib) obj) in
        if fails n then ((if n mod 3 = 1 then insert k S else S, n - 1), Some (ErrText ''internal''))
        else if k \<in> S then ((S, n + 2), Some (ErrText ''already exists'')) else ((insert k S, n + 2), None)),
      dyn_List = (\<lambda>_ _ _ s. (s, Inr [])),
      dyn_Get = (\<lambda>gvr ns name (S, n). if fails n then ((S, n - 1), Inl (ErrText ''internal''))
        else ((S, n), Inr \<lparr>un_GroupVersionKind = sample_kind, un_Object = [(''name'', VString name)]\<rparr>)),
      dyn_Patch = (\<lambda>gvr ns name p (S, n). if fails n then ((S, n - 1), Some (ErrText ''internal'')) else ((S, n + 2), None)),
      dyn_Delete = (\<lambda>gvr ns name (S, n). if fails n then ((S, n - 1), Some (ErrText ''internal''))
        else if (gvr, ns, name) \<notin> S then ((S, n + 2), Some (ErrText ''not found''))
        else ((S - {(gvr, ns, name)}, n + 2), None))\<rparr>)"

lemma object_server_sample: "object_server sample_lib sample_server {sample_kind} fst (\<lambda>s. snd s mod 3)"
proof -
  note rules = sample_server_def Let_def sample_codes mod3_decreases
  have "m mod 3 < 6" for m :: nat by (rule less_trans [OF mod_less_divisor]) simp_all
  moreover have "create_doc sample_lib sample_server fst (\<lambda>s. snd s mod 3)"
    unfolding create_doc_def by (auto simp: rules split: if_splits)
  moreover have "delete_doc sample_lib sample_server fst (\<lambda>s. snd s mod 3)"
    unfolding delete_doc_def by (auto simp: rules split: if_splits)
  moreover have "encodable sample_lib obj" for obj by (simp add: encodable_def sample_lib_def)
  moreover from this have "get_doc sample_lib sample_server {sample_kind} fst (\<lambda>s. snd s mod 3)"
    unfolding get_doc_def returned_def by (auto simp: rules split: if_splits) (simp add: sample_lib_def)
  moreover have "patch_doc sample_lib sample_server fst (\<lambda>s. snd s mod 3)"
    unfolding patch_doc_def by (auto simp: rules split: if_splits)
  ultimately show ?thesis by (simp add: object_server_def)
qed

lemma object_lib_sample: "object_lib sample_lib"
  by (simp add: object_lib_def backoff_doc_sample) (auto simp: sample_lib_def encodable_def)

definition sample_framework :: "(stored_key set \<times> nat) Framework" where
  "sample_framework = \<lparr>automanagedNamespacePrefix = ''test'', automanagedNamespaces = [],
     clientSets = \<lparr>mc_clients = [], mc_current = 0\<rparr>,
     dynamicClients = \<lparr>mc_clients = [sample_server, sample_server], mc_current = 0\<rparr>\<rparr>"

definition sample_templates :: "(nat \<times> stored_key set \<times> nat) phase_env" where
  "sample_templates = \<lparr>RawToObject = (\<lambda>_. Inr \<lparr>un_GroupVersionKind = sample_kind, un_Object = []\<rparr>),
     TemplateToObject = (\<lambda>_ m. Inr \<lparr>un_GroupVersionKind = sample_kind, un_Object = m\<rparr>),
     TemplateMapping = [], NamespacePrefix = ''test'',
     fw_CreateObject = (\<lambda>_ _ _ c. (c, None)), fw_PatchObject = (\<lambda>_ _ _ c. (c, None)),
     fw_DeleteObject = (\<lambda>_ _ _ c. (c, None)),
     LabelSelectorAsSelector = Inr, NumObjectsMatchingSelector = (\<lambda>_ _ _ _. Inr 0)\<rparr>"

definition flaky_state :: "(nat \<times> stored_key set \<times> nat) exec_state" where
  "flaky_state = \<lparr>ex_namespaces = newNamespacesState, ex_heap = [],
     ex_factory = Factory_Init NewFactory [sample_tuning_set], ex_cluster = (0, {}, 2)\<rparr>"

lemma flaky_pre:
  "phase_pre (framework_env sample_lib sample_framework sample_templates) (\<lambda>_. sample_kind)
     (cluster_objects sample_lib {sample_kind} fst) [sample_object] [''a'', ''b''] (\<lambda>_. 0) flaky_state"
  by (simp add: phase_pre_def flaky_state_def exec_wf_def ptr_of_def framework_env_def sample_templates_def
      newNamespacesState_def NamespacesState_Get_def tracked_count_def getIdentifier_def inst_def
      getReplicaCountOfNewObject_def sample_object_def cluster_objects_def)

theorem phase_reconciles_flaky_cluster_witness:
  "\<exists>st'. ExecutePhase (framework_env sample_lib sample_framework sample_templates) sample_tuning_env [3, 0, 1] sample_phase flaky_state
      = Some (st', Some (NewErrorList []))
    \<and> phase_pre (framework_env sample_lib sample_framework sample_templates) (\<lambda>_. sample_kind)
        (cluster_objects sample_lib {sample_kind} fst) [sample_object] [''a'', ''b''] (\<lambda>_. 2) st'"
proof -
  have "mc_clients (dynamicClients sample_framework) = [sample_server, sample_server]"
      "templates_ok (sample_lib :: (stored_key set \<times> nat) client_lib) sample_templates {sample_object} (\<lambda>_. sample_kind)"
      "CreateTuningSet (ex_factory flaky_state) ''Uniform'' =
         (ex_factory sample_state, Inr (TStepped \<lparr>sl_BurstSize = 2, sl_StepDelay = 5\<rparr>))"
    using sample_phase_facts(3)
    by (simp_all add: sample_framework_def templates_ok_def encodable_def sample_lib_def sample_templates_def flaky_state_def sample_state_def)
  then show ?thesis
    using phase_reconciles_flaky_cluster [where lib = sample_lib and f = sample_framework and env = sample_templates
        and stored = fst and flaky = "\<lambda>s. snd s mod 3" and kind = "\<lambda>_. sample_kind" and phase = sample_phase
        and sched = "[3, 0, 1]" and c = "\<lambda>_. 0" and st = flaky_state and nss = "[''a'', ''b'']"
        and tenv = sample_tuning_env, OF object_lib_sample]
      object_server_sample sample_phase_facts(4) flaky_pre by auto
qed

end
