(* ===== verification/Framework_Namespaces.thy ===== *)
theory Framework_Namespaces
  imports Framework
begin

text \<open>
  The automanaged namespaces of a test: that creating them makes them exist, that deleting them
  in concurrent goroutines forgets exactly the ones that are gone, and that the two together leave
  the cluster as it was.
\<close>

subsection \<open>What the requests on namespaces promise\<close>

text \<open>
  \<open>nss\<close> are the namespaces that exist and \<open>doomed\<close> those being terminated: a delete request makes
  its namespace doomed, and a doomed namespace disappears at some later request. A transient
  failure of a request may or may not have its effect; at most five happen in a row.
\<close>

record 's ns_view =
  nss :: "'s \<Rightarrow> string set"
  doomed :: "'s \<Rightarrow> string set"
  flaky :: "'s \<Rightarrow> nat"

definition ns_list_doc :: "'s client_lib \<Rightarrow> 's clientset \<Rightarrow> 's ns_view \<Rightarrow> bool" where
  "ns_list_doc lib c v \<longleftrightarrow> (\<forall>s s' res. namespaces_List c s = (s', res) \<longrightarrow> doomed v s = {} \<longrightarrow>
     doomed v s' = {} \<and> nss v s' = nss v s
     \<and> (case res of Inr l \<Rightarrow> set l = nss v s | Inl e \<Rightarrow> transient lib [] e \<and> flaky v s' < flaky v s))"

definition ns_create_doc :: "'s client_lib \<Rightarrow> 's clientset \<Rightarrow> 's ns_view \<Rightarrow> bool" where
  "ns_create_doc lib c v \<longleftrightarrow> (\<forall>ns s s' err. namespaces_Create c ns s = (s', err) \<longrightarrow> doomed v s = {} \<longrightarrow>
     doomed v s' = {} \<and> (case err of
        None \<Rightarrow> nss v s' = insert ns (nss v s)
      | Some e \<Rightarrow> if IsAlreadyExists lib e then ns \<in> nss v s \<and> nss v s' = nss v s
          else transient lib [] e \<and> nss v s' \<in> {nss v s, insert ns (nss v s)} \<and> flaky v s' < flaky v s))"

definition shrinks :: "'s ns_view \<Rightarrow> string set \<Rightarrow> 's \<Rightarrow> 's \<Rightarrow> bool" where
  "shrinks v D s s' \<longleftrightarrow> nss v s' \<subseteq> nss v s \<and> nss v s - nss v s' \<subseteq> D \<union> doomed v s \<and> doomed v s' \<subseteq> D \<union> doomed v s"

definition ns_delete_doc :: "'s client_lib \<Rightarrow> 's clientset \<Rightarrow> 's ns_view \<Rightarrow> bool" where
  "ns_delete_doc lib c v \<longleftrightarrow>
     (\<forall>ns s s' err. namespaces_Delete c ns s = (s', err) \<longrightarrow> shrinks v {ns} s s')
   \<and> (\<forall>ns s s' err. namespaces_Get c ns s = (s', err) \<longrightarrow> shrinks v {} s s'
        \<and> (\<forall>e. err = Some e \<and> IsNotFound lib e \<longrightarrow> ns \<notin> nss v s'))"

definition namespace_server :: "'s client_lib \<Rightarrow> 's ns_view \<Rightarrow> 's clientset \<Rightarrow> bool" where
  "namespace_server lib v c \<longleftrightarrow> (\<forall>s. flaky v s < 6) \<and> ns_list_doc lib c v \<and> ns_create_doc lib c v \<and> ns_delete_doc lib c v"

lemma shrinks_refl [simp]: "shrinks v D s s"
  by (auto simp: shrinks_def)

lemma shrinks_trans: "shrinks v D s s' \<Longrightarrow> shrinks v D s' s'' \<Longrightarrow> shrinks v D s s''"
  unfolding shrinks_def by blast

lemma shrinks_mono: "shrinks v D s s' \<Longrightarrow> D \<subseteq> E \<Longrightarrow> shrinks v E s s'"
  unfolding shrinks_def by blast

lemma CreateNamespace_ok:
  assumes "backoff_doc lib" and "namespace_server lib v c" and "doomed v s = {}"
  shows "\<exists>s'. CreateNamespace lib c ns s = (s', None) \<and> doomed v s' = {} \<and> nss v s' = insert ns (nss v s)"
proof -
  let ?I = "\<lambda>t. doomed v t = {} \<and> nss v t \<in> {nss v s, insert ns (nss v s)}"
  have "\<exists>s' cap. RetryWithExponentialBackOff lib (RetryFunction lib (plain_call (namespaces_Create c ns))
      [Allow (IsAlreadyExists lib)]) (s, NoCapture) = ((s', cap), None) \<and> (doomed v s' = {} \<and> nss v s' = insert ns (nss v s))"
  proof (rule plain_retry_reach [OF assms(1), where m = "flaky v" and I = ?I])
    fix t t' err
    assume I: "?I t" and t': "namespaces_Create c ns t = (t', err)"
    have "doomed v t' = {}" and "case err of
        None \<Rightarrow> nss v t' = insert ns (nss v t)
      | Some e \<Rightarrow> if IsAlreadyExists lib e then ns \<in> nss v t \<and> nss v t' = nss v t
          else transient lib [] e \<and> nss v t' \<in> {nss v t, insert ns (nss v t)} \<and> flaky v t' < flaky v t"
      using assms(2) t' I by (simp_all add: namespace_server_def ns_create_doc_def)
    then show "case err of None \<Rightarrow> doomed v t' = {} \<and> nss v t' = insert ns (nss v s)
        | Some e \<Rightarrow> if allowed [Allow (IsAlreadyExists lib)] e then doomed v t' = {} \<and> nss v t' = insert ns (nss v s)
            else transient lib [Allow (IsAlreadyExists lib)] e \<and> ?I t' \<and> flaky v t' < flaky v t"
      using conjunct2 [OF I]
      by (elim insertE emptyE) (simp_all add: allowed_def Allow_def transient_more insert_absorb split: option.splits if_splits)
  qed (use assms(2,3) in \<open>simp_all add: namespace_server_def\<close>)
  then show ?thesis by (auto simp: CreateNamespace_def)
qed

lemma ListNamespaces_ok:
  assumes "backoff_doc lib" and "namespace_server lib v c" and "doomed v s = {}"
  shows "\<exists>s' l. ListNamespaces lib c s = (s', l, None) \<and> doomed v s' = {} \<and> nss v s' = nss v s \<and> set l = nss v s"
proof -
  let ?I = "\<lambda>t. doomed v (fst t) = {} \<and> nss v (fst t) = nss v s"
  let ?Q = "\<lambda>t. ?I t \<and> (\<exists>l. snd t = NamespaceItems l \<and> set l = nss v s)"
  have "\<exists>t. checks 6 (RetryFunction lib (list_call (namespaces_List c) NamespaceItems) []) (s, NamespaceItems []) = (t, None) \<and> ?Q t"
  proof (rule checks_reach [where I = ?I and m = "flaky v \<circ> fst"])
    fix t t' ok err
    assume I: "?I t" and cond: "RetryFunction lib (list_call (namespaces_List c) NamespaceItems) [] t = (t', ok, err)"
    obtain s1 res where l: "namespaces_List c (fst t) = (s1, res)" by fastforce
    have "doomed v s1 = {} \<and> nss v s1 = nss v (fst t)
        \<and> (case res of Inr l \<Rightarrow> set l = nss v (fst t) | Inl e \<Rightarrow> transient lib [] e \<and> flaky v s1 < flaky v (fst t))"
      using assms(2) l I by (simp add: namespace_server_def ns_list_doc_def)
    then show "err = None \<and> (if ok then ?Q t' else ?I t' \<and> (flaky v \<circ> fst) t' < (flaky v \<circ> fst) t)"
      using cond l I by (auto simp: RetryFunction_cases list_call_def allowed_def split: sum.splits)
  qed (use assms(2,3) in \<open>simp_all add: namespace_server_def\<close>)
  then show ?thesis by (auto simp: ListNamespaces_def RetryWithExponentialBackOff_checks [OF assms(1)])
qed

subsection \<open>Creating\<close>

definition fw_ok :: "'s client_lib \<Rightarrow> 's ns_view \<Rightarrow> 's Framework \<Rightarrow> bool" where
  "fw_ok lib v f \<longleftrightarrow> mc_clients (clientSets f) \<noteq> [] \<and> (\<forall>c \<in> set (mc_clients (clientSets f)). namespace_server lib v c)
     \<and> distinct (map fst (automanagedNamespaces f))"

lemma get_clientset_ok:
  assumes "fw_ok lib v f"
  shows "\<exists>c m. get_clientset (f, s) = Some (c, f\<lparr>clientSets := m\<rparr>, s) \<and> namespace_server lib v c
    \<and> mc_clients m = mc_clients (clientSets f)"
proof -
  let ?cs = "clientSets f"
  let ?n = "(mc_current ?cs + 1) mod length (mc_clients ?cs)"
  have ne: "mc_clients ?cs \<noteq> []" using assms by (simp add: fw_ok_def)
  then have "get_clientset (f, s) = Some (mc_clients ?cs ! ?n, f\<lparr>clientSets := ?cs\<lparr>mc_current := ?n\<rparr>\<rparr>, s)"
    by (simp add: get_clientset_def GetClient_def Let_def)
  moreover have "namespace_server lib v (mc_clients ?cs ! ?n)" using assms ne by (simp add: fw_ok_def)
  ultimately show ?thesis
    by (intro exI [of _ "mc_clients ?cs ! ?n"] exI [of _ "?cs\<lparr>mc_current := ?n\<rparr>"]) simp
qed

lemma create_namespaces_loop_ok:
  assumes lib: "backoff_doc lib"
  shows "fw_ok lib v f \<Longrightarrow> doomed v s = {} \<Longrightarrow>
    \<forall>i \<in> set is. automanaged_name f i \<in> E \<longrightarrow> allowExisting \<and> automanaged_name f i \<in> nss v s \<Longrightarrow>
    \<exists>f' s'. create_namespaces_loop lib E allowExisting del is (f, s) = Some ((f', s'), None)
      \<and> fw_ok lib v f' \<and> automanagedNamespacePrefix f' = automanagedNamespacePrefix f \<and> doomed v s' = {}
      \<and> nss v s' = nss v s \<union> automanaged_name f ` set is
      \<and> map_of (automanagedNamespaces f') =
          (\<lambda>ns. if ns \<in> automanaged_name f ` set is then Some del else map_of (automanagedNamespaces f) ns)"
proof (induction "is" arbitrary: f s)
  case (Cons i "is")
  let ?n = "automanaged_name f i"
  have ih: ?case if g: "g = f\<lparr>clientSets := m, automanagedNamespaces := AList.update ?n del (automanagedNamespaces f)\<rparr>"
      and m: "mc_clients m = mc_clients (clientSets f)" and t: "doomed v t = {}" "nss v t = insert ?n (nss v s)"
      and step: "create_namespaces_loop lib E allowExisting del (i # is) (f, s) = create_namespaces_loop lib E allowExisting del is (g, t)"
    for g m t
  proof -
    have name: "automanaged_name g = automanaged_name f" by (simp add: g automanaged_name_def fun_eq_iff)
    have ok: "fw_ok lib v g" using Cons.prems(1) m by (simp add: g fw_ok_def distinct_update)
    have map: "map_of (automanagedNamespaces g) = (map_of (automanagedNamespaces f))(?n \<mapsto> del)"
      by (simp add: g update_conv')
    have "\<forall>j \<in> set is. automanaged_name g j \<in> E \<longrightarrow> allowExisting \<and> automanaged_name g j \<in> nss v t"
      using Cons.prems(3) by (simp add: name t(2))
    from Cons.IH [OF ok t(1) this] obtain f' s' where
      "create_namespaces_loop lib E allowExisting del is (g, t) = Some ((f', s'), None)" "fw_ok lib v f'"
      "automanagedNamespacePrefix f' = automanagedNamespacePrefix g" "doomed v s' = {}"
      "nss v s' = nss v t \<union> automanaged_name f ` set is"
      "map_of (automanagedNamespaces f') = (\<lambda>ns. if ns \<in> automanaged_name f ` set is then Some del else map_of (automanagedNamespaces g) ns)"
      unfolding name by (elim exE conjE) simp
    then show ?thesis
      unfolding step by (intro exI [of _ f'] exI [of _ s']) (auto simp: t(2) map fun_eq_iff, simp_all add: g)
  qed
  show ?case
  proof (cases "?n \<in> E")
    case True
    then show ?thesis using Cons.prems by (intro ih [where m = "clientSets f" and t = s, OF refl]) auto
  next
    case False
    obtain c m where c: "get_clientset (f, s) = Some (c, f\<lparr>clientSets := m\<rparr>, s)" "namespace_server lib v c"
        "mc_clients m = mc_clients (clientSets f)"
      using get_clientset_ok [OF Cons.prems(1), of s] by (elim exE conjE)
    obtain s' where "CreateNamespace lib c ?n s = (s', None)" "doomed v s' = {}" "nss v s' = insert ?n (nss v s)"
      using CreateNamespace_ok [OF lib c(2) Cons.prems(2), of ?n] by (elim exE conjE)
    then show ?thesis using False c(1,3) by (intro ih [where m = m and t = s', OF refl]) (simp_all add: Let_def)
  qed
qed simp


lemma create_loop_rejects:
  assumes lib: "backoff_doc lib"
  shows "fw_ok lib v f \<Longrightarrow> doomed v s = {} \<Longrightarrow> i \<in> set is \<Longrightarrow> automanaged_name f i \<in> E \<Longrightarrow>
    \<exists>w' err. create_namespaces_loop lib E False del is (f, s) = Some (w', Some err)"
proof (induction "is" arbitrary: f s)
  case (Cons j "is")
  let ?n = "automanaged_name f j"
  show ?case
  proof (cases "?n \<in> E")
    case False
    obtain c m where c: "get_clientset (f, s) = Some (c, f\<lparr>clientSets := m\<rparr>, s)" "namespace_server lib v c"
        "mc_clients m = mc_clients (clientSets f)"
      using get_clientset_ok [OF Cons.prems(1), of s] by (elim exE conjE)
    obtain s' where s': "CreateNamespace lib c ?n s = (s', None)" "doomed v s' = {}"
      using CreateNamespace_ok [OF lib c(2) Cons.prems(2), of ?n] by (elim exE conjE)
    let ?g = "f\<lparr>clientSets := m, automanagedNamespaces := AList.update ?n del (automanagedNamespaces f)\<rparr>"
    have "fw_ok lib v ?g" using Cons.prems(1) c(3) by (simp add: fw_ok_def distinct_update)
    moreover have "automanaged_name ?g i \<in> E" "i \<in> set is"
      using Cons.prems(3,4) False by (auto simp: automanaged_name_def)
    ultimately show ?thesis using Cons.IH [of ?g s'] c(1) s' False by (simp add: Let_def)
  qed simp
qed simp

lemma create_automanaged:
  assumes "backoff_doc lib" and "fw_ok lib v f" and "doomed v s = {}"
  shows "if allowExisting \<or> (\<forall>i \<in> {1..n}. automanaged_name f i \<notin> nss v s)
    then \<exists>f' s'. CreateAutomanagedNamespaces lib n allowExisting del (f, s) = Some ((f', s'), None)
      \<and> fw_ok lib v f' \<and> doomed v s' = {} \<and> nss v s' = nss v s \<union> automanaged_name f ` {1..n}
      \<and> map_of (automanagedNamespaces f') =
          (\<lambda>ns. if ns \<in> automanaged_name f ` {1..n} then Some del else map_of (automanagedNamespaces f) ns)
    else \<exists>w' err. CreateAutomanagedNamespaces lib n allowExisting del (f, s) = Some (w', Some err)"
proof -
  obtain c m where c: "get_clientset (f, s) = Some (c, f\<lparr>clientSets := m\<rparr>, s)" "namespace_server lib v c"
      "mc_clients m = mc_clients (clientSets f)"
    using get_clientset_ok [OF assms(2), of s] by (elim exE conjE)
  obtain t l where l: "ListNamespaces lib c s = (t, l, None)" "doomed v t = {}" "nss v t = nss v s" "set l = nss v s"
    using ListNamespaces_ok [OF assms(1) c(2) assms(3)] by (elim exE conjE)
  let ?g = "f\<lparr>clientSets := m\<rparr>"
  have g: "fw_ok lib v ?g" "automanaged_name ?g = automanaged_name f" "automanagedNamespaces ?g = automanagedNamespaces f"
    using assms(2) c(3) by (simp_all add: fw_ok_def automanaged_name_def fun_eq_iff)
  have step: "CreateAutomanagedNamespaces lib n allowExisting del (f, s) =
      create_namespaces_loop lib (nss v s) allowExisting del [1..n] (?g, t)"
    by (simp add: CreateAutomanagedNamespaces_def c(1) l(1,4))
  show ?thesis
  proof (cases "allowExisting \<or> (\<forall>i \<in> {1..n}. automanaged_name f i \<notin> nss v s)")
    case True
    then have "\<forall>i \<in> set [1..n]. automanaged_name ?g i \<in> nss v s \<longrightarrow> allowExisting \<and> automanaged_name ?g i \<in> nss v t"
      by (auto simp: g(2) l(3))
    from create_namespaces_loop_ok [OF assms(1) g(1) l(2) this, of del] True show ?thesis
      unfolding step g(2,3) l(3) by auto
  next
    case False
    then obtain i where "i \<in> set [1..n]" "automanaged_name ?g i \<in> nss v s" "allowExisting = False"
      unfolding g(2) by auto
    with create_loop_rejects [OF assms(1) g(1) l(2), of i "[1..n]" "nss v s" del] show ?thesis
      unfolding step if_not_P [OF False] by simp
  qed
qed


text \<open>
  C21. With namespaces that are free, or existing ones that are accepted, the creation of the
  automanaged namespaces succeeds: exactly \<open>prefix-1, ..., prefix-n\<close> are added to the cluster, all
  of them are recorded with the flag that says whether to delete them, and nothing else changes. If
  one of them exists and existing ones are not accepted, it fails.
\<close>

theorem CreateAutomanagedNamespaces_outcome:
  assumes "backoff_doc lib" and "fw_ok lib v f" and "doomed v s = {}"
  shows "if allowExisting \<or> (\<forall>i \<in> {1..n}. automanaged_name f i \<notin> nss v s)
    then \<exists>f' s'. CreateAutomanagedNamespaces lib n allowExisting del (f, s) = Some ((f', s'), None)
      \<and> fw_ok lib v f' \<and> doomed v s' = {} \<and> nss v s' = nss v s \<union> automanaged_name f ` {1..n}
      \<and> map_of (automanagedNamespaces f') =
          (\<lambda>ns. if ns \<in> automanaged_name f ` {1..n} then Some del else map_of (automanagedNamespaces f) ns)
    else \<exists>w' err. CreateAutomanagedNamespaces lib n allowExisting del (f, s) = Some (w', Some err)"
  using assms by (rule create_automanaged)

subsection \<open>Deleting\<close>

interpretation deletion: goroutines "delete_step lib timeout" delete_rank for lib :: "'s client_lib" and timeout
proof
  show "delete_rank (fst (delete_step lib timeout th s)) \<le> delete_rank th - 1" for th s
    by (cases "(lib, timeout, th, s)" rule: delete_step.cases) (auto split: prod.splits option.splits)
qed

lemma plain_call_keeps:
  assumes "\<And>s. R s (fst (f s))" and "\<And>s. R s s" and "\<And>a b c. R a b \<Longrightarrow> R b c \<Longrightarrow> R a c"
    and "backoff_doc lib"
  shows "R s (fst (fst (RetryWithExponentialBackOff lib (RetryFunction lib (plain_call f) opts) (s, cap))))"
proof -
  have step: "fst (fst (RetryFunction lib (plain_call f) opts t)) = fst (f (fst t))" for t
    by (auto simp: RetryFunction_cases plain_call_def Let_def split: prod.splits option.splits)
  show ?thesis
    using checks_keep [where R = "\<lambda>a b. R (fst a) (fst b)" and cond = "RetryFunction lib (plain_call f) opts" and n = 6
        and s = "(s, cap)"] assms(1-3)
    by (simp add: RetryWithExponentialBackOff_checks [OF assms(4)] step)
qed

lemma DeleteNamespace_shrinks:
  assumes "backoff_doc lib" and "namespace_server lib v c" and "DeleteNamespace lib c ns s = (s', err)"
  shows "shrinks v {ns} s s'"
proof -
  have "shrinks v {ns} t (fst (namespaces_Delete c ns t))" for t
    using assms(2) by (cases "namespaces_Delete c ns t") (simp add: namespace_server_def ns_delete_doc_def)
  then have "shrinks v {ns} s (fst (fst (RetryWithExponentialBackOff lib
      (RetryFunction lib (plain_call (namespaces_Delete c ns)) [Allow (IsNotFound lib)]) (s, NoCapture))))"
    by (rule plain_call_keeps [OF _ shrinks_refl _ assms(1)]) (rule shrinks_trans)
  then show ?thesis using assms(3) by (auto simp: DeleteNamespace_def split: prod.splits)
qed

lemma WaitForDeleteNamespace_gone:
  assumes "poll_doc lib" and "namespace_server lib v c" and "WaitForDeleteNamespace lib c ns timeout s = (s', err)"
  shows "shrinks v {ns} s s'" and "err = None \<Longrightarrow> ns \<notin> nss v s'"
proof -
  let ?cond = "retryWaitFunc lib c ns"
  have get: "shrinks v {ns} t t'" "err = Some e \<Longrightarrow> IsNotFound lib e \<Longrightarrow> ns \<notin> nss v t'"
    if "namespaces_Get c ns t = (t', err)" for t t' err e
    using assms(2) that shrinks_mono [of v "{}" t t' "{ns}"] by (simp_all add: namespace_server_def ns_delete_doc_def)
  obtain n where n: "PollImmediate lib (5 * second) timeout ?cond (s, NoCapture) = checks (Suc n) ?cond (s, NoCapture)"
    using assms(1) unfolding poll_doc_def by blast
  then obtain cap where res: "checks (Suc n) ?cond (s, NoCapture) = ((s', cap), err)"
    using assms(3) by (auto simp: WaitForDeleteNamespace_def split: prod.splits)
  have "shrinks v {ns} (fst t) (fst (fst (?cond t)))" for t
    using get(1) [of "fst t"]
    by (auto simp: retryWaitFunc_def plain_call_def Let_def split: prod.splits option.splits)
  from checks_keep [where R = "\<lambda>a b. shrinks v {ns} (fst a) (fst b)", OF this] shrinks_trans
  have "shrinks v {ns} (fst (s, NoCapture)) (fst (fst (checks (Suc n) ?cond (s, NoCapture))))" by (metis shrinks_refl)
  then show "shrinks v {ns} s s'" unfolding res by simp
  show "ns \<notin> nss v s'" if "err = None"
  proof -
    obtain t where "?cond t = ((s', cap), True, None)" using checks_None [of "Suc n" ?cond] res \<open>err = None\<close> by metis
    then obtain e where "namespaces_Get c ns (fst t) = (s', Some e)" "IsNotFound lib e"
      by (auto simp: retryWaitFunc_def plain_call_def Let_def split: prod.splits option.splits if_splits)
    then show ?thesis using get(2) by blast
  qed
qed


text \<open>
  The invariant of the goroutines: \<open>R\<close> are the namespaces removed so far. Each finished goroutine
  has either removed its namespace, which is then gone, or appended an error.
\<close>

definition thread_for :: "'s client_lib \<Rightarrow> 's ns_view \<Rightarrow> string \<Rightarrow> 's delete_thread \<Rightarrow> bool" where
  "thread_for lib v ns th = (case th of
      DeleteRequest ns' \<Rightarrow> ns' = ns | DeleteWait c ns' \<Rightarrow> ns' = ns \<and> namespace_server lib v c | DeleteDone \<Rightarrow> True)"

definition done_threads :: "'s delete_thread list \<Rightarrow> nat set" where
  "done_threads ths = {i. i < length ths \<and> ths ! i = DeleteDone}"

definition removed_ok ::
    "string list \<Rightarrow> (string \<rightharpoonup> bool) \<Rightarrow> 's ns_view \<Rightarrow> nat set \<Rightarrow> 's fw \<times> ErrorList \<Rightarrow> string set \<Rightarrow> bool" where
  "removed_ok names m0 v D st R \<longleftrightarrow> R \<subseteq> (!) names ` D \<and> R \<inter> nss v (snd (fst st)) = {}
     \<and> card R + length (errors (snd st)) = card D
     \<and> map_of (automanagedNamespaces (fst (fst st))) = m0 |` (- R)"

definition delete_inv ::
    "'s client_lib \<Rightarrow> 's ns_view \<Rightarrow> string list \<Rightarrow> (string \<rightharpoonup> bool) \<Rightarrow> 's \<Rightarrow> 's delete_thread list
       \<Rightarrow> ('s fw \<times> ErrorList) option \<Rightarrow> bool" where
  "delete_inv lib v names m0 s0 ths st \<longleftrightarrow> length ths = length names
     \<and> (\<forall>i < length ths. thread_for lib v (names ! i) (ths ! i))
     \<and> (\<exists>f s errs. st = Some ((f, s), errs) \<and> fw_ok lib v f \<and> shrinks v (set names) s0 s
          \<and> (\<exists>R. removed_ok names m0 v (done_threads ths) ((f, s), errs) R))"

lemma done_threads_update:
  "i < length ths \<Longrightarrow> ths ! i \<noteq> DeleteDone \<Longrightarrow>
     done_threads (ths[i := th]) = (if th = DeleteDone then insert i (done_threads ths) else done_threads ths)
     \<and> i \<notin> done_threads ths"
  by (auto simp: done_threads_def nth_list_update)

lemma finite_done_threads [simp]: "finite (done_threads ths)"
  by (simp add: done_threads_def)

lemma removed_ok_shrinks:
  "removed_ok names m0 v D ((f, s), errs) R \<Longrightarrow> nss v s' \<subseteq> nss v s \<Longrightarrow>
     automanagedNamespaces f' = automanagedNamespaces f \<Longrightarrow> removed_ok names m0 v D ((f', s'), errs) R"
  by (auto simp: removed_ok_def)

lemma removed_ok_error:
  "removed_ok names m0 v D ((f, s), errs) R \<Longrightarrow> finite D \<Longrightarrow> i \<notin> D \<Longrightarrow>
     removed_ok names m0 v (insert i D) ((f, s), ErrorList_Append errs [e]) R"
  by (auto simp: removed_ok_def ErrorList_Append_def)

lemma removed_ok_success:
  assumes "removed_ok names m0 v D ((f, s), errs) R" and "finite D" and "i \<notin> D" and "D \<subseteq> {..<length names}"
    and "i < length names" and "distinct names" and "names ! i \<notin> nss v s"
  shows "removed_ok names m0 v (insert i D) ((removeAutomanagedNamespace (names ! i) f, s), errs) (insert (names ! i) R)"
proof -
  have "names ! i \<notin> (!) names ` D" using assms(3-6) by (auto simp: nth_eq_iff_index_eq)
  then have "names ! i \<notin> R" and "finite R" using assms(1,2) by (auto simp: removed_ok_def intro: finite_subset)
  moreover have "(m0 |` (- R))(names ! i := None) = m0 |` (- insert (names ! i) R)" by (auto simp: restrict_map_def)
  ultimately show ?thesis
    using assms(1-3,7) by (auto simp: removed_ok_def removeAutomanagedNamespace_def delete_conv')
qed

text \<open>One goroutine moves; its new state fits its namespace, and the removed namespaces are accounted for.\<close>

lemma delete_inv_result:
  assumes "delete_inv lib v names m0 s0 ths (Some ((f, s), errs))" and "i < length names"
    and "fw_ok lib v f'" and "shrinks v {names ! i} s s'" and "thread_for lib v (names ! i) th"
    and "removed_ok names m0 v (done_threads (ths[i := th])) ((f', s'), errs') R'"
  shows "delete_inv lib v names m0 s0 (ths[i := th]) (Some ((f', s'), errs'))"
proof -
  have inv: "length ths = length names" "\<forall>i < length ths. thread_for lib v (names ! i) (ths ! i)" "shrinks v (set names) s0 s"
    using assms(1) by (auto simp: delete_inv_def)
  have "shrinks v (set names) s0 s'"
    using shrinks_trans [OF inv(3) shrinks_mono [OF assms(4)]] assms(2) by simp
  then show ?thesis using assms(2,3,5,6) inv(1,2) by (auto simp: delete_inv_def nth_list_update)
qed

lemma delete_inv_request:
  assumes lib: "backoff_doc lib" and inv: "delete_inv lib v names m0 s0 ths (Some ((f, s), errs))"
    and i: "i < length names" and th: "ths ! i = DeleteRequest ns"
  shows "delete_inv lib v names m0 s0 (ths[i := fst (delete_step lib timeout (ths ! i) (Some ((f, s), errs)))])
           (snd (delete_step lib timeout (ths ! i) (Some ((f, s), errs))))"
proof -
  obtain R where ok: "fw_ok lib v f" and R: "removed_ok names m0 v (done_threads ths) ((f, s), errs) R"
      and len: "length ths = length names" and ns: "ns = names ! i"
    using inv i th by (auto simp: delete_inv_def thread_for_def split: delete_thread.splits)
  obtain c m where c: "get_clientset (f, s) = Some (c, f\<lparr>clientSets := m\<rparr>, s)" "namespace_server lib v c"
      "mc_clients m = mc_clients (clientSets f)"
    using get_clientset_ok [OF ok, of s] by (elim exE conjE)
  obtain s' err where d: "DeleteNamespace lib c ns s = (s', err)" by fastforce
  note sh = DeleteNamespace_shrinks [OF lib c(2) d, unfolded ns]
  have f': "fw_ok lib v (f\<lparr>clientSets := m\<rparr>)" using ok c(3) by (simp add: fw_ok_def)
  have R': "removed_ok names m0 v (done_threads ths) ((f\<lparr>clientSets := m\<rparr>, s'), errs) R"
    using removed_ok_shrinks [OF R] sh by (simp add: shrinks_def)
  have upd: "done_threads (ths[i := th']) = (if th' = DeleteDone then insert i (done_threads ths) else done_threads ths)"
      "i \<notin> done_threads ths" for th'
    using done_threads_update [of i ths] i th len by simp_all
  show ?thesis
    using delete_inv_result [OF inv i f' sh, of "DeleteWait c ns" errs R] delete_inv_result [OF inv i f' sh, of DeleteDone _ R]
      R' removed_ok_error [OF R' _ upd(2)] c(2)
    by (cases err) (simp_all add: th c(1) d [unfolded ns] thread_for_def upd ns)
qed

lemma delete_inv_wait:
  assumes lib: "poll_doc lib" and names: "distinct names" and inv: "delete_inv lib v names m0 s0 ths (Some ((f, s), errs))"
    and i: "i < length names" and th: "ths ! i = DeleteWait c ns"
  shows "delete_inv lib v names m0 s0 (ths[i := fst (delete_step lib timeout (ths ! i) (Some ((f, s), errs)))])
           (snd (delete_step lib timeout (ths ! i) (Some ((f, s), errs))))"
proof -
  obtain R where ok: "fw_ok lib v f" and R: "removed_ok names m0 v (done_threads ths) ((f, s), errs) R"
      and len: "length ths = length names" and ns: "ns = names ! i" and c: "namespace_server lib v c"
    using inv i th by (auto simp: delete_inv_def thread_for_def split: delete_thread.splits)
  obtain s' err where d: "WaitForDeleteNamespace lib c ns timeout s = (s', err)" by fastforce
  note sh = WaitForDeleteNamespace_gone [OF lib c d, unfolded ns]
  have R': "removed_ok names m0 v (done_threads ths) ((f, s'), errs) R"
    using removed_ok_shrinks [OF R] sh(1) by (simp add: shrinks_def)
  have upd: "done_threads (ths[i := DeleteDone]) = insert i (done_threads ths)" "i \<notin> done_threads ths"
      and D: "done_threads ths \<subseteq> {..<length names}"
    using done_threads_update [of i ths DeleteDone] i th len by (auto simp: done_threads_def)
  have "fw_ok lib v (removeAutomanagedNamespace (names ! i) f)"
    using ok by (simp add: fw_ok_def removeAutomanagedNamespace_def distinct_delete)
  then show ?thesis
    using delete_inv_result [OF inv i _ sh(1), of _ DeleteDone errs "insert (names ! i) R"]
      delete_inv_result [OF inv i ok sh(1), of DeleteDone _ R] removed_ok_error [OF R' _ upd(2)]
      removed_ok_success [OF R' _ upd(2) D i names sh(2)]
    by (cases err) (simp_all add: th d [unfolded ns] thread_for_def upd ns)
qed

lemma delete_inv_step:
  assumes "backoff_doc lib" and "poll_doc lib" and "distinct names"
    and "delete_inv lib v names m0 s0 ths st" and "i < length ths"
  shows "delete_inv lib v names m0 s0 (ths[i := fst (delete_step lib timeout (ths ! i) st)])
           (snd (delete_step lib timeout (ths ! i) st))"
proof -
  obtain f s errs where st: "st = Some ((f, s), errs)" and i: "i < length names"
    using assms(4,5) by (auto simp: delete_inv_def)
  note inv = assms(4) [unfolded st]
  show ?thesis
  proof (cases "ths ! i")
    case (DeleteRequest ns)
    then show ?thesis unfolding st by (rule delete_inv_request [OF assms(1) inv i])
  next
    case (DeleteWait c ns)
    then show ?thesis unfolding st by (rule delete_inv_wait [OF assms(2,3) inv i])
  next
    case DeleteDone
    then show ?thesis using assms(4) list_update_id [of ths i] by (simp add: st)
  qed
qed

lemma delete_rank_0: "delete_rank th = 0 \<longleftrightarrow> th = DeleteDone"
  by (cases th) simp_all

lemma delete_group:
  assumes "backoff_doc lib" and "poll_doc lib" and "distinct names" and "fw_ok lib v f"
    and "wait_group (delete_step lib timeout) delete_rank sched (map DeleteRequest names) (Some ((f, s), NewErrorList [])) = (ths, st)"
  shows "\<exists>f' s' errs R. st = Some ((f', s'), errs) \<and> fw_ok lib v f' \<and> shrinks v (set names) s s'
    \<and> R \<subseteq> set names \<and> R \<inter> nss v s' = {} \<and> card R + length (errors errs) = length names
    \<and> map_of (automanagedNamespaces f') = map_of (automanagedNamespaces f) |` (- R)"
proof -
  let ?inv = "delete_inv lib v names (map_of (automanagedNamespaces f)) s"
  have "removed_ok names (map_of (automanagedNamespaces f)) v {} ((f, s), NewErrorList []) {}"
    by (simp add: removed_ok_def NewErrorList_def restrict_map_def)
  then have "\<exists>R. removed_ok names (map_of (automanagedNamespaces f)) v (done_threads (map DeleteRequest names)) ((f, s), NewErrorList []) R"
    by (intro exI [of _ "{}"]) (simp add: done_threads_def cong: conj_cong)
  then have init: "?inv (map DeleteRequest names) (Some ((f, s), NewErrorList []))"
    using assms(4) by (simp add: delete_inv_def thread_for_def)
  have res: "?inv ths st" "\<forall>th \<in> set ths. delete_rank th = 0"
    by (rule deletion.wait_group_result [where P = ?inv, OF assms(5) init], erule (1) delete_inv_step [OF assms(1-3)])+
  have len: "length ths = length names" using res(1) by (simp add: delete_inv_def)
  have "ths ! i = DeleteDone" if "i < length names" for i
    using res(2) that len by (simp add: delete_rank_0)
  then have "done_threads ths = {..<length names}" by (auto simp: done_threads_def len)
  moreover have "(!) names ` {..<length names} = set names" by (auto simp: in_set_conv_nth)
  moreover obtain f' s' errs R where st: "st = Some ((f', s'), errs)" "fw_ok lib v f'" "shrinks v (set names) s s'"
      and R: "removed_ok names (map_of (automanagedNamespaces f)) v (done_threads ths) ((f', s'), errs) R"
    using res(1) unfolding delete_inv_def by (elim exE conjE)
  ultimately show ?thesis
    by (intro exI [of _ f'] exI [of _ s'] exI [of _ errs] exI [of _ R]) (simp add: removed_ok_def)
qed


lemma getAutomanagedNamespaces_id:
  assumes "distinct (map fst (automanagedNamespaces f))"
  shows "getAutomanagedNamespaces f = automanagedNamespaces f"
proof -
  have "foldl (\<lambda>m (k, v). AList.update k v m) acc m = acc @ m"
    if "distinct (map fst (acc @ m))" for acc m :: "(string \<times> bool) list"
    using that
  proof (induction m arbitrary: acc)
    case (Cons kv m)
    obtain k x where kv: "kv = (k, x)" by (cases kv)
    have "AList.update k x acc = acc @ [(k, x)]" using Cons.prems kv by (induction acc) auto
    then show ?case using Cons.IH [of "acc @ [(k, x)]"] Cons.prems kv by simp
  qed simp
  from this [of "[]" "automanagedNamespaces f"] assms show ?thesis by (simp add: getAutomanagedNamespaces_def)
qed

lemma DeleteAutomanagedNamespaces_group:
  assumes "fw_ok lib v f"
  shows "DeleteAutomanagedNamespaces lib sched timeout (f, s) =
    snd (wait_group (delete_step lib timeout) delete_rank sched
      (map DeleteRequest (map fst (filter snd (automanagedNamespaces f)))) (Some ((f, s), NewErrorList [])))"
proof -
  have "distinct (map fst (automanagedNamespaces f))" using assms by (simp add: fw_ok_def)
  moreover have "map (\<lambda>(ns, shouldBeDeleted). DeleteRequest ns) (filter (\<lambda>(ns, shouldBeDeleted). shouldBeDeleted) m) =
      (map DeleteRequest (map fst (filter snd m)) :: 'a delete_thread list)" for m
    by (induction m) auto
  ultimately show ?thesis by (simp only: DeleteAutomanagedNamespaces_def getAutomanagedNamespaces_id fst_conv)
qed

lemma deletable_names:
  assumes "distinct (map fst m)"
  shows "distinct (map fst (filter snd m))" "set (map fst (filter snd m)) = {ns. map_of m ns = Some True}"
proof -
  show "distinct (map fst (filter snd m))" using assms by (induction m) auto
  show "set (map fst (filter snd m)) = {ns. map_of m ns = Some True}"
    using map_of_eq_Some_iff [OF assms] by force
qed

lemma delete_automanaged:
  assumes "backoff_doc lib" and "poll_doc lib" and "fw_ok lib v f"
  shows "\<exists>f' s' errs R. DeleteAutomanagedNamespaces lib sched timeout (f, s) = Some ((f', s'), errs)
    \<and> R \<subseteq> {ns. map_of (automanagedNamespaces f) ns = Some True}
    \<and> nss v s' \<inter> R = {} \<and> nss v s' \<subseteq> nss v s
    \<and> nss v s - nss v s' \<subseteq> {ns. map_of (automanagedNamespaces f) ns = Some True} \<union> doomed v s
    \<and> map_of (automanagedNamespaces f') = map_of (automanagedNamespaces f) |` (- R)
    \<and> card R + length (errors errs) = card {ns. map_of (automanagedNamespaces f) ns = Some True}"
proof -
  let ?names = "map fst (filter snd (automanagedNamespaces f))"
  have d: "distinct ?names" "set ?names = {ns. map_of (automanagedNamespaces f) ns = Some True}"
    using deletable_names [of "automanagedNamespaces f"] assms(3) by (simp_all add: fw_ok_def)
  obtain ths st where g: "wait_group (delete_step lib timeout) delete_rank sched (map DeleteRequest ?names)
      (Some ((f, s), NewErrorList [])) = (ths, st)" by fastforce
  obtain f' s' errs R where *: "st = Some ((f', s'), errs)" "fw_ok lib v f'" "shrinks v (set ?names) s s'"
      "R \<subseteq> set ?names" "R \<inter> nss v s' = {}" "card R + length (errors errs) = length ?names"
      "map_of (automanagedNamespaces f') = map_of (automanagedNamespaces f) |` (- R)"
    using delete_group [OF assms(1,2) d(1) assms(3) g] by (elim exE conjE)
  have "length ?names = card {ns. map_of (automanagedNamespaces f) ns = Some True}"
    using distinct_card [OF d(1)] d(2) by simp
  with * g show ?thesis
    unfolding DeleteAutomanagedNamespaces_group [OF assms(3)] d(2) shrinks_def
    by (intro exI [of _ f'] exI [of _ s'] exI [of _ errs] exI [of _ R]) auto
qed


text \<open>
  C19. Deleting the automanaged namespaces accounts for every one of them, under every interleaving
  of the goroutines: the namespaces that are to be deleted are either gone from the cluster and
  forgotten by the framework, or still recorded and matched by an error of the returned list. No
  namespace outside these (and outside those that were being terminated already) disappears. The
  goroutines do not panic.
\<close>

theorem DeleteAutomanagedNamespaces_accounts:
  assumes "backoff_doc lib" and "poll_doc lib" and "fw_ok lib v f"
  shows "\<exists>f' s' errs R. DeleteAutomanagedNamespaces lib sched timeout (f, s) = Some ((f', s'), errs)
    \<and> R \<subseteq> {ns. map_of (automanagedNamespaces f) ns = Some True}
    \<and> nss v s' \<inter> R = {} \<and> nss v s' \<subseteq> nss v s
    \<and> nss v s - nss v s' \<subseteq> {ns. map_of (automanagedNamespaces f) ns = Some True} \<union> doomed v s
    \<and> map_of (automanagedNamespaces f') = map_of (automanagedNamespaces f) |` (- R)
    \<and> card R + length (errors errs) = card {ns. map_of (automanagedNamespaces f) ns = Some True}"
  using assms by (rule delete_automanaged)

text \<open>
  C18. Creating the automanaged namespaces of a test and deleting them again is a round trip: from a
  framework that manages none and a cluster in which \<open>prefix-1, ..., prefix-n\<close> are free, if the
  deletion reports no error then the cluster has the namespaces it had before, and the framework
  manages none again.
\<close>

theorem namespaces_create_delete_roundtrip:
  assumes "backoff_doc lib" and "poll_doc lib" and "fw_ok lib v f" and "doomed v s = {}"
    and "automanagedNamespaces f = []" and "\<forall>i \<in> {1..n}. automanaged_name f i \<notin> nss v s"
    and "CreateAutomanagedNamespaces lib n False True (f, s) = Some (w1, err)"
    and "DeleteAutomanagedNamespaces lib sched timeout w1 = Some (w2, NewErrorList [])"
  shows "err = None \<and> nss v (snd w2) = nss v s \<and> automanagedNamespaces (fst w2) = []"
proof -
  let ?N = "automanaged_name f ` {1..n}"
  have free: "False \<or> (\<forall>i \<in> {1..n}. automanaged_name f i \<notin> nss v s)" using assms(6) by simp
  obtain f1 s1 where c: "CreateAutomanagedNamespaces lib n False True (f, s) = Some ((f1, s1), None)"
      "fw_ok lib v f1" "doomed v s1 = {}" "nss v s1 = nss v s \<union> ?N"
      "map_of (automanagedNamespaces f1) = (\<lambda>ns. if ns \<in> ?N then Some True else map_of (automanagedNamespaces f) ns)"
    using create_automanaged [OF assms(1,3,4), of False n True] unfolding if_P [OF free] by (elim exE conjE)
  have N: "{ns. map_of (automanagedNamespaces f1) ns = Some True} = ?N" by (auto simp: c(5) assms(5))
  obtain f2 s2 errs R where d: "DeleteAutomanagedNamespaces lib sched timeout (f1, s1) = Some ((f2, s2), errs)"
      "R \<subseteq> ?N" "nss v s2 \<inter> R = {}" "nss v s2 \<subseteq> nss v s1" "nss v s1 - nss v s2 \<subseteq> ?N \<union> doomed v s1"
      "map_of (automanagedNamespaces f2) = map_of (automanagedNamespaces f1) |` (- R)"
      "card R + length (errors errs) = card ?N"
    using delete_automanaged [OF assms(1,2) c(2), of sched timeout s1] unfolding N by (elim exE conjE)
  have w: "w1 = (f1, s1)" "err = None" "w2 = (f2, s2)" "errs = NewErrorList []"
    using assms(7,8) c(1) d(1) by auto
  have "R = ?N" using d(2,7) w(4) by (simp add: NewErrorList_def card_subset_eq)
  moreover have "nss v s \<inter> ?N = {}" using assms(6) by auto
  ultimately have "nss v s2 = nss v s" using d(3-5) c(3,4) by auto
  moreover have "map_of (automanagedNamespaces f2) = Map.empty"
    using d(6) \<open>R = ?N\<close> by (auto simp: c(5) assms(5) restrict_map_def fun_eq_iff)
  ultimately show ?thesis using w by simp
qed


subsection \<open>A concrete server\<close>

text \<open>
  Existing namespaces, doomed ones and a counter: requests fail until the counter is a multiple of three, and a
  doomed namespace is gone when it is next asked for.
\<close>

type_synonym sample_nss = "string list \<times> string list \<times> nat"

definition sample_ns_server :: "sample_nss clientset" where
  "sample_ns_server =
     \<lparr>pods_List = (\<lambda>_ _ s. (s, Inr [])), nodes_List = (\<lambda>_ s. (s, Inr [])),
      namespaces_List = (\<lambda>(L, D, n). if n mod 3 \<noteq> 0 then ((L, D, n - 1), Inl (ErrText ''internal'')) else ((L, D, n), Inr L)),
      namespaces_Create = (\<lambda>ns (L, D, n). if n mod 3 \<noteq> 0 then ((L, D, n - 1), Some (ErrText ''internal''))
         else if ns \<in> set L then ((L, D, n), Some (ErrText ''already exists'')) else ((ns # L, D, n + 2), None)),
      namespaces_Delete = (\<lambda>ns (L, D, n). if ns \<in> set L then ((L, ns # D, n), None) else ((L, D, n), Some (ErrText ''not found''))),
      namespaces_Get = (\<lambda>ns (L, D, n). let L' = filter (\<lambda>x. x \<notin> set D) L in
         ((L', D, n), if ns \<in> set L' then None else Some (ErrText ''not found''))),
      events_List = (\<lambda>_ _ s. (s, Inr [])), storageclasses_Delete = (\<lambda>_ s. (s, None))\<rparr>"

definition sample_view :: "sample_nss ns_view" where
  "sample_view = \<lparr>nss = (\<lambda>(L, D, n). set L), doomed = (\<lambda>(L, D, n). set D), flaky = (\<lambda>(L, D, n). n mod 3)\<rparr>"

definition sample_ns_framework :: "sample_nss Framework" where
  "sample_ns_framework = \<lparr>automanagedNamespacePrefix = ''t'', automanagedNamespaces = [],
     clientSets = \<lparr>mc_clients = [sample_ns_server, sample_ns_server], mc_current = 0\<rparr>,
     dynamicClients = \<lparr>mc_clients = [], mc_current = 0\<rparr>\<rparr>"

lemma namespace_server_sample: "namespace_server sample_lib sample_view sample_ns_server"
proof -
  have "m mod 3 < 6" for m :: nat by (rule less_trans [OF mod_less_divisor]) simp_all
  then have "\<forall>s. flaky sample_view s < 6" by (simp add: sample_view_def split_beta)
  moreover have "ns_list_doc sample_lib sample_ns_server sample_view"
    unfolding ns_list_doc_def by (auto simp: sample_ns_server_def sample_view_def sample_codes mod3_decreases split: if_splits)
  moreover have "ns_create_doc sample_lib sample_ns_server sample_view"
    unfolding ns_create_doc_def by (auto simp: sample_ns_server_def sample_view_def sample_codes mod3_decreases split: if_splits)
  moreover have "ns_delete_doc sample_lib sample_ns_server sample_view"
    unfolding ns_delete_doc_def by (auto simp: sample_ns_server_def sample_view_def shrinks_def Let_def split: if_splits)
  ultimately show ?thesis by (simp add: namespace_server_def)
qed

lemma fw_ok_sample: "fw_ok sample_lib sample_view sample_ns_framework"
  using namespace_server_sample by (simp add: fw_ok_def sample_ns_framework_def)

lemma sample_ns_names:
  "automanaged_name sample_ns_framework i = ''t-'' @ itoa i" "automanagedNamespaces sample_ns_framework = []"
  "doomed sample_view ([''default''], [], 2) = {}" "nss sample_view ([''default''], [], 2) = {''default''}"
  by (simp_all add: automanaged_name_def sample_ns_framework_def sample_view_def)

theorem CreateAutomanagedNamespaces_outcome_witness:
  "\<exists>f' s'. CreateAutomanagedNamespaces sample_lib 2 False True (sample_ns_framework, [''default''], [], 2) = Some ((f', s'), None)
    \<and> nss sample_view s' = {''default''} \<union> automanaged_name sample_ns_framework ` {1..2}"
  using CreateAutomanagedNamespaces_outcome [OF backoff_doc_sample fw_ok_sample sample_ns_names(3), of False 2 True]
  by (auto simp: sample_ns_names)

theorem DeleteAutomanagedNamespaces_accounts_witness:
  "\<exists>f' s' errs. DeleteAutomanagedNamespaces sample_lib [1, 0] 60
      (sample_ns_framework\<lparr>automanagedNamespaces := [(''a'', True), (''b'', True), (''c'', False)]\<rparr>, [''a'', ''b'', ''c''], [], 0)
      = Some ((f', s'), errs) \<and> length (errors errs) \<le> 2 \<and> ''c'' \<in> nss sample_view s'"
proof -
  let ?f = "sample_ns_framework\<lparr>automanagedNamespaces := [(''a'', True), (''b'', True), (''c'', False)]\<rparr>"
  have ok: "fw_ok sample_lib sample_view ?f" using fw_ok_sample by (simp add: fw_ok_def)
  have names: "{ns. map_of (automanagedNamespaces ?f) ns = Some True} = {''a'', ''b''}"
    by (simp add: set_eq_iff)
  have s: "nss sample_view ([''a'', ''b'', ''c''], [], 0) = {''a'', ''b'', ''c''}"
      "doomed sample_view ([''a'', ''b'', ''c''], [], 0) = {}" by (simp_all add: sample_view_def)
  obtain f' s' errs R where *: "DeleteAutomanagedNamespaces sample_lib [1, 0] 60 (?f, [''a'', ''b'', ''c''], [], 0) = Some ((f', s'), errs)"
      "R \<subseteq> {''a'', ''b''}" "nss sample_view s' \<inter> R = {}" "nss sample_view s' \<subseteq> {''a'', ''b'', ''c''}"
      "{''a'', ''b'', ''c''} - nss sample_view s' \<subseteq> {''a'', ''b''} \<union> {}"
      "map_of (automanagedNamespaces f') = map_of (automanagedNamespaces ?f) |` (- R)" "card R + length (errors errs) = card {''a'', ''b''}"
    using DeleteAutomanagedNamespaces_accounts [OF backoff_doc_sample poll_doc_sample ok, of "[1, 0]" 60 "([''a'', ''b'', ''c''], [], 0)"]
    unfolding names s by (elim exE conjE)
  have "''c'' \<notin> {''a'', ''b''} \<union> {}" by simp
  then have "''c'' \<in> nss sample_view s'" using *(5) by blast
  moreover have "length (errors errs) \<le> 2" using *(7) by simp
  ultimately show ?thesis using *(1) by (intro exI conjI)
qed


lemma sample_calls:
  "ListNamespaces sample_lib sample_ns_server (L, D, 0) = ((L, D, 0), L, None)"
  "ns \<notin> set L \<Longrightarrow> CreateNamespace sample_lib sample_ns_server ns (L, D, 0) = ((ns # L, D, 2), None)"
  "ns \<in> set L \<Longrightarrow> DeleteNamespace sample_lib sample_ns_server ns (L, D, n) = ((L, ns # D, n), None)"
  "ns \<in> set D \<Longrightarrow> WaitForDeleteNamespace sample_lib sample_ns_server ns timeout (L, D, n) = ((filter (\<lambda>x. x \<notin> set D) L, D, n), None)"
proof -
  have 6: "checks 6 cond s = (case cond s of (s', ok, err) \<Rightarrow> if err \<noteq> None \<or> ok then (s', err) else checks 5 cond s')"
    for cond and s :: "sample_nss call_state" using checks.simps(2) [of 5 cond s] by simp
  note call = RetryWithExponentialBackOff_checks [OF backoff_doc_sample] 6 RetryFunction_cases list_call_def plain_call_def
    sample_ns_server_def
  show "ListNamespaces sample_lib sample_ns_server (L, D, 0) = ((L, D, 0), L, None)"
    by (simp add: ListNamespaces_def call)
  show "ns \<notin> set L \<Longrightarrow> CreateNamespace sample_lib sample_ns_server ns (L, D, 0) = ((ns # L, D, 2), None)"
    by (simp add: CreateNamespace_def call)
  show "ns \<in> set L \<Longrightarrow> DeleteNamespace sample_lib sample_ns_server ns (L, D, n) = ((L, ns # D, n), None)"
    by (simp add: DeleteNamespace_def call)
  have poll: "PollImmediate sample_lib i t cond s = (case cond s of (s', ok, err) \<Rightarrow> if err \<noteq> None \<or> ok then (s', err) else checks 2 cond s')"
    for i t cond and s :: "sample_nss call_state" using checks.simps(2) [of 2 cond s] by (simp add: sample_lib_def)
  show "ns \<in> set D \<Longrightarrow> WaitForDeleteNamespace sample_lib sample_ns_server ns timeout (L, D, n) =
      ((filter (\<lambda>x. x \<notin> set D) L, D, n), None)"
    by (simp add: WaitForDeleteNamespace_def poll retryWaitFunc_def plain_call_def sample_ns_server_def sample_codes)
qed

lemma sample_clientset:
  "clientSets f = \<lparr>mc_clients = [sample_ns_server, sample_ns_server], mc_current = k\<rparr> \<Longrightarrow>
     get_clientset (f, s) = Some (sample_ns_server,
       f\<lparr>clientSets := \<lparr>mc_clients = [sample_ns_server, sample_ns_server], mc_current = (k + 1) mod 2\<rparr>\<rparr>, s)"
  using nth_replicate [of "Suc k mod 2" 2 sample_ns_server]
  by (simp add: get_clientset_def GetClient_def Let_def numeral_2_eq_2)

lemma sample_create:
  "\<exists>f. CreateAutomanagedNamespaces sample_lib 1 False True (sample_ns_framework, [''default''], [], 0) =
     Some ((f, [''t-1'', ''default''], [], 2), None) \<and> automanagedNamespaces f = [(''t-1'', True)]
     \<and> (\<exists>k. clientSets f = \<lparr>mc_clients = [sample_ns_server, sample_ns_server], mc_current = k\<rparr>)"
proof -
  have one: "itoa 1 = ''1''" by code_simp
  have f: "clientSets sample_ns_framework = \<lparr>mc_clients = [sample_ns_server, sample_ns_server], mc_current = 0\<rparr>"
      "automanagedNamespacePrefix sample_ns_framework = ''t''" "automanagedNamespaces sample_ns_framework = []"
    by (simp_all add: sample_ns_framework_def)
  show ?thesis
    by (simp add: CreateAutomanagedNamespaces_def f sample_clientset sample_calls automanaged_name_def one Let_def)
qed

theorem namespaces_create_delete_roundtrip_witness:
  "\<exists>w1 w2. CreateAutomanagedNamespaces sample_lib 1 False True (sample_ns_framework, [''default''], [], 0) = Some (w1, None)
    \<and> ''t-1'' \<in> nss sample_view (snd w1)
    \<and> DeleteAutomanagedNamespaces sample_lib [0] 60 w1 = Some (w2, NewErrorList [])
    \<and> nss sample_view (snd w2) = {''default''} \<and> automanagedNamespaces (fst w2) = []"
proof -
  let ?s = "([''default''], [], 0)"
  obtain f k where c: "CreateAutomanagedNamespaces sample_lib 1 False True (sample_ns_framework, ?s) =
       Some ((f, [''t-1'', ''default''], [], 2), None)" "automanagedNamespaces f = [(''t-1'', True)]"
      "clientSets f = \<lparr>mc_clients = [sample_ns_server, sample_ns_server], mc_current = k\<rparr>"
    using sample_create by blast
  have d: "\<exists>w2. DeleteAutomanagedNamespaces sample_lib [0] 60 (f, [''t-1'', ''default''], [], 2) = Some (w2, NewErrorList [])"
    by (simp add: DeleteAutomanagedNamespaces_def getAutomanagedNamespaces_def c(2) wait_group_def finishing_schedule_def
        sample_clientset [OF c(3)] sample_calls Let_def)
  then obtain w2 where w2: "DeleteAutomanagedNamespaces sample_lib [0] 60 (f, [''t-1'', ''default''], [], 2) = Some (w2, NewErrorList [])" ..
  have s: "doomed sample_view ?s = {}" "nss sample_view ?s = {''default''}" by (simp_all add: sample_view_def)
  have "\<forall>i \<in> {1..1}. automanaged_name sample_ns_framework i \<notin> nss sample_view ?s"
    by (simp add: sample_ns_names s)
  from namespaces_create_delete_roundtrip [OF backoff_doc_sample poll_doc_sample fw_ok_sample s(1) sample_ns_names(2) this c(1) w2]
  show ?thesis using c(1) w2 s by (intro exI [of _ "(f, [''t-1'', ''default''], [], 2)"] exI [of _ w2]) (simp add: sample_view_def)
qed

end
