(* ===== verification/Cluster.thy ===== *)
theory Cluster
  imports Client
begin

text \<open>
  The functions of \<open>pkg/util/cluster.go\<close> that list the nodes of the cluster: the schedulable ones,
  the name and the addresses of the control plane.
\<close>

definition GetSchedulableUntainedNodes ::
    "'s client_lib \<Rightarrow> 's clientset \<Rightarrow> 's \<Rightarrow> 's \<times> Node list \<times> go_error option" where
  "GetSchedulableUntainedNodes lib c s = (case ListNodes lib c s of
      (s', _, Some err) \<Rightarrow> (s', [], Some err)
    | (s', nodeList, None) \<Rightarrow>
        (s', foldl (\<lambda>filtered node. if IsNodeSchedulableAndUntainted node then filtered @ [node] else filtered) [] nodeList, None))"

definition GetSchedulableUntainedNodesNumber ::
    "'s client_lib \<Rightarrow> 's clientset \<Rightarrow> 's \<Rightarrow> 's \<times> nat \<times> go_error option" where
  "GetSchedulableUntainedNodesNumber lib c s =
     (let (s', nodes, err) = GetSchedulableUntainedNodes lib c s in (s', length nodes, err))"

text \<open>The line \<open>LogClusterNodes\<close> writes for a node: the last internal and the last external address.\<close>

definition node_line :: "Node \<Rightarrow> string \<times> string \<times> string \<times> bool" where
  "node_line node =
     (let (internalIP, externalIP) = foldl (\<lambda>(internalIP, externalIP) (t, a).
            (if t = ''InternalIP'' then a else internalIP, if t = ''ExternalIP'' then a else externalIP))
            ([], []) (node_Addresses node)
      in (node_Name node, internalIP, externalIP, IsNodeSchedulableAndUntainted node))"

definition LogClusterNodes ::
    "'s client_lib \<Rightarrow> 's clientset \<Rightarrow> 's \<Rightarrow> 's \<times> (string \<times> string \<times> string \<times> bool) list \<times> go_error option" where
  "LogClusterNodes lib c s = (case ListNodes lib c s of
      (s', _, Some err) \<Rightarrow> (s', [], Some err)
    | (s', nodeList, None) \<Rightarrow> (s', map node_line nodeList, None))"

fun master_name_loop :: "Node list \<Rightarrow> string result" where
  "master_name_loop [] = Inl (ErrText ''master node not found'')"
| "master_name_loop (node # nodes) = (if IsControlPlaneNode node then Inr (node_Name node) else master_name_loop nodes)"

definition GetMasterName :: "'s client_lib \<Rightarrow> 's clientset \<Rightarrow> 's \<Rightarrow> 's \<times> string result" where
  "GetMasterName lib c s = (case ListNodes lib c s of
      (s', _, Some err) \<Rightarrow> (s', Inl err)
    | (s', nodeList, None) \<Rightarrow> (s', master_name_loop nodeList))"

fun address_loop :: "string \<Rightarrow> (string \<times> string) list \<Rightarrow> string list \<Rightarrow> string list" where
  "address_loop addressType [] ips = ips"
| "address_loop addressType ((t, a) # addresses) ips =
     (if t = addressType \<and> a \<noteq> [] then ips @ [a] else address_loop addressType addresses ips)"

fun master_ips_loop :: "string \<Rightarrow> Node list \<Rightarrow> string list \<Rightarrow> string list" where
  "master_ips_loop addressType [] ips = ips"
| "master_ips_loop addressType (node # nodes) ips = master_ips_loop addressType nodes
     (if IsControlPlaneNode node then address_loop addressType (node_Addresses node) ips else ips)"

definition GetMasterIPs :: "'s client_lib \<Rightarrow> 's clientset \<Rightarrow> string \<Rightarrow> 's \<Rightarrow> 's \<times> string list result" where
  "GetMasterIPs lib c addressType s = (case ListNodes lib c s of
      (s', _, Some err) \<Rightarrow> (s', Inl err)
    | (s', nodeList, None) \<Rightarrow> (let ips = master_ips_loop addressType nodeList []
        in (s', if length ips = 0 then Inl (ErrText (''didn't find any '' @ addressType @ '' master IPs'')) else Inr ips)))"

subsection \<open>What they compute\<close>

lemma schedulable_filter:
  "foldl (\<lambda>filtered node. if IsNodeSchedulableAndUntainted node then filtered @ [node] else filtered) acc nodes =
     acc @ filter IsNodeSchedulableAndUntainted nodes"
  by (induction nodes arbitrary: acc) simp_all

text \<open>
  C23. The schedulable nodes of a cluster are, in the order of the listing, those that are not marked
  unschedulable, whose first \<open>Ready\<close> condition is true, whose first \<open>NetworkUnavailable\<close> condition,
  if there is one, is not true, and that carry none of the built-in taints with the effect
  \<open>NoSchedule\<close> or \<open>NoExecute\<close>; other taints and other effects do not matter.
\<close>

theorem schedulable_nodes_characterised:
  assumes "ListNodes lib c s = (s', nodes, None)"
  shows "GetSchedulableUntainedNodes lib c s = (s', filter (\<lambda>n. \<not> node_Unschedulable n
      \<and> map_of (node_Conditions n) ''Ready'' = Some ''True'' \<and> map_of (node_Conditions n) ''NetworkUnavailable'' \<noteq> Some ''True''
      \<and> (\<forall>key \<in> set builtInTaintsKeys. (key, ''NoSchedule'') \<notin> set (node_Taints n) \<and> (key, ''NoExecute'') \<notin> set (node_Taints n))) nodes, None)"
proof -
  have "IsNodeSchedulableAndUntainted n \<longleftrightarrow> \<not> node_Unschedulable n
      \<and> map_of (node_Conditions n) ''Ready'' = Some ''True'' \<and> map_of (node_Conditions n) ''NetworkUnavailable'' \<noteq> Some ''True''
      \<and> (\<forall>key \<in> set builtInTaintsKeys. (key, ''NoSchedule'') \<notin> set (node_Taints n) \<and> (key, ''NoExecute'') \<notin> set (node_Taints n))" for n
    unfolding IsNodeSchedulableAndUntainted_def isNodeSchedulable_def isNodeUntainted_def Let_def
      isNodeConditionSetAsExpected_def isNodeConditionUnset_def go_simps
    by (cases "map_of (node_Conditions n) ''NetworkUnavailable''") auto
  then have "IsNodeSchedulableAndUntainted = (\<lambda>n. \<not> node_Unschedulable n
      \<and> map_of (node_Conditions n) ''Ready'' = Some ''True'' \<and> map_of (node_Conditions n) ''NetworkUnavailable'' \<noteq> Some ''True''
      \<and> (\<forall>key \<in> set builtInTaintsKeys. (key, ''NoSchedule'') \<notin> set (node_Taints n) \<and> (key, ''NoExecute'') \<notin> set (node_Taints n)))"
    by (intro ext)
  from this [symmetric] show ?thesis
    using assms by (simp only: GetSchedulableUntainedNodes_def schedulable_filter prod.case option.case append_Nil)
qed

definition sample_node :: "string \<Rightarrow> bool \<Rightarrow> Node" where
  "sample_node name ready = \<lparr>node_Name = name, node_Labels = [], node_Unschedulable = False,
     node_Taints = [(''dedicated'', ''NoSchedule'')], node_Conditions = [(''Ready'', if ready then ''True'' else ''False'')], node_Addresses = []\<rparr>"

definition sample_node_lister :: "Node list clientset" where
  "sample_node_lister = \<lparr>pods_List = (\<lambda>_ _ s. (s, Inr [])), nodes_List = (\<lambda>_ s. (s, Inr s)), namespaces_List = (\<lambda>s. (s, Inr [])),
     namespaces_Create = (\<lambda>_ s. (s, None)), namespaces_Delete = (\<lambda>_ s. (s, None)), namespaces_Get = (\<lambda>_ s. (s, None)),
     events_List = (\<lambda>_ _ s. (s, Inr [])), storageclasses_Delete = (\<lambda>_ s. (s, None))\<rparr>"

lemma sample_ListNodes: "ListNodes sample_lib sample_node_lister nodes = (nodes, nodes, None)"
proof -
  have "checks 6 cond s = (case cond s of (s', ok, err) \<Rightarrow> if err \<noteq> None \<or> ok then (s', err) else checks 5 cond s')"
    for cond and s :: "Node list call_state" using checks.simps(2) [of 5 cond s] by simp
  then show ?thesis
    by (simp add: ListNodes_def ListNodesWithOptions_def RetryWithExponentialBackOff_checks [OF backoff_doc_sample]
        RetryFunction_cases list_call_def sample_node_lister_def)
qed

theorem schedulable_nodes_characterised_witness:
  "GetSchedulableUntainedNodes sample_lib sample_node_lister [sample_node ''a'' True, sample_node ''b'' False] =
     ([sample_node ''a'' True, sample_node ''b'' False], [sample_node ''a'' True], None)"
  unfolding schedulable_nodes_characterised [OF sample_ListNodes]
  by (simp add: sample_node_def builtInTaintsKeys_def)

end
