(* ===== verification/Measurements.thy ===== *)
theory Measurements
  imports Api Go_Threads "HOL-Library.Monad_Syntax"
begin

text \<open>
  Package \<open>pkg/measurement\<close>: the factory, the manager and the execution of a measurement of the
  configuration. What a registered measurement does is the function \<open>m_Execute\<close> on the state of its
  instance, of type \<open>'m\<close>. Instances are pointers into \<open>mm_instances\<close>, so that two lookups of the
  same instance share its state.

  The instances of a wrapper measurement run in goroutines. The manager appends to \<open>summaries\<close>
  without holding its lock, so an execution has two steps: running the instance and reading
  \<open>summaries\<close>, then writing the extended slice back.
\<close>

subsection \<open>A registry of constructors\<close>

text \<open>The contract the measurement and the dependency factory share.\<close>

locale registry =
  fixes register :: "'f \<Rightarrow> string \<Rightarrow> 'c \<Rightarrow> 'f \<times> go_error option"
    and create :: "'f \<Rightarrow> string \<Rightarrow> 'c result"
    and registered :: "'f \<Rightarrow> string \<Rightarrow> bool"
  assumes register_new: "\<not> registered f n \<Longrightarrow> snd (register f n c) = None
      \<and> create (fst (register f n c)) m = (if m = n then Inr c else create f m)
      \<and> registered (fst (register f n c)) m = (m = n \<or> registered f m)"
    and register_old: "registered f n \<Longrightarrow> snd (register f n c) \<noteq> None \<and> fst (register f n c) = f"
    and create_registered: "(\<exists>c. create f n = Inr c) \<longleftrightarrow> registered f n"
begin

definition register_all :: "'f \<Rightarrow> (string \<times> 'c) list \<Rightarrow> 'f" where
  "register_all f ncs = foldl (\<lambda>f (n, c). fst (register f n c)) f ncs"

text \<open>The first registration of a name wins.\<close>

lemma create_register_all:
  "\<not> registered f n \<Longrightarrow> create (register_all f ncs) n =
     (case map_of ncs n of Some c \<Rightarrow> Inr c | None \<Rightarrow> create f n)"
proof (induction ncs arbitrary: f)
  case (Cons nc ncs)
  obtain m c where nc: "nc = (m, c)" by (cases nc)
  let ?f = "fst (register f m c)"
  have step: "register_all f (nc # ncs) = register_all ?f ncs" by (simp add: register_all_def nc)
  show ?case
  proof (cases "m = n")
    case True
    have keep: "create g n = Inr c \<Longrightarrow> create (register_all g xs) n = Inr c" for g xs
    proof (induction xs arbitrary: g)
      case (Cons x xs)
      have "create (fst (register g (fst x) (snd x))) n = Inr c"
        using Cons.prems register_new [of g "fst x" "snd x" n] register_old [of g "fst x" "snd x"] create_registered [of g n]
        by (cases "registered g (fst x)") auto
      then show ?case using Cons.IH by (simp add: register_all_def split_beta)
    qed (simp add: register_all_def)
    then show ?thesis using register_new [OF Cons.prems, of c n] True unfolding step by (simp add: nc)
  next
    case False
    have "\<not> registered ?f n" "create ?f n = create f n"
      using Cons.prems False register_new [of f m c n] register_old [of f m c] by (cases "registered f m"; simp)+
    then show ?thesis using Cons.IH [of ?f] False unfolding step by (simp add: nc split: option.split)
  qed
qed (simp add: register_all_def)

end

subsection \<open>\<open>factory.go\<close>\<close>

record 'm measurementFactory =
  mf_createFuncs :: "(string, 'm) go_map"
  mf_RegisteredMeasurements :: "(string, bool) go_map"

definition newMeasurementFactory :: "'m measurementFactory" where
  "newMeasurementFactory = \<lparr>mf_createFuncs = [], mf_RegisteredMeasurements = []\<rparr>"

definition measurement_register ::
    "'m measurementFactory \<Rightarrow> string \<Rightarrow> 'm \<Rightarrow> 'm measurementFactory \<times> go_error option" where
  "measurement_register mc methodName createFunc = (case map_of (mf_createFuncs mc) methodName of
      Some _ \<Rightarrow> (mc, Some (ErrText (''measurement with method '' @ methodName @ '' already exists'')))
    | None \<Rightarrow> (mc\<lparr>mf_createFuncs := AList.update methodName createFunc (mf_createFuncs mc),
                  mf_RegisteredMeasurements := AList.update methodName True (mf_RegisteredMeasurements mc)\<rparr>, None))"

definition createMeasurement :: "'m measurementFactory \<Rightarrow> string \<Rightarrow> 'm result" where
  "createMeasurement mc methodName = (case map_of (mf_createFuncs mc) methodName of
      None \<Rightarrow> Inl (ErrText (''unknown measurement method '' @ methodName))
    | Some createFunc \<Rightarrow> Inr createFunc)"

interpretation mreg: registry measurement_register createMeasurement
  "\<lambda>mc n. map_of (mf_createFuncs mc) n \<noteq> None"
  by unfold_locales (auto simp: measurement_register_def createMeasurement_def split: option.splits)

subsection \<open>\<open>summary.go\<close>\<close>

record Summary =
  SummaryName :: string
  SummaryExt :: string
  SummaryTime :: time
  SummaryContent :: string

definition TrimPrefix :: "string \<Rightarrow> string \<Rightarrow> string" where
  "TrimPrefix s p = (if prefix p s then drop (length p) s else s)"

definition CreateSummary :: "time \<Rightarrow> string \<Rightarrow> string \<Rightarrow> string \<Rightarrow> Summary" where
  "CreateSummary now name ext content = \<lparr>SummaryName = name, SummaryExt = TrimPrefix ext ''.'',
     SummaryTime = now, SummaryContent = content\<rparr>"

subsection \<open>\<open>manager.go\<close>\<close>

record 'm measurement_env =
  m_factory :: "'m measurementFactory"
  m_ServerVersion :: "string result"
  m_Execute :: "string \<Rightarrow> string \<Rightarrow> params \<Rightarrow> 'm \<Rightarrow> 'm \<times> Summary list \<times> go_error option"
  m_Dispose :: "'m \<Rightarrow> 'm"

record 'm measurementManager =
  mm_measurements :: "(string, (string, nat) go_map) go_map"
  mm_instances :: "'m list"
  mm_summaries :: "Summary list"

definition CreateManager :: "'m measurementManager" where
  "CreateManager = \<lparr>mm_measurements = [], mm_instances = [], mm_summaries = []\<rparr>"

definition mm_lookup :: "'m measurementManager \<Rightarrow> string \<Rightarrow> string \<Rightarrow> nat option" where
  "mm_lookup mm methodName identifier = (case map_of (mm_measurements mm) methodName of
      None \<Rightarrow> None | Some ids \<Rightarrow> map_of ids identifier)"

definition getMeasurementInstance ::
    "'m measurement_env \<Rightarrow> 'm measurementManager \<Rightarrow> string \<Rightarrow> string \<Rightarrow> 'm measurementManager \<times> nat result" where
  "getMeasurementInstance env mm methodName identifier =
     (let ids = (case map_of (mm_measurements mm) methodName of None \<Rightarrow> [] | Some ids \<Rightarrow> ids);
          mm1 = mm\<lparr>mm_measurements := AList.update methodName ids (mm_measurements mm)\<rparr>
      in case map_of ids identifier of
           Some p \<Rightarrow> (mm1, Inr p)
         | None \<Rightarrow> (case createMeasurement (m_factory env) methodName of
             Inl err \<Rightarrow> (mm1, Inl err)
           | Inr m \<Rightarrow>
               (mm1\<lparr>mm_measurements := AList.update methodName
                       (AList.update identifier (length (mm_instances mm)) ids) (mm_measurements mm1),
                    mm_instances := mm_instances mm @ [m]\<rparr>, Inr (length (mm_instances mm)))))"

text \<open>\<open>Execute\<close> up to the return of the instance's \<open>Execute\<close>.\<close>

definition manager_run ::
    "'m measurement_env \<Rightarrow> string \<Rightarrow> string \<Rightarrow> params \<Rightarrow> 'm measurementManager
       \<Rightarrow> 'm measurementManager \<times> (Summary list \<times> go_error option) result" where
  "manager_run env methodName identifier ps mm = (case getMeasurementInstance env mm methodName identifier of
      (mm1, Inl err) \<Rightarrow> (mm1, Inl err)
    | (mm1, Inr p) \<Rightarrow> (case m_ServerVersion env of
        Inl _ \<Rightarrow> (mm1, Inl (ErrText ''failed to get cluster version''))
      | Inr _ \<Rightarrow> (case m_Execute env methodName identifier ps (mm_instances mm1 ! p) of
          (m, summaries, err) \<Rightarrow> (mm1\<lparr>mm_instances := (mm_instances mm1)[p := m]\<rparr>, Inr (summaries, err)))))"

definition manager_Execute ::
    "'m measurement_env \<Rightarrow> string \<Rightarrow> string \<Rightarrow> params \<Rightarrow> 'm measurementManager
       \<Rightarrow> 'm measurementManager \<times> go_error option" where
  "manager_Execute env methodName identifier ps mm = (case manager_run env methodName identifier ps mm of
      (mm1, Inl err) \<Rightarrow> (mm1, Some err)
    | (mm1, Inr (summaries, err)) \<Rightarrow> (mm1\<lparr>mm_summaries := mm_summaries mm1 @ summaries\<rparr>, err))"

definition GetSummaries :: "'m measurementManager \<Rightarrow> Summary list" where
  "GetSummaries mm = mm_summaries mm"

text \<open>\<open>Dispose\<close> of every instance the map holds.\<close>

definition manager_Dispose :: "'m measurement_env \<Rightarrow> 'm measurementManager \<Rightarrow> 'm measurementManager" where
  "manager_Dispose env mm = mm\<lparr>mm_instances := foldl (\<lambda>h p. h[p := m_Dispose env (h ! p)]) (mm_instances mm)
     (concat (map (\<lambda>(meth, ids). map snd ids) (mm_measurements mm)))\<rparr>"

subsection \<open>\<open>measurement_executor.go\<close>\<close>

definition formatError :: "string \<Rightarrow> string \<Rightarrow> go_error \<Rightarrow> go_error" where
  "formatError meth identifier err =
     ErrWrap (''measurement call '' @ meth @ '' - '' @ identifier @ '' error: '' @ Error err) [err]"

definition executeSingleMeasurement ::
    "'m measurement_env \<Rightarrow> Measurement \<Rightarrow> 'm measurementManager \<Rightarrow> 'm measurementManager \<times> ErrorList" where
  "executeSingleMeasurement env m mm =
     (case manager_Execute env (ms_Method m) (ms_Identifier m) (ms_Params m) mm of
        (mm', None) \<Rightarrow> (mm', NewErrorList [])
      | (mm', Some err) \<Rightarrow> (mm', ErrorList_Append (NewErrorList []) [formatError (ms_Method m) (ms_Identifier m) err]))"

definition instance_params :: "Measurement \<Rightarrow> MeasurementInstanceConfig \<Rightarrow> params" where
  "instance_params m i = CopyMap (mi_Params i) (CopyMap (ms_Params m) [])"

datatype mthread =
    MReady string params
  | MRead string "Summary list" "Summary list" "go_error option"
  | MDone

definition append_error :: "Measurement \<Rightarrow> string \<Rightarrow> go_error option \<Rightarrow> ErrorList \<Rightarrow> ErrorList" where
  "append_error m identifier err errs = (case err of
      None \<Rightarrow> errs | Some e \<Rightarrow> ErrorList_Append errs [formatError (ms_Method m) identifier e])"

fun mthread_step ::
    "'m measurement_env \<Rightarrow> Measurement \<Rightarrow> mthread \<Rightarrow> 'm measurementManager \<times> ErrorList
       \<Rightarrow> mthread \<times> 'm measurementManager \<times> ErrorList" where
  "mthread_step env m (MReady identifier ps) (mm, errs) =
     (case manager_run env (ms_Method m) identifier ps mm of
        (mm1, Inl err) \<Rightarrow> (MDone, mm1, append_error m identifier (Some err) errs)
      | (mm1, Inr (summaries, err)) \<Rightarrow> (MRead identifier (mm_summaries mm1) summaries err, mm1, errs))"
| "mthread_step env m (MRead identifier loaded summaries err) (mm, errs) =
     (MDone, mm\<lparr>mm_summaries := loaded @ summaries\<rparr>, append_error m identifier err errs)"
| "mthread_step env m MDone (mm, errs) = (MDone, mm, errs)"

text \<open>Two steps finish a thread: the execution up to the read, and the store.\<close>

fun mthread_rank :: "mthread \<Rightarrow> nat" where
  "mthread_rank (MReady _ _) = 2"
| "mthread_rank (MRead _ _ _ _) = 1"
| "mthread_rank MDone = 0"

interpretation instances: goroutines "mthread_step env m" mthread_rank for env :: "'m measurement_env" and m
proof
  show "mthread_rank (fst (mthread_step env m th s)) \<le> mthread_rank th - 1" for th s
    by (cases "(env, m, th, s)" rule: mthread_step.cases) (auto split: prod.splits sum.splits)
qed

definition executeWrapperMeasurement ::
    "'m measurement_env \<Rightarrow> nat list \<Rightarrow> Measurement \<Rightarrow> 'm measurementManager \<Rightarrow> 'm measurementManager \<times> ErrorList" where
  "executeWrapperMeasurement env sched m mm =
     snd (wait_group (mthread_step env m) mthread_rank sched
       (map (\<lambda>i. MReady (mi_Identifier i) (instance_params m i)) (ms_Instances m)) (mm, NewErrorList []))"

definition measurement_Execute ::
    "'m measurement_env \<Rightarrow> nat list \<Rightarrow> Measurement \<Rightarrow> 'm measurementManager \<Rightarrow> 'm measurementManager \<times> ErrorList" where
  "measurement_Execute env sched m mm =
     (if ms_Identifier m \<noteq> [] then executeSingleMeasurement env m mm else executeWrapperMeasurement env sched m mm)"

subsection \<open>Registration\<close>

definition register_measurements :: "'m measurementFactory \<Rightarrow> (string \<times> 'm) list \<Rightarrow> 'm measurementFactory" where
  "register_measurements f ncs = foldl (\<lambda>f (n, c). fst (measurement_register f n c)) f ncs"

lemma register_measurements_registry: "register_measurements f ncs = mreg.register_all f ncs"
  by (simp add: register_measurements_def mreg.register_all_def)

definition factory_inv :: "'m measurementFactory \<Rightarrow> bool" where
  "factory_inv f \<longleftrightarrow> (\<forall>n. map_of (mf_RegisteredMeasurements f) n = map_option (\<lambda>_. True) (map_of (mf_createFuncs f) n))"

lemma factory_inv_register: "factory_inv f \<Longrightarrow> factory_inv (fst (measurement_register f n c))"
  by (cases "map_of (mf_createFuncs f) n") (simp_all add: factory_inv_def measurement_register_def)

lemma factory_inv_register_measurements: "factory_inv f \<Longrightarrow> factory_inv (register_measurements f ncs)"
  by (induction ncs arbitrary: f) (auto simp: register_measurements_def factory_inv_register)

text \<open>
  C31. After any sequence of registrations, a measurement method is known to the configuration
  validator exactly when the factory can create it, and the factory creates what was registered
  first under the name; later registrations fail and change nothing.
\<close>

theorem registered_methods_creatable:
  "(map_of (mf_RegisteredMeasurements (register_measurements newMeasurementFactory ncs)) n = Some True
      \<longleftrightarrow> (\<exists>c. createMeasurement (register_measurements newMeasurementFactory ncs) n = Inr c))
   \<and> createMeasurement (register_measurements newMeasurementFactory ncs) n =
       (case map_of ncs n of Some c \<Rightarrow> Inr c | None \<Rightarrow> createMeasurement newMeasurementFactory n)"
proof -
  have "factory_inv (register_measurements newMeasurementFactory ncs)"
    by (rule factory_inv_register_measurements) (simp add: factory_inv_def newMeasurementFactory_def)
  then have "map_of (mf_RegisteredMeasurements (register_measurements newMeasurementFactory ncs)) n = Some True
      \<longleftrightarrow> (\<exists>c. createMeasurement (register_measurements newMeasurementFactory ncs) n = Inr c)"
    unfolding mreg.create_registered by (simp add: factory_inv_def)
  then show ?thesis
    using mreg.create_register_all [of newMeasurementFactory n ncs]
    by (simp add: register_measurements_registry newMeasurementFactory_def)
qed

subsection \<open>One instance per method and identifier\<close>

definition manager_inv :: "'m measurementManager \<Rightarrow> bool" where
  "manager_inv mm \<longleftrightarrow> (\<forall>a i p. mm_lookup mm a i = Some p \<longrightarrow> p < length (mm_instances mm))
     \<and> (\<forall>a i b j p. mm_lookup mm a i = Some p \<longrightarrow> mm_lookup mm b j = Some p \<longrightarrow> a = b \<and> i = j)"

lemma manager_inv_CreateManager: "manager_inv CreateManager"
  by (simp add: manager_inv_def CreateManager_def mm_lookup_def)

lemma getMeasurementInstance_lookup:
  assumes "getMeasurementInstance env mm a i = (mm', r)"
  shows "mm_lookup mm' b j = (if r = Inr (length (mm_instances mm)) \<and> mm_lookup mm a i = None \<and> b = a \<and> j = i
           then Some (length (mm_instances mm)) else mm_lookup mm b j)"
    and "r = Inr p \<Longrightarrow> mm_lookup mm' a i = Some p"
    and "mm_instances mm' = mm_instances mm \<and> (mm_lookup mm a i \<noteq> None \<or> (\<exists>e. r = Inl e))
         \<or> (\<exists>m. mm_instances mm' = mm_instances mm @ [m]) \<and> mm_lookup mm a i = None \<and> r = Inr (length (mm_instances mm))"
  using assms
  by (auto simp: getMeasurementInstance_def mm_lookup_def Let_def split: option.splits sum.splits if_splits)

lemma getMeasurementInstance_known:
  "mm_lookup mm a i = Some p \<Longrightarrow> \<exists>mm'. getMeasurementInstance env mm a i = (mm', Inr p)"
  by (cases "map_of (mm_measurements mm) a") (simp_all add: getMeasurementInstance_def mm_lookup_def)

lemma manager_inv_getMeasurementInstance:
  assumes inv: "manager_inv mm" and get: "getMeasurementInstance env mm a i = (mm', r)"
  shows "manager_inv mm'"
proof -
  note look = getMeasurementInstance_lookup(1) [OF get]
  have old: "mm_lookup mm b j \<noteq> Some (length (mm_instances mm))" for b j
    using inv unfolding manager_inv_def by (metis less_irrefl)
  have len: "length (mm_instances mm) \<le> length (mm_instances mm')"
    using getMeasurementInstance_lookup(3) [OF get] by auto
  have new: "r = Inr (length (mm_instances mm)) \<Longrightarrow> mm_lookup mm a i = None \<Longrightarrow> length (mm_instances mm) < length (mm_instances mm')"
    using getMeasurementInstance_lookup(3) [OF get] by auto
  have lt: "mm_lookup mm b j = Some p \<Longrightarrow> p < length (mm_instances mm')" for b j p
    using inv len unfolding manager_inv_def by (meson less_le_trans)
  have inj: "mm_lookup mm b j = Some p \<Longrightarrow> mm_lookup mm b' j' = Some p \<Longrightarrow> b = b' \<and> j = j'" for b j b' j' p
    using inv unfolding manager_inv_def by blast
  show ?thesis
    unfolding manager_inv_def look using lt new old inj by (simp split: if_splits)
qed

lemma manager_Execute_lookup:
  "mm_lookup (fst (manager_Execute env a i ps mm)) = mm_lookup (fst (getMeasurementInstance env mm a i))"
  "length (mm_instances (fst (manager_Execute env a i ps mm))) = length (mm_instances (fst (getMeasurementInstance env mm a i)))"
  by (auto simp: manager_Execute_def manager_run_def mm_lookup_def fun_eq_iff split: prod.splits sum.splits)

lemma manager_inv_Execute: "manager_inv mm \<Longrightarrow> manager_inv (fst (manager_Execute env a i ps mm))"
  using manager_inv_getMeasurementInstance [of mm env a i]
  by (cases "getMeasurementInstance env mm a i") (simp add: manager_inv_def manager_Execute_lookup)

lemma manager_Execute_keeps:
  "mm_lookup mm b j = Some p \<Longrightarrow> mm_lookup (fst (manager_Execute env a i ps mm)) b j = Some p"
  using getMeasurementInstance_lookup(1) [of env mm a i]
  by (cases "getMeasurementInstance env mm a i") (auto simp: manager_Execute_lookup)

lemma getMeasurementInstance_keeps:
  "mm_lookup mm b j = Some p \<Longrightarrow> mm_lookup (fst (getMeasurementInstance env mm a i)) b j = Some p"
  using getMeasurementInstance_lookup(1) [of env mm a i, OF prod.collapse [symmetric], of b j] by auto

definition manager_calls ::
    "'m measurement_env \<Rightarrow> (string \<times> string \<times> params) list \<Rightarrow> 'm measurementManager \<Rightarrow> 'm measurementManager" where
  "manager_calls env calls mm = foldl (\<lambda>mm (meth, ident, ps). fst (manager_Execute env meth ident ps mm)) mm calls"

lemma manager_calls_keep:
  "manager_inv mm \<Longrightarrow> manager_inv (manager_calls env calls mm)"
  "mm_lookup mm a i = Some p \<Longrightarrow> mm_lookup (manager_calls env calls mm) a i = Some p"
proof -
  show "manager_inv mm \<Longrightarrow> manager_inv (manager_calls env calls mm)"
    unfolding manager_calls_def by (induction calls arbitrary: mm) (simp_all add: manager_inv_Execute split_beta)
  show "mm_lookup mm a i = Some p \<Longrightarrow> mm_lookup (manager_calls env calls mm) a i = Some p"
    unfolding manager_calls_def by (induction calls arbitrary: mm) (simp_all add: manager_Execute_keeps split_beta)
qed

text \<open>
  C29. The manager creates one instance per method and identifier and keeps it: however many
  executions happen in between, asking again for the same pair gives the same instance, and
  different pairs never share one. This is what lets a measurement be started by one step of a test
  and gathered by a later one.
\<close>

theorem measurement_instance_unique:
  assumes "manager_inv mm" and "getMeasurementInstance env mm a i = (mm1, Inr p)"
    and "getMeasurementInstance env (manager_calls env calls mm1) b j = (mm3, Inr q)"
  shows "p = q \<longleftrightarrow> a = b \<and> i = j"
proof -
  let ?mm2 = "manager_calls env calls mm1"
  have "manager_inv ?mm2" "mm_lookup ?mm2 a i = Some p"
    using manager_calls_keep manager_inv_getMeasurementInstance [OF assms(1,2)]
      getMeasurementInstance_lookup(2) [OF assms(2) refl] by blast+
  then have inv: "manager_inv mm3" and a: "mm_lookup mm3 a i = Some p"
    using manager_inv_getMeasurementInstance [OF _ assms(3)] getMeasurementInstance_keeps [of ?mm2 a i p env b j] assms(3)
    by simp_all
  have b: "mm_lookup mm3 b j = Some q" using getMeasurementInstance_lookup(2) [OF assms(3) refl] .
  show ?thesis
  proof
    assume "p = q"
    then show "a = b \<and> i = j" using inv a b unfolding manager_inv_def by blast
  qed (use a b in simp)
qed

definition sample_measurement_env :: "nat measurement_env" where
  "sample_measurement_env = \<lparr>m_factory = fst (measurement_register newMeasurementFactory ''Timer'' 0),
     m_ServerVersion = Inr ''1.30'',
     m_Execute = (\<lambda>meth ident ps n. (n + 1, [CreateSummary 0 ident ''.json'' meth], None)), m_Dispose = id\<rparr>"

theorem measurement_instance_unique_witness:
  "snd (getMeasurementInstance sample_measurement_env CreateManager ''Timer'' ''t'') = Inr 0
   \<and> snd (getMeasurementInstance sample_measurement_env
        (fst (manager_Execute sample_measurement_env ''Timer'' ''u'' []
          (fst (getMeasurementInstance sample_measurement_env CreateManager ''Timer'' ''t'')))) ''Timer'' ''t'') = Inr 0"
proof -
  let ?m1 = "fst (getMeasurementInstance sample_measurement_env CreateManager ''Timer'' ''t'')"
  let ?m2 = "fst (manager_Execute sample_measurement_env ''Timer'' ''u'' [] ?m1)"
  have 1: "getMeasurementInstance sample_measurement_env CreateManager ''Timer'' ''t'' = (?m1, Inr 0)"
    by (simp add: getMeasurementInstance_def CreateManager_def sample_measurement_env_def measurement_register_def
        newMeasurementFactory_def createMeasurement_def Let_def)
  obtain m3 q where 2: "getMeasurementInstance sample_measurement_env ?m2 ''Timer'' ''t'' = (m3, Inr q)"
    using getMeasurementInstance_known [OF manager_Execute_keeps [OF getMeasurementInstance_lookup(2) [OF 1 refl]]]
    by blast
  have "0 = q \<longleftrightarrow> ''Timer'' = ''Timer'' \<and> ''t'' = ''t''"
    by (rule measurement_instance_unique [OF manager_inv_CreateManager 1, of "[(''Timer'', ''u'', [])]"])
      (use 2 in \<open>simp add: manager_calls_def\<close>)
  then have "q = 0" by simp
  then show ?thesis using 1 2 by (metis snd_conv)
qed

subsection \<open>Wrapper measurements\<close>

text \<open>
  An instance of a wrapper measurement runs with the parameters of the measurement, each
  overridden by the parameter of the same name of the instance, as the configuration documents.
\<close>

theorem instance_params_override:
  assumes "distinct (map fst (ms_Params m))" and "distinct (map fst (mi_Params i))"
  shows "map_of (instance_params m i) = map_of (ms_Params m) ++ map_of (mi_Params i)"
  using assms by (simp add: instance_params_def CopyMap_map_of)

theorem instance_params_override_witness:
  "map_of (instance_params \<lparr>ms_Method = ''M'', ms_Params = [(''action'', VString ''start''), (''n'', VInt 1)],
       ms_Identifier = [], ms_Instances = []\<rparr> \<lparr>mi_Identifier = ''i'', mi_Params = [(''n'', VInt 2)]\<rparr>) ''n'' = Some (VInt 2)"
  using instance_params_override
    [of "\<lparr>ms_Method = ''M'', ms_Params = [(''action'', VString ''start''), (''n'', VInt 1)], ms_Identifier = [], ms_Instances = []\<rparr>"
        "\<lparr>mi_Identifier = ''i'', mi_Params = [(''n'', VInt 2)]\<rparr>"]
  by simp

end
