(* ===== verification/Latency.thy ===== *)
theory Latency
  imports Go_Float Go_Errors "HOL-Library.Monad_Syntax"
begin

text \<open>
  \<open>pkg/measurement/util\<close>: \<open>latency_metric.go\<close>, \<open>phase_latency.go\<close>, \<open>histogram.go\<close>,
  \<open>resource.go\<close>, \<open>metrics.go\<close> and the data of \<open>perftype.go\<close>. A latency is its duration together
  with its key. The percentile indices are computed in binary64 as in the code; an index out of
  range, on which Go panics, gives \<open>None\<close>. The sorts of the code are by a key on which the results
  depend alone, so a stable sort stands for them. \<open>strconv.ParseFloat\<close> and the \<open>Quantile\<close> of the
  metrics library are parameters.
\<close>

subsection \<open>\<open>time.Duration\<close> as text\<close>

fun drop_zeros :: "string \<Rightarrow> string" where
  "drop_zeros [] = []"
| "drop_zeros (c # cs) = (if c = CHR ''0'' then drop_zeros cs else c # cs)"

text \<open>The fraction of \<open>v / 10 ^ prec\<close>, without trailing zeros.\<close>

definition fmt_frac :: "nat \<Rightarrow> nat \<Rightarrow> string" where
  "fmt_frac v prec =
     (let digits = utoa (v mod 10 ^ prec);
          padded = replicate (prec - length digits) (CHR ''0'') @ digits;
          kept = rev (drop_zeros (rev padded))
      in if prec = 0 \<or> kept = [] then [] else CHR ''.'' # kept)"

definition fmt_duration :: "duration \<Rightarrow> string" where
  "fmt_duration d =
     (let u = nat \<bar>d\<bar>;
          sign = (if d < 0 then ''-'' else []);
          scaled = (\<lambda>prec. utoa (u div 10 ^ prec) @ fmt_frac u prec)
      in if d = 0 then ''0s''
         else if u < 10 ^ 3 then sign @ utoa u @ ''ns''
         else if u < 10 ^ 6 then sign @ scaled 3 @ [CHR 0xC2, CHR 0xB5] @ ''s''
         else if u < 10 ^ 9 then sign @ scaled 6 @ ''ms''
         else (let secs = u div 10 ^ 9; mins = secs div 60; hours = mins div 60
               in sign @ (if hours > 0 then utoa hours @ ''h'' else [])
                  @ (if mins > 0 then utoa (mins mod 60) @ ''m'' else [])
                  @ utoa (secs mod 60) @ fmt_frac u 9 @ ''s''))"

subsection \<open>\<open>latency_metric.go\<close>\<close>

record LatencyMetric =
  Perc50 :: duration
  Perc90 :: duration
  Perc99 :: duration

definition SetQuantile :: "LatencyMetric \<Rightarrow> float64 \<Rightarrow> duration \<Rightarrow> LatencyMetric" where
  "SetQuantile metric quantile latency =
     (if quantile = f64_round (5 / 10) then metric\<lparr>Perc50 := latency\<rparr>
      else if quantile = f64_round (9 / 10) then metric\<lparr>Perc90 := latency\<rparr>
      else if quantile = f64_round (99 / 100) then metric\<lparr>Perc99 := latency\<rparr>
      else metric)"

definition too_high :: "string \<Rightarrow> duration \<Rightarrow> duration \<Rightarrow> go_error" where
  "too_high perc got expected = ErrText (''too high latency '' @ perc @ ''th percentile: got ''
     @ fmt_duration got @ '' expected: '' @ fmt_duration expected)"

definition VerifyThresholdByPercentile ::
    "LatencyMetric \<Rightarrow> duration \<Rightarrow> duration \<Rightarrow> duration \<Rightarrow> go_error option" where
  "VerifyThresholdByPercentile metric perc50Threshold perc90Threshold perc99Threshold =
     (if Perc50 metric > perc50Threshold then Some (too_high ''50'' (Perc50 metric) perc50Threshold)
      else if Perc90 metric > perc90Threshold then Some (too_high ''90'' (Perc90 metric) perc90Threshold)
      else if Perc99 metric > perc99Threshold then Some (too_high ''99'' (Perc99 metric) perc99Threshold)
      else None)"

definition VerifyThreshold :: "LatencyMetric \<Rightarrow> duration \<Rightarrow> go_error option" where
  "VerifyThreshold metric threshold =
     (if Perc50 metric > threshold then Some (too_high ''50'' (Perc50 metric) threshold)
      else if Perc90 metric > threshold then Some (too_high ''90'' (Perc90 metric) threshold)
      else if Perc99 metric > threshold then Some (too_high ''99'' (Perc99 metric) threshold)
      else None)"

record DataItem =
  di_Data :: "(string, float64) go_map"
  di_Unit :: string
  di_Labels :: "(string, string) go_map"

record PerfData =
  pd_Version :: string
  pd_DataItems :: "DataItem list"
  pd_Labels :: "(string, string) go_map"

definition in_ms :: "duration \<Rightarrow> float64" where
  "in_ms d = f64_div (f64_of_int d) (f64_of_int millisecond)"

definition ToPerfData :: "LatencyMetric \<Rightarrow> string \<Rightarrow> DataItem" where
  "ToPerfData metric name = \<lparr>di_Data = [(''Perc50'', in_ms (Perc50 metric)), (''Perc90'', in_ms (Perc90 metric)),
     (''Perc99'', in_ms (Perc99 metric))], di_Unit = ''ms'', di_Labels = [(''Metric'', name)]\<rparr>"

definition LatencyMetric_String :: "LatencyMetric \<Rightarrow> string" where
  "LatencyMetric_String metric = ''perc50: '' @ fmt_duration (Perc50 metric) @ '', perc90: ''
     @ fmt_duration (Perc90 metric) @ '', perc99: '' @ fmt_duration (Perc99 metric)"

type_synonym latencyData = "string \<times> duration"

definition index_at :: "'a list \<Rightarrow> int \<Rightarrow> 'a option" where
  "index_at xs i = (if 0 \<le> i \<and> i < int (length xs) then Some (xs ! nat i) else None)"

definition percentile_index :: "nat \<Rightarrow> int \<Rightarrow> int" where
  "percentile_index len perc = f64_to_int (f64_ceil (f64_div (f64_of_int (int len * perc)) (Fin 100))) - 1"

definition NewLatencyMetric :: "latencyData list \<Rightarrow> LatencyMetric option" where
  "NewLatencyMetric latencies =
     (if length latencies = 0 then Some \<lparr>Perc50 = 0, Perc90 = 0, Perc99 = 0\<rparr>
      else do {
        p50 \<leftarrow> index_at latencies (percentile_index (length latencies) 50);
        p90 \<leftarrow> index_at latencies (percentile_index (length latencies) 90);
        p99 \<leftarrow> index_at latencies (percentile_index (length latencies) 99);
        Some \<lparr>Perc50 = snd p50, Perc90 = snd p90, Perc99 = snd p99\<rparr> })"

record Sample =
  sm_Metric :: "(string, string) go_map"
  sm_Value :: float64
  sm_Timestamp :: string

fun prometheus_loop ::
    "(string \<Rightarrow> float64 result) \<Rightarrow> (Sample \<Rightarrow> string) \<Rightarrow> LatencyMetric \<Rightarrow> Sample list \<Rightarrow> LatencyMetric result" where
  "prometheus_loop parseFloat fmt metric [] = Inr metric"
| "prometheus_loop parseFloat fmt metric (sample # samples) =
     (case map_of (sm_Metric sample) ''quantile'' of
        None \<Rightarrow> Inl (ErrText (''quantile missing in sample '' @ fmt sample))
      | Some val \<Rightarrow> (case parseFloat val of
          Inl err \<Rightarrow> Inl err
        | Inr quantile \<Rightarrow> prometheus_loop parseFloat fmt
            (SetQuantile metric quantile (f64_to_int (f64_mul (sm_Value sample) (f64_of_int second)))) samples))"

definition NewLatencyMetricPrometheus ::
    "(string \<Rightarrow> float64 result) \<Rightarrow> (Sample \<Rightarrow> string) \<Rightarrow> Sample list \<Rightarrow> LatencyMetric result" where
  "NewLatencyMetricPrometheus parseFloat fmt samples =
     prometheus_loop parseFloat fmt \<lparr>Perc50 = 0, Perc90 = 0, Perc99 = 0\<rparr> samples"

subsection \<open>\<open>phase_latency.go\<close>\<close>

record Transition =
  tr_From :: string
  tr_To :: string
  tr_Threshold :: duration

record ObjectTransitionTimes =
  ott_name :: string
  ott_times :: "(string, (string, time) go_map) go_map"

definition NewObjectTransitionTimes :: "string \<Rightarrow> ObjectTransitionTimes" where
  "NewObjectTransitionTimes name = \<lparr>ott_name = name, ott_times = []\<rparr>"

definition Times_Set :: "ObjectTransitionTimes \<Rightarrow> string \<Rightarrow> string \<Rightarrow> time \<Rightarrow> ObjectTransitionTimes" where
  "Times_Set ob key phase t =
     (let entry = (case map_of (ott_times ob) key of None \<Rightarrow> [] | Some e \<Rightarrow> e)
      in ob\<lparr>ott_times := AList.update key (AList.update phase t entry) (ott_times ob)\<rparr>)"

definition Times_Get :: "ObjectTransitionTimes \<Rightarrow> string \<Rightarrow> string \<Rightarrow> time option" where
  "Times_Get ob key phase = (case map_of (ott_times ob) key of
      Some entry \<Rightarrow> map_of entry phase | None \<Rightarrow> None)"

definition Times_Count :: "ObjectTransitionTimes \<Rightarrow> string \<Rightarrow> nat" where
  "Times_Count ob phase = length (filter (\<lambda>(key, entry). map_of entry phase \<noteq> None) (ott_times ob))"

definition GetOrderedKeys :: "ObjectTransitionTimes \<Rightarrow> string \<Rightarrow> (string \<times> time) list" where
  "GetOrderedKeys ob phase = sort_key snd (List.map_filter
     (\<lambda>(key, entry). map_option (\<lambda>t. (key, t)) (map_of entry phase)) (ott_times ob))"

definition transition_lag ::
    "Transition \<Rightarrow> (string \<Rightarrow> bool) \<Rightarrow> string \<times> (string, time) go_map \<Rightarrow> latencyData option" where
  "transition_lag transition keyFilter kv = (case kv of (key, phaseTimes) \<Rightarrow>
     if \<not> keyFilter key then None
     else case map_of phaseTimes (tr_From transition) of
        None \<Rightarrow> None
      | Some fromPhaseTime \<Rightarrow> (case map_of phaseTimes (tr_To transition) of
          None \<Rightarrow> None
        | Some toPhaseTime \<Rightarrow>
            let latencyTime = time_sub toPhaseTime fromPhaseTime
            in Some (key, if latencyTime < 0 then 0 else latencyTime)))"

fun transitions_loop ::
    "(string, (string, time) go_map) go_map \<Rightarrow> (string \<Rightarrow> bool) \<Rightarrow> (string, Transition) go_map
       \<Rightarrow> (string, LatencyMetric) go_map \<Rightarrow> (string, LatencyMetric) go_map option" where
  "transitions_loop phaseTimes keyFilter [] metric = Some metric"
| "transitions_loop phaseTimes keyFilter ((name, transition) # ts) metric =
     do { lagMetric \<leftarrow> NewLatencyMetric (sort_key snd (List.map_filter (transition_lag transition keyFilter) phaseTimes));
          transitions_loop phaseTimes keyFilter ts (AList.update name lagMetric metric) }"

definition CalculateTransitionsLatency ::
    "ObjectTransitionTimes \<Rightarrow> (string, Transition) go_map \<Rightarrow> (string \<Rightarrow> bool)
       \<Rightarrow> (string, LatencyMetric) go_map option" where
  "CalculateTransitionsLatency ob t keyFilter = transitions_loop (ott_times ob) keyFilter t []"

definition LatencyMapToPerfData :: "(string, LatencyMetric) go_map \<Rightarrow> PerfData" where
  "LatencyMapToPerfData latency = \<lparr>pd_Version = ''1.0'',
     pd_DataItems = map (\<lambda>(name, l). ToPerfData l name) latency, pd_Labels = []\<rparr>"

subsection \<open>\<open>histogram.go\<close>\<close>

record Histogram =
  hi_Labels :: "(string, string) go_map"
  hi_Buckets :: "(string, int) go_map"

definition NewHistogram :: "(string, string) go_map \<Rightarrow> Histogram" where
  "NewHistogram labels = \<lparr>hi_Labels = labels, hi_Buckets = []\<rparr>"

definition bucketLabel :: string where
  "bucketLabel = ''le''"

definition sample_labels :: "Sample \<Rightarrow> (string, string) go_map" where
  "sample_labels sample = filter (\<lambda>(k, v). k \<noteq> bucketLabel) (sm_Metric sample)"

definition sample_bucket :: "Sample \<Rightarrow> string" where
  "sample_bucket sample = (case map_of (sm_Metric sample) bucketLabel of None \<Rightarrow> [] | Some b \<Rightarrow> b)"

definition add_to_bucket :: "Sample \<Rightarrow> Histogram \<Rightarrow> Histogram" where
  "add_to_bucket sample h =
     (let b = sample_bucket sample; old = (case map_of (hi_Buckets h) b of None \<Rightarrow> 0 | Some v \<Rightarrow> v)
      in h\<lparr>hi_Buckets := AList.update b (old + f64_to_int (sm_Value sample)) (hi_Buckets h)\<rparr>)"

text \<open>\<open>reflect.DeepEqual\<close> of two maps: the same entries, in whatever order.\<close>

definition same_map :: "(string, string) go_map \<Rightarrow> (string, string) go_map \<Rightarrow> bool" where
  "same_map a b \<longleftrightarrow> (\<forall>k \<in> set (map fst a @ map fst b). map_of a k = map_of b k)"

fun ConvertSampleToBucket :: "Sample \<Rightarrow> Histogram list \<Rightarrow> Histogram list" where
  "ConvertSampleToBucket sample [] = [add_to_bucket sample (NewHistogram (sample_labels sample))]"
| "ConvertSampleToBucket sample (h # hs) =
     (if same_map (sample_labels sample) (hi_Labels h) then add_to_bucket sample h # hs
      else h # ConvertSampleToBucket sample hs)"

definition ConvertSampleToHistogram :: "Sample \<Rightarrow> Histogram \<Rightarrow> Histogram" where
  "ConvertSampleToHistogram sample h = add_to_bucket sample (h\<lparr>hi_Labels := sample_labels sample\<rparr>)"

subsection \<open>\<open>metrics.go\<close>\<close>

definition GetApiserverSLI :: "string \<Rightarrow> string \<Rightarrow> string" where
  "GetApiserverSLI major minor =
     (if major = ''1'' \<and> str_less minor ''23'' then ''apiserver_request_duration_seconds''
      else if major = ''1'' \<and> str_less minor ''26'' then ''apiserver_request_slo_duration_seconds''
      else ''apiserver_request_sli_duration_seconds'')"

definition GetApiserverLatency :: "string \<Rightarrow> string \<Rightarrow> string" where
  "GetApiserverLatency major minor =
     (if major = ''1'' \<and> str_less minor ''23'' then ''apiserver:apiserver_request_latency_1m:histogram_quantile''
      else if major = ''1'' \<and> str_less minor ''26'' then ''apiserver:apiserver_request_slo_latency_1m:histogram_quantile''
      else ''apiserver:apiserver_request_sli_latency_1m:histogram_quantile'')"

subsection \<open>The percentile index is the nearest rank\<close>

text \<open>Rounding \<open>m / 100\<close> to binary64 does not move its ceiling.\<close>

lemma ceil_rounded_hundredth:
  assumes "0 < m" and "m < 2 ^ 53"
  shows "\<lceil>f64_nearest (of_int m / 100)\<rceil> = (m + 99) div 100"
proof (cases "m mod 100 = 0")
  case True
  then obtain k where k: "m = 100 * k" by auto
  then have "f64_nearest (of_int m / 100) = of_int k"
    using f64_nearest_of_int [of k] assms by simp
  moreover have "(m + 99) div 100 = k" using k by simp
  ultimately show ?thesis by simp
next
  case False
  define k r where "k = m div 100" and "r = m mod 100"
  have m: "m = 100 * k + r" and r: "1 \<le> r" "r \<le> 99"
    using False by (simp_all add: k_def r_def)
  let ?x = "of_int m / 100 :: rat"
  have x: "?x = of_int k + of_int r / 100" by (simp add: m add_divide_distrib)
  have "(1::rat) / 100 \<le> ?x" using assms(1) by (simp add: divide_right_mono)
  moreover have "(2::rat) powi (- 1022) \<le> 1 / 100"
  proof -
    have "(2::rat) powi (- 1022) \<le> 2 powi (- 7)" by (rule power_int_increasing) simp_all
    also have "\<dots> \<le> 1 / 100" by (simp add: power_int_minus)
    finally show ?thesis .
  qed
  ultimately have err: "\<bar>f64_nearest ?x - ?x\<bar> \<le> ?x / 2 ^ 53" by (intro f64_nearest_error) linarith
  have "(of_int m :: rat) < 2 ^ 53" using rat_of_int_pow_less [OF assms(2)] .
  then have "?x / 2 ^ 53 < 1 / 100" by (simp add: divide_less_eq)
  moreover have "(1::rat) \<le> of_int r" "(of_int r :: rat) \<le> 99" using r by simp_all
  ultimately have "of_int k < f64_nearest ?x" "f64_nearest ?x \<le> of_int k + 1"
    using err x by linarith+
  then have "\<lceil>f64_nearest ?x\<rceil> = k + 1" by (simp add: ceiling_eq_iff)
  moreover have "(m + 99) div 100 = k + 1" using m r by simp
  ultimately show ?thesis by simp
qed

lemma percentile_index_eq:
  assumes "0 < len" and "0 < perc" and "int len * perc < 2 ^ 53"
  shows "percentile_index len perc = (int len * perc + 99) div 100 - 1"
proof -
  let ?m = "int len * perc"
  have m: "0 < ?m" using assms(1,2) by simp
  have c: "\<lceil>f64_nearest (of_int ?m / 100)\<rceil> = (?m + 99) div 100"
    using ceil_rounded_hundredth [OF m assms(3)] .
  have bound: "0 \<le> (?m + 99) div 100" "(?m + 99) div 100 < 2 ^ 53" using m assms(3) by auto
  have "f64_nearest (of_int ?m / 100) \<le> of_int ((?m + 99) div 100)"
    using c le_of_int_ceiling [of "f64_nearest (of_int ?m / 100)"] by simp
  also have "\<dots> < (2::rat) ^ 53" using rat_of_int_pow_less [OF bound(2)] .
  finally have small: "f64_nearest (of_int ?m / 100) < 2 ^ 1024" 
    by (rule less_trans) simp
  have "- 1 < f64_nearest (of_int ?m / 100)"
    using c bound(1) ceiling_correct [of "f64_nearest (of_int ?m / 100)"] by linarith
  then have "\<not> f64_nearest (of_int ?m / 100) \<le> - (2 ^ 1024)" by (simp add: not_le) 
  then have "f64_round (of_int ?m / 100) = Fin (f64_nearest (of_int ?m / 100))"
    using small by (simp add: f64_round_def Let_def)
  moreover have "f64_of_int ?m = Fin (of_int ?m)" using m assms(3) by (intro f64_of_int_exact) simp
  ultimately have "f64_ceil (f64_div (f64_of_int ?m) (Fin 100)) = Fin (of_int ((?m + 99) div 100))"
    using c by simp
  then show ?thesis using bound by (simp add: percentile_index_def rat_trunc_def Let_def)
qed

lemma length_filter_prefix:
  assumes "sorted xs" and "k < length xs"
  shows "Suc k \<le> length (filter (\<lambda>d. d \<le> xs ! k) xs)" and "length (filter (\<lambda>d. d < xs ! k) xs) \<le> k"
proof -
  have "filter (\<lambda>d. d \<le> xs ! k) (take (Suc k) xs) = take (Suc k) xs"
    using assms by (auto simp: filter_id_conv in_set_conv_nth sorted_iff_nth_mono)
  then have "length (filter (\<lambda>d. d \<le> xs ! k) (take (Suc k) xs @ drop (Suc k) xs)) \<ge> Suc k"
    using assms(2) by (simp del: append_take_drop_id)
  then show "Suc k \<le> length (filter (\<lambda>d. d \<le> xs ! k) xs)" by simp
  have "filter (\<lambda>d. d < xs ! k) (drop k xs) = []"
    using assms by (auto simp: filter_empty_conv in_set_conv_nth sorted_iff_nth_mono not_less)
  then have "length (filter (\<lambda>d. d < xs ! k) (take k xs @ drop k xs)) \<le> k"
    using length_filter_le [of "\<lambda>d. d < xs ! k" "take k xs"] assms(2) by (simp del: append_take_drop_id)
  then show "length (filter (\<lambda>d. d < xs ! k) xs) \<le> k" by simp
qed

text \<open>
  \<open>v\<close> is the \<open>p\<close>-th percentile of \<open>xs\<close>: a value of \<open>xs\<close> such that at least \<open>p\<close> percent of
  the values are at most \<open>v\<close>, and fewer than \<open>p\<close> percent are below it.
\<close>

definition is_percentile :: "nat \<Rightarrow> duration list \<Rightarrow> duration \<Rightarrow> bool" where
  "is_percentile p xs v \<longleftrightarrow> v \<in> set xs
     \<and> p * length xs \<le> 100 * length (filter (\<lambda>d. d \<le> v) xs)
     \<and> 100 * length (filter (\<lambda>d. d < v) xs) < p * length xs"

lemma percentile_index_spec:
  assumes "sorted xs" and "xs \<noteq> []" and "0 < p" and "p \<le> 100" and "int (length xs) * int p < 2 ^ 53"
  shows "\<exists>k. percentile_index (length xs) (int p) = int k \<and> Suc k = (length xs * p + 99) div 100
     \<and> k < length xs \<and> is_percentile p xs (xs ! k)"
proof -
  let ?n = "length xs"
  define k where "k = (?n * p + 99) div 100 - 1"
  have pos: "0 < ?n * p" using assms(2,3) by simp
  then have "1 \<le> (?n * p + 99) div 100" by linarith
  then have Suck: "Suc k = (?n * p + 99) div 100" unfolding k_def by simp
  have "percentile_index ?n (int p) = (int ?n * int p + 99) div 100 - 1"
    using assms by (intro percentile_index_eq) simp_all
  also have "(int ?n * int p + 99) div 100 = int ((?n * p + 99) div 100)" by (simp add: zdiv_int)
  finally have idx: "percentile_index ?n (int p) = int k" using Suck by simp
  have "?n * p \<le> ?n * 100" using assms(4) by simp
  then have "(?n * p + 99) div 100 \<le> (?n * 100 + 99) div 100" by (intro div_le_mono) simp
  then have k: "k < ?n" using Suck by simp
  have "?n * p \<le> 100 * Suc k" "100 * k < ?n * p" unfolding Suck using Suck by linarith+
  then have "is_percentile p xs (xs ! k)"
    using length_filter_prefix [OF assms(1) k] k by (auto simp: is_percentile_def mult.commute)
  then show ?thesis using idx Suck k by blast
qed

lemma latency_percentiles:
  assumes "sorted (map snd ls)" and "ls \<noteq> []" and "int (length ls) * 99 < 2 ^ 53"
  shows "\<exists>m. NewLatencyMetric ls = Some m \<and> is_percentile 50 (map snd ls) (Perc50 m)
    \<and> is_percentile 90 (map snd ls) (Perc90 m) \<and> is_percentile 99 (map snd ls) (Perc99 m)
    \<and> Perc50 m \<le> Perc90 m \<and> Perc90 m \<le> Perc99 m"
proof -
  let ?xs = "map snd ls"
  have spec: "\<exists>k. percentile_index (length ls) (int p) = int k \<and> Suc k = (length ls * p + 99) div 100
     \<and> k < length ls \<and> is_percentile p ?xs (snd (ls ! k))" if "0 < p" "p \<le> 99" for p
  proof -
    have "int (length ls) * int p \<le> int (length ls) * 99" using that(2) by (intro mult_left_mono) simp_all
    then have "int (length ls) * int p < 2 ^ 53" using assms(3) by linarith
    then have "\<exists>k. percentile_index (length ?xs) (int p) = int k \<and> Suc k = (length ?xs * p + 99) div 100
        \<and> k < length ?xs \<and> is_percentile p ?xs (?xs ! k)"
      using assms that by (intro percentile_index_spec) simp_all
    then show ?thesis by auto
  qed
  obtain a b c where
    a: "percentile_index (length ls) 50 = int a" "Suc a = (length ls * 50 + 99) div 100" "a < length ls"
      "is_percentile 50 ?xs (snd (ls ! a))" and
    b: "percentile_index (length ls) 90 = int b" "Suc b = (length ls * 90 + 99) div 100" "b < length ls"
      "is_percentile 90 ?xs (snd (ls ! b))" and
    c: "percentile_index (length ls) 99 = int c" "Suc c = (length ls * 99 + 99) div 100" "c < length ls"
      "is_percentile 99 ?xs (snd (ls ! c))"
    using spec [of 50] spec [of 90] spec [of 99] by auto
  have "Suc a \<le> Suc b" "Suc b \<le> Suc c" unfolding a(2) b(2) c(2) by (simp_all add: div_le_mono)
  then have "snd (ls ! a) \<le> snd (ls ! b)" "snd (ls ! b) \<le> snd (ls ! c)"
    using assms(1) a(3) b(3) c(3) by (simp_all add: sorted_iff_nth_mono)
  then show ?thesis using a b c assms(2) by (simp add: NewLatencyMetric_def index_at_def)
qed

text \<open>
  C27. On latencies sorted in increasing order (which both callers ensure) \<open>NewLatencyMetric\<close> never
  indexes out of range, and its fields are the 50th, 90th and 99th percentiles by nearest rank, in
  increasing order. The floating-point index computation is exact for fewer than \<open>2 ^ 53 / 99\<close>
  latencies.
\<close>

theorem NewLatencyMetric_percentiles:
  assumes "sorted (map snd ls)" and "ls \<noteq> []" and "int (length ls) * 99 < 2 ^ 53"
  shows "\<exists>m. NewLatencyMetric ls = Some m \<and> is_percentile 50 (map snd ls) (Perc50 m)
    \<and> is_percentile 90 (map snd ls) (Perc90 m) \<and> is_percentile 99 (map snd ls) (Perc99 m)
    \<and> Perc50 m \<le> Perc90 m \<and> Perc90 m \<le> Perc99 m"
  using assms by (rule latency_percentiles)

theorem NewLatencyMetric_percentiles_witness:
  "\<exists>m. NewLatencyMetric [(''a'', 1), (''b'', 2), (''c'', 9)] = Some m \<and> is_percentile 50 [1, 2, 9] (Perc50 m)
     \<and> Perc50 m \<le> Perc90 m \<and> Perc90 m \<le> Perc99 m"
  using NewLatencyMetric_percentiles [of "[(''a'', 1), (''b'', 2), (''c'', 9)]"] by auto

subsection \<open>Transition latencies\<close>

lemma NewLatencyMetric_cong: "map snd a = map snd b \<Longrightarrow> NewLatencyMetric a = NewLatencyMetric b"
proof -
  assume eq: "map snd a = map snd b"
  have at: "map_option snd (index_at xs i) = index_at (map snd xs) i" for xs :: "latencyData list" and i
    by (auto simp: index_at_def nat_less_iff)
  have met: "NewLatencyMetric xs = (if length xs = 0 then Some \<lparr>Perc50 = 0, Perc90 = 0, Perc99 = 0\<rparr>
      else do { p50 \<leftarrow> index_at (map snd xs) (percentile_index (length xs) 50);
                p90 \<leftarrow> index_at (map snd xs) (percentile_index (length xs) 90);
                p99 \<leftarrow> index_at (map snd xs) (percentile_index (length xs) 99);
                Some \<lparr>Perc50 = p50, Perc90 = p90, Perc99 = p99\<rparr> })" for xs
    unfolding at [symmetric] by (simp add: NewLatencyMetric_def Option.bind_map_option comp_def)
  have "length a = length b" using eq by (rule map_eq_imp_length_eq)
  then show ?thesis unfolding met eq by simp
qed

lemma map_snd_sort_key: "map snd (sort_key snd xs) = sort (map snd xs)" for xs :: "latencyData list"
proof -
  have "mset (map snd (sort_key snd xs)) = mset (map snd xs)" by simp
  then show ?thesis using properties_for_sort [of "map snd (sort_key snd xs)" "map snd xs"] by simp
qed

lemma lag_metric_perm:
  assumes "mset xs = mset ys"
  shows "NewLatencyMetric (sort_key snd (List.map_filter f xs)) = NewLatencyMetric (sort_key snd (List.map_filter f ys))"
proof -
  have "mset (List.map_filter f xs) = mset (List.map_filter f ys)"
    using assms by (simp add: List.map_filter_def mset_filter)
  then have "mset (map snd (List.map_filter f xs)) = mset (map snd (List.map_filter f ys))" by simp
  then have "map snd (sort_key snd (List.map_filter f xs)) = map snd (sort_key snd (List.map_filter f ys))"
    unfolding map_snd_sort_key by (metis sorted_list_of_multiset_mset)
  then show ?thesis by (rule NewLatencyMetric_cong)
qed

lemma transitions_loop_perm: "mset xs = mset ys \<Longrightarrow> transitions_loop xs f t m = transitions_loop ys f t m"
  by (induction t arbitrary: m) (auto simp: lag_metric_perm [of xs ys])

lemma lag_metric_ok:
  assumes "int (length xs) * 99 < 2 ^ 53"
  shows "\<exists>m. NewLatencyMetric (sort_key snd (List.map_filter (transition_lag tr f) xs)) = Some m
     \<and> 0 \<le> Perc50 m \<and> Perc50 m \<le> Perc90 m \<and> Perc90 m \<le> Perc99 m"
proof (cases "List.map_filter (transition_lag tr f) xs = []")
  case True
  then show ?thesis by (simp add: NewLatencyMetric_def)
next
  case False
  let ?l = "sort_key snd (List.map_filter (transition_lag tr f) xs)"
  have "length ?l \<le> length xs" by (simp add: List.map_filter_def)
  then have len: "int (length ?l) * 99 < 2 ^ 53" using assms by linarith
  have ne: "?l \<noteq> []" using False by (metis mset_sort mset_zero_iff)
  obtain m where m: "NewLatencyMetric ?l = Some m" "is_percentile 50 (map snd ?l) (Perc50 m)"
      "Perc50 m \<le> Perc90 m" "Perc90 m \<le> Perc99 m"
    using latency_percentiles [OF _ ne len] by (auto simp: map_snd_sort_key)
  have "Perc50 m \<in> snd ` set (List.map_filter (transition_lag tr f) xs)" using m(2) by (simp add: is_percentile_def)
  then have "0 \<le> Perc50 m"
    by (auto simp: List.map_filter_def transition_lag_def Let_def split: option.splits if_splits)
  then show ?thesis using m by blast
qed

text \<open>
  C28. \<open>CalculateTransitionsLatency\<close> does not depend on the order in which Go iterates over the map of
  times, and gives for every transition percentiles that are non-negative and increasing, whatever
  the timestamps are.
\<close>

theorem CalculateTransitionsLatency_deterministic:
  assumes "mset (ott_times a) = mset (ott_times b)" and "int (length (ott_times a)) * 99 < 2 ^ 53"
  shows "CalculateTransitionsLatency a t f = CalculateTransitionsLatency b t f
    \<and> (\<exists>r. CalculateTransitionsLatency a t f = Some r \<and> map_of r ` fst ` set t \<subseteq> Some ` {m. 0 \<le> Perc50 m
         \<and> Perc50 m \<le> Perc90 m \<and> Perc90 m \<le> Perc99 m})"
proof -
  let ?G = "Some ` {m. 0 \<le> Perc50 m \<and> Perc50 m \<le> Perc90 m \<and> Perc90 m \<le> Perc99 m}"
  have loop: "map_of m ` D \<subseteq> ?G \<Longrightarrow> \<exists>r. transitions_loop (ott_times a) f t m = Some r \<and> map_of r ` (D \<union> fst ` set t) \<subseteq> ?G" for t m D
  proof (induction t arbitrary: m D)
    case (Cons nt t)
    obtain n tr where nt: "nt = (n, tr)" by (cases nt)
    obtain l where l: "NewLatencyMetric (sort_key snd (List.map_filter (transition_lag tr f) (ott_times a))) = Some l"
        "0 \<le> Perc50 l \<and> Perc50 l \<le> Perc90 l \<and> Perc90 l \<le> Perc99 l"
      using lag_metric_ok [OF assms(2)] by blast
    have "map_of (AList.update n l m) ` (insert n D) \<subseteq> ?G" using Cons.prems l(2) by auto
    from Cons.IH [OF this] show ?case using l(1) by (auto simp: nt)
  qed simp
  show ?thesis
    using loop [of "[]" "{}" t] transitions_loop_perm [OF assms(1)] by (simp add: CalculateTransitionsLatency_def)
qed

theorem CalculateTransitionsLatency_deterministic_witness:
  "CalculateTransitionsLatency \<lparr>ott_name = ''x'', ott_times = [(''p'', [(''c'', 3), (''r'', 1)]), (''q'', [(''c'', 1), (''r'', 5)])]\<rparr>
      [(''create_to_run'', \<lparr>tr_From = ''c'', tr_To = ''r'', tr_Threshold = 0\<rparr>)] (\<lambda>_. True)
   = CalculateTransitionsLatency \<lparr>ott_name = ''x'', ott_times = [(''q'', [(''c'', 1), (''r'', 5)]), (''p'', [(''c'', 3), (''r'', 1)])]\<rparr>
      [(''create_to_run'', \<lparr>tr_From = ''c'', tr_To = ''r'', tr_Threshold = 0\<rparr>)] (\<lambda>_. True)"
  using CalculateTransitionsLatency_deterministic
    [of "\<lparr>ott_name = ''x'', ott_times = [(''p'', [(''c'', 3), (''r'', 1)]), (''q'', [(''c'', 1), (''r'', 5)])]\<rparr>"
        "\<lparr>ott_name = ''x'', ott_times = [(''q'', [(''c'', 1), (''r'', 5)]), (''p'', [(''c'', 3), (''r'', 1)])]\<rparr>"]
  by simp

subsection \<open>Histograms\<close>

lemma same_map_iff: "same_map a b \<longleftrightarrow> map_of a = map_of b"
proof
  assume s: "same_map a b"
  show "map_of a = map_of b"
  proof
    fix k show "map_of a k = map_of b k"
      using s by (cases "k \<in> set (map fst a @ map fst b)") (auto simp: same_map_def map_of_eq_None_iff [symmetric])
  qed
qed (simp add: same_map_def)

definition bucket_value :: "Histogram \<Rightarrow> string \<Rightarrow> int" where
  "bucket_value h b = (case map_of (hi_Buckets h) b of None \<Rightarrow> 0 | Some v \<Rightarrow> v)"

text \<open>The count of a bucket in a vector of histograms, found by its labels.\<close>

fun vec_value :: "Histogram list \<Rightarrow> (string, string) go_map \<Rightarrow> string \<Rightarrow> int" where
  "vec_value [] labels b = 0"
| "vec_value (h # hs) labels b = (if same_map labels (hi_Labels h) then bucket_value h b else vec_value hs labels b)"

definition sample_in :: "(string, string) go_map \<Rightarrow> string \<Rightarrow> Sample \<Rightarrow> bool" where
  "sample_in labels b s \<longleftrightarrow> same_map labels (sample_labels s) \<and> sample_bucket s = b"

lemma bucket_value_add:
  "bucket_value (add_to_bucket s h) b = bucket_value h b + (if sample_bucket s = b then f64_to_int (sm_Value s) else 0)"
  "hi_Labels (add_to_bucket s h) = hi_Labels h"
  by (simp_all add: bucket_value_def add_to_bucket_def Let_def)

lemma vec_value_convert:
  "vec_value (ConvertSampleToBucket s hs) labels b =
     vec_value hs labels b + (if sample_in labels b s then f64_to_int (sm_Value s) else 0)"
proof (induction s hs rule: ConvertSampleToBucket.induct)
  case (1 s)
  have "bucket_value (NewHistogram l) b = 0" "hi_Labels (NewHistogram l) = l" for l
    by (simp_all add: bucket_value_def NewHistogram_def)
  then show ?case by (simp add: bucket_value_add sample_in_def)
next
  case (2 s h hs)
  then show ?case by (auto simp: bucket_value_add sample_in_def same_map_iff)
qed

text \<open>
  However the samples of a Prometheus answer are ordered and grouped, the histogram vector that
  \<open>ConvertSampleToBucket\<close> builds holds for every label set and bucket the sum of the values of the
  samples with these labels and this bucket, whatever the order of the labels in a sample.
\<close>

theorem histogram_buckets_accumulate:
  "vec_value (foldl (\<lambda>hs s. ConvertSampleToBucket s hs) [] samples) labels b =
     sum_list (map (\<lambda>s. f64_to_int (sm_Value s)) (filter (sample_in labels b) samples))"
  by (induction samples rule: rev_induct) (simp_all add: vec_value_convert)

subsection \<open>The metric of the API server\<close>

lemma of_char_digit: "d < 10 \<Longrightarrow> (of_char (digit_char d) :: nat) = 48 + d"
  by (simp add: digit_char_def)

lemma of_char_numerals: "(of_char CHR ''2'' :: nat) = 50" "(of_char CHR ''3'' :: nat) = 51" "(of_char CHR ''6'' :: nat) = 54"
  by simp_all

lemma digit_char_eq: "d < 10 \<Longrightarrow> e < 10 \<Longrightarrow> digit_char d = digit_char e \<longleftrightarrow> d = e"
  by (metis of_char_digit add_left_cancel)

lemma two_digit_less:
  assumes "10 \<le> n" and "n < 100" and "10 \<le> m" and "m < 100"
  shows "str_less (utoa n) (utoa m) \<longleftrightarrow> n < m"
proof -
  have two: "utoa k = [digit_char (k div 10), digit_char (k mod 10)]" if "10 \<le> k" "k < 100" for k
    using that by (simp add: utoa.simps [of k] utoa.simps [of "k div 10"])
  have "n div 10 < 10" "m div 10 < 10" using assms by simp_all
  then have "str_less (utoa n) (utoa m) \<longleftrightarrow> n div 10 < m div 10 \<or> n div 10 = m div 10 \<and> n mod 10 < m mod 10"
    using assms by (simp add: two of_char_digit digit_char_eq)
  also have "\<dots> \<longleftrightarrow> 10 * (n div 10) + n mod 10 < 10 * (m div 10) + m mod 10"
    using mod_less_divisor [of 10 n] mod_less_divisor [of 10 m] by linarith
  also have "\<dots> \<longleftrightarrow> n < m" by simp
  finally show ?thesis .
qed

text \<open>
  For Kubernetes 1.10 to 1.99 the name of the API server metric follows the version: the plain
  name below 1.23, the \<open>slo\<close> name below 1.26, the \<open>sli\<close> name from then on. The versions are compared
  as text, so the rule does not extend to other numbers of digits: 1.9 gets the newest name and
  1.100 the oldest.
\<close>

theorem GetApiserverSLI_by_version:
  assumes "10 \<le> n" and "n < 100"
  shows "GetApiserverSLI ''1'' (utoa n) =
    (if n < 23 then ''apiserver_request_duration_seconds''
     else if n < 26 then ''apiserver_request_slo_duration_seconds''
     else ''apiserver_request_sli_duration_seconds'')
   \<and> GetApiserverSLI ''1'' ''9'' = ''apiserver_request_sli_duration_seconds''
   \<and> GetApiserverSLI ''1'' ''100'' = ''apiserver_request_duration_seconds''"
proof -
  have "utoa 23 = [digit_char 2, digit_char 3]" "utoa 26 = [digit_char 2, digit_char 6]"
    by (simp_all add: utoa.simps)
  moreover have "digit_char 2 = CHR ''2''" "digit_char 3 = CHR ''3''" "digit_char 6 = CHR ''6''"
    by code_simp+
  ultimately have "utoa 23 = ''23''" "utoa 26 = ''26''" by simp_all
  then have "str_less (utoa n) ''23'' \<longleftrightarrow> n < 23" "str_less (utoa n) ''26'' \<longleftrightarrow> n < 26"
    using two_digit_less [OF assms, of 23] two_digit_less [OF assms, of 26] by simp_all
  then show ?thesis by (simp add: GetApiserverSLI_def)
qed

theorem GetApiserverSLI_by_version_witness:
  "GetApiserverSLI ''1'' (utoa 25) = ''apiserver_request_slo_duration_seconds''"
  using GetApiserverSLI_by_version [of 25] by simp

end
