(* ===== verification/Dependencies.thy ===== *)
theory Dependencies
  imports Measurements Latency
begin

text \<open>
  Package \<open>pkg/dependency\<close>: the factory and the manager of the dependencies of a test. A dependency
  acts on the world, a state of type \<open>'w\<close>, through \<open>d_Setup\<close> and \<open>d_Teardown\<close>; the last component
  of their result is the error. \<open>d_TimedOut\<close> says which case the \<open>select\<close> of \<open>setupSingleDependency\<close>
  takes for a dependency with a timeout: the setup goes on in its goroutine when the deadline comes
  first, so its effect on the world is there in both cases. The trace \<open>dm_log\<close> records the calls.
\<close>

record 'd dependencyFactory =
  df_createFuncs :: "(string, 'd) go_map"
  df_RegisteredDependencies :: "(string, bool) go_map"

definition newDependencyFactory :: "'d dependencyFactory" where
  "newDependencyFactory = \<lparr>df_createFuncs = [], df_RegisteredDependencies = []\<rparr>"

definition dependency_register ::
    "'d dependencyFactory \<Rightarrow> string \<Rightarrow> 'd \<Rightarrow> 'd dependencyFactory \<times> go_error option" where
  "dependency_register df methodName createFunc = (case map_of (df_createFuncs df) methodName of
      Some _ \<Rightarrow> (df, Some (ErrText (''dependency with method '' @ methodName @ '' already exists'')))
    | None \<Rightarrow> (df\<lparr>df_createFuncs := AList.update methodName createFunc (df_createFuncs df),
                  df_RegisteredDependencies := AList.update methodName True (df_RegisteredDependencies df)\<rparr>, None))"

definition createDependency :: "'d dependencyFactory \<Rightarrow> string \<Rightarrow> 'd result" where
  "createDependency df methodName = (case map_of (df_createFuncs df) methodName of
      None \<Rightarrow> Inl (ErrText (''unknown dependency method '' @ methodName))
    | Some createFunc \<Rightarrow> Inr createFunc)"

interpretation dreg: registry dependency_register createDependency
  "\<lambda>df n. map_of (df_createFuncs df) n \<noteq> None"
  by unfold_locales (auto simp: dependency_register_def createDependency_def split: option.splits)

datatype dep_call = SetupCall Dependency | TeardownCall Dependency

record ('d, 'w) dependency_env =
  d_factory :: "'d dependencyFactory"
  d_ServerVersion :: "'w \<Rightarrow> 'w \<times> string result"
  d_Setup :: "'d \<Rightarrow> Dependency \<Rightarrow> 'w \<Rightarrow> 'w \<times> go_error option"
  d_Teardown :: "'d \<Rightarrow> Dependency \<Rightarrow> 'w \<Rightarrow> 'w \<times> go_error option"
  d_TimedOut :: "Dependency \<Rightarrow> bool"

record ('d, 'w) dependencyManager =
  dm_dependencies :: "(string, 'd) go_map"
  dm_setupDependencies :: "(Dependency \<times> 'd) list"
  dm_world :: 'w
  dm_log :: "dep_call list"

definition CreateDependencyManager :: "'w \<Rightarrow> ('d, 'w) dependencyManager" where
  "CreateDependencyManager w = \<lparr>dm_dependencies = [], dm_setupDependencies = [], dm_world = w, dm_log = []\<rparr>"

definition getDependencyInstance ::
    "('d, 'w) dependency_env \<Rightarrow> ('d, 'w) dependencyManager \<Rightarrow> string \<Rightarrow> ('d, 'w) dependencyManager \<times> 'd result" where
  "getDependencyInstance env dm methodName = (case map_of (dm_dependencies dm) methodName of
      Some d \<Rightarrow> (dm, Inr d)
    | None \<Rightarrow> (case createDependency (d_factory env) methodName of
        Inl err \<Rightarrow> (dm, Inl err)
      | Inr d \<Rightarrow> (dm\<lparr>dm_dependencies := AList.update methodName d (dm_dependencies dm)\<rparr>, Inr d)))"

definition setupSingleDependency ::
    "('d, 'w) dependency_env \<Rightarrow> Dependency \<Rightarrow> ('d, 'w) dependencyManager \<Rightarrow> ('d, 'w) dependencyManager \<times> go_error option" where
  "setupSingleDependency env dep dm = (case getDependencyInstance env dm (dep_Method dep) of
      (dm1, Inl err) \<Rightarrow> (dm1, Some err)
    | (dm1, Inr d) \<Rightarrow> (case d_ServerVersion env (dm_world dm1) of
        (w0, Inl err) \<Rightarrow> (dm1\<lparr>dm_world := w0\<rparr>, Some (ErrWrap (''failed to get cluster version: '' @ Error err) [err]))
      | (w0, Inr _) \<Rightarrow>
          let (w, res) = d_Setup env d dep w0;
              dm2 = dm1\<lparr>dm_world := w, dm_log := dm_log dm1 @ [SetupCall dep]\<rparr>
          in if dep_Timeout dep > 0 \<and> d_TimedOut env dep
             then (dm2, Some (ErrText (''dependency '' @ dep_Name dep @ '' setup timed out after '' @ fmt_duration (dep_Timeout dep))))
             else (case res of
                 Some err \<Rightarrow> (dm2, Some (ErrWrap (''dependency '' @ dep_Name dep @ '' setup failed: '' @ Error err) [err]))
               | None \<Rightarrow> (dm2\<lparr>dm_setupDependencies := dm_setupDependencies dm2 @ [(dep, d)]\<rparr>, None))))"

fun setup_loop ::
    "('d, 'w) dependency_env \<Rightarrow> Dependency list \<Rightarrow> ErrorList \<Rightarrow> ('d, 'w) dependencyManager \<Rightarrow> ('d, 'w) dependencyManager \<times> ErrorList" where
  "setup_loop env [] errList dm = (dm, errList)"
| "setup_loop env (dep # deps) errList dm = (case setupSingleDependency env dep dm of
      (dm', None) \<Rightarrow> setup_loop env deps errList dm'
    | (dm', Some err) \<Rightarrow> setup_loop env deps (ErrorList_Append errList [err]) dm')"

definition SetupDependencies ::
    "('d, 'w) dependency_env \<Rightarrow> Dependency list \<Rightarrow> ('d, 'w) dependencyManager \<Rightarrow> ('d, 'w) dependencyManager \<times> ErrorList" where
  "SetupDependencies env dependencies dm = setup_loop env dependencies (NewErrorList []) dm"

definition teardownDependencyInstance ::
    "('d, 'w) dependency_env \<Rightarrow> Dependency \<times> 'd \<Rightarrow> ('d, 'w) dependencyManager \<Rightarrow> ('d, 'w) dependencyManager \<times> go_error option" where
  "teardownDependencyInstance env di dm = (case di of (dep, d) \<Rightarrow> (case d_ServerVersion env (dm_world dm) of
      (w0, Inl err) \<Rightarrow> (dm\<lparr>dm_world := w0\<rparr>, Some (ErrWrap (''failed to get cluster version during teardown: '' @ Error err) [err]))
    | (w0, Inr _) \<Rightarrow>
        let (w, res) = d_Teardown env d dep w0;
            dm1 = dm\<lparr>dm_world := w, dm_log := dm_log dm @ [TeardownCall dep]\<rparr>
        in case res of
             Some err \<Rightarrow> (dm1, Some (ErrWrap (''dependency '' @ dep_Name dep @ '' teardown failed: '' @ Error err) [err]))
           | None \<Rightarrow> (dm1, None)))"

text \<open>The loop runs from the last index down to 0: over the reversed slice.\<close>

fun teardown_loop ::
    "('d, 'w) dependency_env \<Rightarrow> (Dependency \<times> 'd) list \<Rightarrow> ErrorList \<Rightarrow> ('d, 'w) dependencyManager
       \<Rightarrow> ('d, 'w) dependencyManager \<times> ErrorList" where
  "teardown_loop env [] errList dm = (dm, errList)"
| "teardown_loop env (di # dis) errList dm = (case teardownDependencyInstance env di dm of
      (dm', None) \<Rightarrow> teardown_loop env dis errList dm'
    | (dm', Some err) \<Rightarrow> teardown_loop env dis (ErrorList_Append errList [err]) dm')"

definition TeardownDependencies ::
    "('d, 'w) dependency_env \<Rightarrow> ('d, 'w) dependencyManager \<Rightarrow> ('d, 'w) dependencyManager \<times> ErrorList" where
  "TeardownDependencies env dm = teardown_loop env (rev (dm_setupDependencies dm)) (NewErrorList []) dm"

subsection \<open>What is set up is torn down\<close>

text \<open>A dependency whose setup is recorded: its method is known, and neither the setup nor the
  deadline failed, in the world the setup runs in.\<close>

definition setup_ok :: "('d, 'w) dependency_env \<Rightarrow> Dependency \<Rightarrow> ('d, 'w) dependencyManager \<Rightarrow> bool" where
  "setup_ok env dep dm \<longleftrightarrow> snd (setupSingleDependency env dep dm) = None"

fun successful :: "('d, 'w) dependency_env \<Rightarrow> Dependency list \<Rightarrow> ('d, 'w) dependencyManager \<Rightarrow> Dependency list" where
  "successful env [] dm = []"
| "successful env (dep # deps) dm = (if setup_ok env dep dm then [dep] else [])
     @ successful env deps (fst (setupSingleDependency env dep dm))"

lemma getDependencyInstance_setup [simp]:
  "dm_setupDependencies (fst (getDependencyInstance env dm m)) = dm_setupDependencies dm"
  by (simp add: getDependencyInstance_def split: option.split sum.split)

lemma setupSingleDependency_setup:
  "map fst (dm_setupDependencies (fst (setupSingleDependency env dep dm))) =
     map fst (dm_setupDependencies dm) @ (if setup_ok env dep dm then [dep] else [])"
  using getDependencyInstance_setup [of env dm "dep_Method dep"]
  by (cases "getDependencyInstance env dm (dep_Method dep)")
    (auto simp: setup_ok_def setupSingleDependency_def Let_def split: sum.splits prod.splits option.splits if_splits)

lemma setup_loop_setup:
  "map fst (dm_setupDependencies (fst (setup_loop env deps errs dm))) = map fst (dm_setupDependencies dm) @ successful env deps dm"
proof (induction deps arbitrary: errs dm)
  case (Cons dep deps)
  show ?case
    using setupSingleDependency_setup [of env dep dm] Cons.IH
    by (cases "setupSingleDependency env dep dm") (auto split: option.split)
qed simp

lemma setup_loop_errors:
  "length (errors (snd (setup_loop env deps errs dm))) = length (errors errs) + length deps - length (successful env deps dm)
   \<and> length (successful env deps dm) \<le> length deps"
proof (induction deps arbitrary: errs dm)
  case (Cons dep deps)
  show ?case
    using Cons.IH [of _ "fst (setupSingleDependency env dep dm)"]
    by (cases "setupSingleDependency env dep dm") (auto simp: setup_ok_def intro: le_SucI split: option.split)
qed simp

text \<open>
  The dependencies of a list whose \<open>Teardown\<close> is called, from a given world on: those for which the
  API server reports its version when their turn comes.
\<close>

fun torn_down :: "('d, 'w) dependency_env \<Rightarrow> (Dependency \<times> 'd) list \<Rightarrow> 'w \<Rightarrow> Dependency list" where
  "torn_down env [] w = []"
| "torn_down env ((dep, d) # dis) w = (case d_ServerVersion env w of
      (w0, Inl err) \<Rightarrow> torn_down env dis w0
    | (w0, Inr v) \<Rightarrow> dep # torn_down env dis (fst (d_Teardown env d dep w0)))"

lemma teardown_loop_torn:
  "dm_log (fst (teardown_loop env dis errs dm)) = dm_log dm @ map TeardownCall (torn_down env dis (dm_world dm))"
proof (induction dis arbitrary: errs dm)
  case (Cons di dis)
  obtain dep d where di: "di = (dep, d)" by (cases di)
  obtain w0 ver where v: "d_ServerVersion env (dm_world dm) = (w0, ver)" by (cases "d_ServerVersion env (dm_world dm)")
  obtain w res where t: "d_Teardown env d dep w0 = (w, res)" by (cases "d_Teardown env d dep w0")
  show ?case
    by (cases ver; cases res) (simp_all add: teardownDependencyInstance_def di v t Cons.IH)
qed simp

lemma torn_down_subseq: "subseq (torn_down env dis w) (map fst dis)"
proof (induction dis arbitrary: w)
  case (Cons di dis)
  show ?case by (cases di) (auto intro: list_emb_Cons Cons.IH split: prod.split sum.split)
qed simp

lemma torn_down_all:
  assumes "\<And>w. \<exists>w' v. d_ServerVersion env w = (w', Inr v)"
  shows "torn_down env dis w = map fst dis"
proof (induction dis arbitrary: w)
  case (Cons di dis)
  obtain w' v where "d_ServerVersion env w = (w', Inr v)" using assms by blast
  then show ?case using Cons.IH by (cases di) simp
qed simp

text \<open>
  C30. Setting up goes through all dependencies even when some fail, with one error per failure;
  tearing down calls \<open>Teardown\<close> for exactly the dependencies whose setup succeeded, in the reverse
  order, and goes on after a failing one. The API server is assumed to report its version.
\<close>

theorem teardown_reverses_setup:
  assumes "\<And>w. \<exists>w' v. d_ServerVersion env w = (w', Inr v)"
    and "SetupDependencies env deps (CreateDependencyManager w) = (dm, errs)"
  shows "length (errors errs) + length (successful env deps (CreateDependencyManager w)) = length deps
    \<and> dm_log (fst (TeardownDependencies env dm)) = dm_log dm
        @ map TeardownCall (rev (successful env deps (CreateDependencyManager w)))"
proof
  show "length (errors errs) + length (successful env deps (CreateDependencyManager w)) = length deps"
    using setup_loop_errors [of env deps "NewErrorList []" "CreateDependencyManager w"] assms(2)
    by (simp add: SetupDependencies_def)
  have "map fst (dm_setupDependencies dm) = successful env deps (CreateDependencyManager w)"
    using setup_loop_setup [of env deps "NewErrorList []" "CreateDependencyManager w"] assms(2)
    by (simp add: SetupDependencies_def CreateDependencyManager_def)
  then have "rev (successful env deps (CreateDependencyManager w)) = map fst (rev (dm_setupDependencies dm))"
    by (metis rev_map)
  then show "dm_log (fst (TeardownDependencies env dm)) = dm_log dm
      @ map TeardownCall (rev (successful env deps (CreateDependencyManager w)))"
    by (simp add: TeardownDependencies_def teardown_loop_torn torn_down_all [OF assms(1)])
qed

definition sample_dependency :: "string \<Rightarrow> duration \<Rightarrow> Dependency" where
  "sample_dependency n t = \<lparr>dep_Name = n, dep_Method = ''D'', dep_Timeout = t, dep_Params = []\<rparr>"

text \<open>Setups succeed; the one called \<open>slow\<close> misses its deadline.\<close>

definition sample_dependency_env :: "(unit, string list) dependency_env" where
  "sample_dependency_env = \<lparr>d_factory = fst (dependency_register newDependencyFactory ''D'' ()),
     d_ServerVersion = (\<lambda>w. (w, Inr ''1.30'')),
     d_Setup = (\<lambda>_ dep w. (dep_Name dep # w, None)), d_Teardown = (\<lambda>_ dep w. (remove1 (dep_Name dep) w, None)),
     d_TimedOut = (\<lambda>dep. dep_Name dep = ''slow'')\<rparr>"

lemmas sample_dependency_simps = sample_dependency_env_def sample_dependency_def SetupDependencies_def
  TeardownDependencies_def setupSingleDependency_def teardownDependencyInstance_def getDependencyInstance_def createDependency_def
  dependency_register_def newDependencyFactory_def CreateDependencyManager_def setup_ok_def

theorem teardown_reverses_setup_witness:
  "dm_log (fst (TeardownDependencies sample_dependency_env (fst (SetupDependencies sample_dependency_env
      [sample_dependency ''a'' 0, sample_dependency ''b'' 0] (CreateDependencyManager [])))))
   = [SetupCall (sample_dependency ''a'' 0), SetupCall (sample_dependency ''b'' 0),
      TeardownCall (sample_dependency ''b'' 0), TeardownCall (sample_dependency ''a'' 0)]"
  using teardown_reverses_setup [of sample_dependency_env "[sample_dependency ''a'' 0, sample_dependency ''b'' 0]" "[]", OF _ prod.collapse [symmetric]]
  by (simp add: sample_dependency_simps)

text \<open>
  A dependency that misses its deadline is not torn down although its setup goes on and takes
  effect: after setup and teardown of a slow dependency the world still holds what it set up.
\<close>

lemma timed_out_dependency_leaks:
  "dm_world (fst (TeardownDependencies sample_dependency_env (fst (SetupDependencies sample_dependency_env
      [sample_dependency ''a'' 0, sample_dependency ''slow'' 1] (CreateDependencyManager []))))) = [''slow'']"
  by (simp add: sample_dependency_simps)

end
