(* ===== verification/Config.thy ===== *)
theory Config
  imports Phases Go_Threads
begin

text \<open>
  \<open>pkg/config/codec.go\<close> and \<open>template_provider.go\<close>: reading templates and the values their
  placeholders are replaced with. A file is a string; the file system, whose state has the type
  \<open>'w\<close>, the template engine and the decoders are parameters (\<open>provider_env\<close>). A provider caches the
  files and the parsed templates it has read.
\<close>

subsection \<open>\<open>codec.go\<close>\<close>

text \<open>
  The white space of Unicode, as \<open>strings.TrimSpace\<close> sees it in the UTF-8 bytes of a file: the number
  of bytes of the white space character at the front, 0 when there is none.
\<close>

definition space_width :: "string \<Rightarrow> nat" where
  "space_width s = (let b = map of_char s :: nat list
     in if b = [] then 0
        else if hd b \<in> {9, 10, 11, 12, 13, 32} then 1
        else if take 2 b = [194, 133] \<or> take 2 b = [194, 160] then 2
        else if take 3 b \<in> {[225, 154, 128], [226, 128, 168], [226, 128, 169], [226, 128, 175], [226, 129, 159], [227, 128, 128]}
            \<or> take 2 b = [226, 128] \<and> 3 \<le> length b \<and> 128 \<le> b ! 2 \<and> b ! 2 \<le> 138 then 3
        else 0)"

function isEmpty :: "string \<Rightarrow> bool" where
  "isEmpty raw = (if raw = [] then True else if space_width raw = 0 then False else isEmpty (drop (space_width raw) raw))"
  by pat_completeness simp
termination by (relation "measure length") simp_all

declare isEmpty.simps [simp del]

definition convertToObject :: "(string \<Rightarrow> Unstructured result) \<Rightarrow> string \<Rightarrow> Unstructured result" where
  "convertToObject Decode raw = (if isEmpty raw then Inl ErrorEmptyFile
     else (case Decode raw of
         Inl err \<Rightarrow> Inl (ErrText (''unmarshaling error: '' @ Error err))
       | Inr obj \<Rightarrow> Inr obj))"

definition decodeInto :: "(string \<Rightarrow> 'a result) \<Rightarrow> string \<Rightarrow> 'a result" where
  "decodeInto Decode raw = (case Decode raw of
      Inl err \<Rightarrow> Inl (ErrText (''decoding failed: '' @ Error err)) | Inr v \<Rightarrow> Inr v)"

subsection \<open>\<open>TemplateProvider\<close>\<close>

record 't TemplateProvider =
  binCache :: "(string, string) go_map"
  templateCache :: "(string, 't) go_map"

record ('t, 'w) provider_env =
  p_ReadFile :: "string \<Rightarrow> 'w \<Rightarrow> 'w \<times> string result"
  p_Parse :: "string \<Rightarrow> 't result"
  p_Execute :: "'t \<Rightarrow> params \<Rightarrow> string result"
  p_Decode :: "string \<Rightarrow> Unstructured result"

definition NewTemplateProvider :: "'t TemplateProvider" where
  "NewTemplateProvider = \<lparr>binCache = [], templateCache = []\<rparr>"

text \<open>
  \<open>getRaw\<close> takes two critical sections: a lookup under the read lock, and, when the file is not in
  the cache, a second lookup and the read under the write lock. \<open>raw_step\<close> is one of them.
\<close>

datatype raw_thread = RawLookup string | RawRecheck string | RawDone string "string result"

type_synonym ('t, 'w) provider = "'t TemplateProvider \<times> 'w"

fun raw_step :: "('t, 'w) provider_env \<Rightarrow> raw_thread \<Rightarrow> ('t, 'w) provider \<Rightarrow> raw_thread \<times> ('t, 'w) provider" where
  "raw_step env (RawLookup path) (tp, w) = (case map_of (binCache tp) path of
      Some bin \<Rightarrow> (RawDone path (Inr bin), tp, w)
    | None \<Rightarrow> (RawRecheck path, tp, w))"
| "raw_step env (RawRecheck path) (tp, w) = (case map_of (binCache tp) path of
      Some bin \<Rightarrow> (RawDone path (Inr bin), tp, w)
    | None \<Rightarrow> (case p_ReadFile env path w of
        (w', Inl err) \<Rightarrow> (RawDone path (Inl (ErrText (''reading error: '' @ Error err))), tp, w')
      | (w', Inr bin) \<Rightarrow> (RawDone path (Inr bin), tp\<lparr>binCache := AList.update path bin (binCache tp)\<rparr>, w')))"
| "raw_step env (RawDone path r) s = (RawDone path r, s)"

fun raw_result :: "raw_thread \<Rightarrow> string result" where
  "raw_result (RawDone _ r) = r"
| "raw_result _ = Inl (ErrText [])"

definition getRaw :: "('t, 'w) provider_env \<Rightarrow> string \<Rightarrow> ('t, 'w) provider \<Rightarrow> ('t, 'w) provider \<times> string result" where
  "getRaw env path s =
     (let (th, s1) = raw_step env (RawLookup path) s; (th2, s2) = raw_step env th s1 in (s2, raw_result th2))"

text \<open>The replacement of \<open>{{.*}}\<close> by nothing: in each line from the first opening to the last closing braces.\<close>

fun after_last_close :: "string \<Rightarrow> string option" where
  "after_last_close (c # d # rest) = (case after_last_close (d # rest) of
      Some r \<Rightarrow> Some r
    | None \<Rightarrow> if c = CHR ''}'' \<and> d = CHR ''}'' then Some rest else None)"
| "after_last_close _ = None"

fun strip_line :: "string \<Rightarrow> string" where
  "strip_line (c # d # rest) =
     (if c = CHR ''{'' \<and> d = CHR ''{''
      then (case after_last_close rest of Some r \<Rightarrow> r | None \<Rightarrow> c # strip_line (d # rest))
      else c # strip_line (d # rest))"
| "strip_line s = s"

definition strip_placeholders :: "string \<Rightarrow> string" where
  "strip_placeholders bin = str_join [CHR 0x0A] (map strip_line (str_split CHR 0x0A bin))"

definition provider_RawToObject ::
    "('t, 'w) provider_env \<Rightarrow> string \<Rightarrow> ('t, 'w) provider \<Rightarrow> ('t, 'w) provider \<times> Unstructured result" where
  "provider_RawToObject env path s = (case getRaw env path s of
      (s', Inl err) \<Rightarrow> (s', Inl err)
    | (s', Inr bin) \<Rightarrow> (s', convertToObject (p_Decode env) (strip_placeholders bin)))"

definition getRawTemplate ::
    "('t, 'w) provider_env \<Rightarrow> string \<Rightarrow> ('t, 'w) provider \<Rightarrow> ('t, 'w) provider \<times> 't result" where
  "getRawTemplate env path s = (case map_of (templateCache (fst s)) path of
      Some raw \<Rightarrow> (s, Inr raw)
    | None \<Rightarrow> (case getRaw env path s of
        (s', Inl err) \<Rightarrow> (s', Inl err)
      | (s', Inr bin) \<Rightarrow> (case p_Parse env bin of
          Inl err \<Rightarrow> (s', Inl (ErrText (''parsing error: '' @ Error err)))
        | Inr raw \<Rightarrow> (((fst s')\<lparr>templateCache := AList.update path raw (templateCache (fst s'))\<rparr>, snd s'), Inr raw))))"

definition getMappedTemplate ::
    "('t, 'w) provider_env \<Rightarrow> string \<Rightarrow> params \<Rightarrow> ('t, 'w) provider \<Rightarrow> ('t, 'w) provider \<times> string result" where
  "getMappedTemplate env path mapping s = (case getRawTemplate env path s of
      (s', Inl err) \<Rightarrow> (s', Inl err)
    | (s', Inr raw) \<Rightarrow> (s', case p_Execute env raw mapping of
        Inl err \<Rightarrow> Inl (ErrText (''replacing placeholders error: '' @ Error err)) | Inr b \<Rightarrow> Inr b))"

definition provider_TemplateToObject ::
    "('t, 'w) provider_env \<Rightarrow> string \<Rightarrow> params \<Rightarrow> ('t, 'w) provider \<Rightarrow> ('t, 'w) provider \<times> Unstructured result" where
  "provider_TemplateToObject env path mapping s = (case getMappedTemplate env path mapping s of
      (s', Inl err) \<Rightarrow> (s', Inl err)
    | (s', Inr b) \<Rightarrow> (s', convertToObject (p_Decode env) b))"

definition TemplateInto ::
    "('t, 'w) provider_env \<Rightarrow> (string \<Rightarrow> 'a result) \<Rightarrow> string \<Rightarrow> params \<Rightarrow> ('t, 'w) provider \<Rightarrow> ('t, 'w) provider \<times> 'a result" where
  "TemplateInto env Decode path mapping s = (case getMappedTemplate env path mapping s of
      (s', Inl err) \<Rightarrow> (s', Inl err)
    | (s', Inr b) \<Rightarrow> (s', decodeInto Decode b))"

definition TemplateToConfig ::
    "('t, 'w) provider_env \<Rightarrow> (string \<Rightarrow> Config result) \<Rightarrow> string \<Rightarrow> params \<Rightarrow> ('t, 'w) provider
       \<Rightarrow> ('t, 'w) provider \<times> Config result" where
  "TemplateToConfig env Decode path mapping s = TemplateInto env Decode path mapping s"

subsection \<open>Test suites and mappings\<close>

text \<open>The verb \<open>%q\<close> on a string of ASCII characters.\<close>

definition quote_char :: "char \<Rightarrow> string" where
  "quote_char c = (let n = of_char c :: nat; hex = ''0123456789abcdef'' in
     if c = CHR 0x22 \<or> c = CHR 0x5C then [CHR 0x5C, c]
     else if n = 7 then [CHR 0x5C, CHR ''a'']
     else if n = 8 then [CHR 0x5C, CHR ''b'']
     else if n = 9 then [CHR 0x5C, CHR ''t'']
     else if n = 10 then [CHR 0x5C, CHR ''n'']
     else if n = 11 then [CHR 0x5C, CHR ''v'']
     else if n = 12 then [CHR 0x5C, CHR ''f'']
     else if n = 13 then [CHR 0x5C, CHR ''r'']
     else if n < 32 \<or> n = 127 then [CHR 0x5C, CHR ''x'', hex ! (n div 16), hex ! (n mod 16)]
     else [c])"

definition fmt_q :: "string \<Rightarrow> string" where
  "fmt_q s = [CHR 0x22] @ concat (map quote_char s) @ [CHR 0x22]"

fun validateTestSuite :: "TestScenario list \<Rightarrow> go_error option" where
  "validateTestSuite [] = None"
| "validateTestSuite (scenario # suite) =
     (if CHR ''_'' \<in> set (ts_Identifier scenario)
      then Some (ErrText (''scenario identifiers cannot contain underscores: '' @ fmt_q (ts_Identifier scenario)))
      else validateTestSuite suite)"

definition LoadTestSuite ::
    "(string \<Rightarrow> string result) \<Rightarrow> (string \<Rightarrow> TestScenario list result) \<Rightarrow> string \<Rightarrow> TestScenario list result" where
  "LoadTestSuite ReadFile Decode path = (case ReadFile path of
      Inl err \<Rightarrow> Inl (ErrText (''test suite reading error: '' @ Error err))
    | Inr bin \<Rightarrow> (case decodeInto Decode bin of
        Inl err \<Rightarrow> Inl err
      | Inr testSuite \<Rightarrow> (case validateTestSuite testSuite of Some err \<Rightarrow> Inl err | None \<Rightarrow> Inr testSuite)))"

definition updateMappingFromFile ::
    "(string \<Rightarrow> string result) \<Rightarrow> (string \<Rightarrow> params result) \<Rightarrow> params \<Rightarrow> string \<Rightarrow> params result" where
  "updateMappingFromFile ReadFile Decode mapping path = (case ReadFile path of
      Inl err \<Rightarrow> Inl (ErrText (''test overrides reading error: '' @ Error err))
    | Inr bin \<Rightarrow> (case decodeInto Decode bin of
        Inl err \<Rightarrow> Inl (ErrText (''test overrides unmarshalling error: '' @ Error err))
      | Inr tmpMapping \<Rightarrow> Inr (CopyMap tmpMapping mapping)))"

fun overrides_loop ::
    "(string \<Rightarrow> string result) \<Rightarrow> (string \<Rightarrow> params result) \<Rightarrow> params \<Rightarrow> string list \<Rightarrow> params result" where
  "overrides_loop ReadFile Decode mapping [] = Inr mapping"
| "overrides_loop ReadFile Decode mapping (path # paths) = (case updateMappingFromFile ReadFile Decode mapping path of
      Inl err \<Rightarrow> Inl err | Inr mapping' \<Rightarrow> overrides_loop ReadFile Decode mapping' paths)"

definition LoadTestOverrides ::
    "(string \<Rightarrow> string result) \<Rightarrow> (string \<Rightarrow> params result) \<Rightarrow> string list \<Rightarrow> string list \<Rightarrow> params result" where
  "LoadTestOverrides ReadFile Decode paths testOverridePaths =
     (case overrides_loop ReadFile Decode [] paths of
        Inl err \<Rightarrow> Inl err | Inr mapping \<Rightarrow> overrides_loop ReadFile Decode mapping testOverridePaths)"

definition unpackStringValue :: "(string \<Rightarrow> float64 option) \<Rightarrow> string \<Rightarrow> gval" where
  "unpackStringValue ParseFloat str = (case parse_int 64 str of
      Some v \<Rightarrow> VInt64 v
    | None \<Rightarrow> (case ParseFloat str of
        Some v \<Rightarrow> VFloat v
      | None \<Rightarrow> (case parse_bool str of Some v \<Rightarrow> VBool v | None \<Rightarrow> VString str)))"

text \<open>\<open>strings.SplitN(s, "=", 2)\<close> gives one part when there is no separator.\<close>

fun envs_loop :: "(string \<Rightarrow> float64 option) \<Rightarrow> string list \<Rightarrow> params \<Rightarrow> params result" where
  "envs_loop ParseFloat [] mapping = Inr mapping"
| "envs_loop ParseFloat (keyValue # envs) mapping =
     (if \<not> prefix ''CL2_'' keyValue then envs_loop ParseFloat envs mapping
      else if CHR ''='' \<notin> set keyValue
           then Inl (ErrText (''unparsable string in os.Eviron(): '' @ keyValue))
           else envs_loop ParseFloat envs
                  (AList.update (takeWhile (\<lambda>c. c \<noteq> CHR ''='') keyValue)
                     (unpackStringValue ParseFloat (tl (dropWhile (\<lambda>c. c \<noteq> CHR ''='') keyValue))) mapping))"

definition LoadCL2Envs :: "(string \<Rightarrow> float64 option) \<Rightarrow> string list \<Rightarrow> params result" where
  "LoadCL2Envs ParseFloat environ = envs_loop ParseFloat environ []"

text \<open>\<open>reflect.DeepEqual\<close>: values of the same type; maps with the same keys and deeply equal values.\<close>

function deep_equal :: "gval \<Rightarrow> gval \<Rightarrow> bool" where
  "deep_equal (VList xs) v = (case v of VList ys \<Rightarrow> length xs = length ys \<and> (\<forall>(x, y) \<in> set (zip xs ys). deep_equal x y) | _ \<Rightarrow> False)"
| "deep_equal (VMap m) v = (case v of
      VMap n \<Rightarrow> length m = length n \<and> (\<forall>(k, x) \<in> set m. case map_of n k of None \<Rightarrow> False | Some y \<Rightarrow> deep_equal x y)
    | _ \<Rightarrow> False)"
| "deep_equal (VFloat f) v \<longleftrightarrow> f \<noteq> NaN \<and> v = VFloat f"
| "deep_equal VNil v \<longleftrightarrow> v = VNil"
| "deep_equal (VString s) v \<longleftrightarrow> v = VString s"
| "deep_equal (VBool b) v \<longleftrightarrow> v = VBool b"
| "deep_equal (VInt i) v \<longleftrightarrow> v = VInt i"
| "deep_equal (VInt64 i) v \<longleftrightarrow> v = VInt64 i"
  by pat_completeness auto
termination
proof (relation "measure (\<lambda>(a, b). size a)")
  fix xs x2 :: "gval list" and v z x y
  assume "v = VList x2" "z \<in> set (zip xs x2)" "(x, y) = z"
  then have "x \<in> set xs" by (auto dest: set_zip_leftD)
  then show "((x, y), VList xs, v) \<in> measure (\<lambda>(a, b). size a)"
    using size_list_estimation' [of x xs "size x" size] by simp
next
  fix m n :: "(string \<times> gval) list" and v z k x y
  assume "v = VMap n" "z \<in> set m" "(k, x) = z" "map_of n k = Some y"
  then have "(k, x) \<in> set m" by simp
  then show "((x, y), VMap m, v) \<in> measure (\<lambda>(a, b). size a)"
    using size_list_estimation' [of "(k, x)" m "size x" "size_prod (\<lambda>_. 0) size"] by simp
qed simp_all

fun MergeMappings :: "params \<Rightarrow> params \<Rightarrow> params \<times> go_error option" where
  "MergeMappings a [] = (a, None)"
| "MergeMappings a ((k, bv) # b) = (case map_of a k of
      None \<Rightarrow> MergeMappings (AList.update k bv a) b
    | Some av \<Rightarrow> if \<not> deep_equal av bv
        then (a, Some (ErrText (''merge conflict for key '' @ [CHR 0x27] @ k @ [CHR 0x27] @ '': old value='' @ fmt_v av
               @ '' ('' @ go_type av @ ''), new value='' @ fmt_v bv @ '' ('' @ go_type bv @ '')'')))
        else MergeMappings a b)"

definition GetMapping ::
    "(string \<Rightarrow> string result) \<Rightarrow> (string \<Rightarrow> params result) \<Rightarrow> (string \<Rightarrow> float64 option) \<Rightarrow> string list \<Rightarrow> string list \<Rightarrow> int
       \<Rightarrow> string list \<Rightarrow> params + ErrorList" where
  "GetMapping ReadFile Decode ParseFloat environ overridePaths nodes testOverridePaths =
     (case LoadTestOverrides ReadFile Decode overridePaths testOverridePaths of
        Inl err \<Rightarrow> Inr (NewErrorList [ErrText (''mapping creation error: '' @ Error err)])
      | Inr mapping \<Rightarrow> (case LoadCL2Envs ParseFloat environ of
          Inl err \<Rightarrow> Inr (NewErrorList [ErrText (''mapping creation error: '' @ Error err)])
        | Inr envMapping \<Rightarrow> (case MergeMappings (AList.update ''Nodes'' (VInt nodes) mapping) envMapping of
            (_, Some err) \<Rightarrow> Inr (NewErrorList [ErrText (''mapping merging error: '' @ Error err)])
          | (merged, None) \<Rightarrow> Inl merged)))"

subsection \<open>The cache of files\<close>

fun raw_rank :: "raw_thread \<Rightarrow> nat" where
  "raw_rank (RawLookup _) = 2"
| "raw_rank (RawRecheck _) = 1"
| "raw_rank (RawDone _ _) = 0"

fun raw_path :: "raw_thread \<Rightarrow> string" where
  "raw_path (RawLookup p) = p"
| "raw_path (RawRecheck p) = p"
| "raw_path (RawDone p _) = p"

lemma raw_rank_0: "raw_rank th = 0 \<Longrightarrow> th = RawDone (raw_path th) (raw_result th)"
  by (cases th) simp_all

lemma raw_step_rank: "raw_rank (fst (raw_step env th s)) \<le> raw_rank th - 1"
  by (cases "(env, th, s)" rule: raw_step.cases) (auto split: option.split prod.split sum.split)

interpretation raw_threads: goroutines "raw_step env" raw_rank for env
  by unfold_locales (rule raw_step_rank)

lemma raw_step_path [simp]: "raw_path (fst (raw_step env th s)) = raw_path th"
  by (cases "(env, th, s)" rule: raw_step.cases) (auto split: option.split prod.split sum.split)

lemma raw_step_cache_grows:
  "map_of (binCache (fst s)) \<subseteq>\<^sub>m map_of (binCache (fst (snd (raw_step env th s))))"
  by (cases "(env, th, s)" rule: raw_step.cases) (auto simp: map_le_def split: option.split prod.split sum.split)

lemma raw_step_done_cached:
  assumes "fst (raw_step env th s) = RawDone p (Inr b)" and "\<And>q c. th \<noteq> RawDone q (Inr c)"
  shows "map_of (binCache (fst (snd (raw_step env th s)))) p = Some b"
  using assms by (cases "(env, th, s)" rule: raw_step.cases) (auto split: option.splits prod.splits sum.splits)

definition raw_inv :: "string list \<Rightarrow> (string \<rightharpoonup> string) \<Rightarrow> raw_thread list \<Rightarrow> ('t, 'w) provider \<Rightarrow> bool" where
  "raw_inv paths cache ths s \<longleftrightarrow> map raw_path ths = paths \<and> cache \<subseteq>\<^sub>m map_of (binCache (fst s))
     \<and> (\<forall>p b. RawDone p (Inr b) \<in> set ths \<longrightarrow> map_of (binCache (fst s)) p = Some b)"

lemma raw_inv_step:
  assumes "raw_inv paths cache ths s" and "i < length ths"
  shows "raw_inv paths cache (ths[i := fst (raw_step env (ths ! i) s)]) (snd (raw_step env (ths ! i) s))"
proof -
  let ?s' = "snd (raw_step env (ths ! i) s)"
  have grows: "map_of (binCache (fst s)) \<subseteq>\<^sub>m map_of (binCache (fst ?s'))" by (rule raw_step_cache_grows)
  have old: "map_of (binCache (fst ?s')) p = Some b" if "RawDone p (Inr b) \<in> set ths" for p b
  proof -
    have "map_of (binCache (fst s)) p = Some b" using that assms(1) by (simp add: raw_inv_def)
    then show ?thesis using grows by (metis domI map_le_def)
  qed
  have new: "map_of (binCache (fst ?s')) p = Some b" if d: "fst (raw_step env (ths ! i) s) = RawDone p (Inr b)" for p b
  proof (cases "\<exists>q c. ths ! i = RawDone q (Inr c)")
    case True
    then have "ths ! i = RawDone p (Inr b)" using d by auto
    then show ?thesis using old nth_mem [OF assms(2)] by metis
  next
    case False
    then show ?thesis using raw_step_done_cached [OF d] by blast
  qed
  have paths: "map raw_path (ths[i := fst (raw_step env (ths ! i) s)]) = paths"
    using assms by (simp add: raw_inv_def map_update) (metis list_update_id nth_map)
  have "map_of (binCache (fst ?s')) p = Some b"
    if "RawDone p (Inr b) \<in> set (ths[i := fst (raw_step env (ths ! i) s)])" for p b
    using that old new set_update_subset_insert [of ths i] by (metis insertE subsetD)
  then show ?thesis using paths assms(1) map_le_trans [OF _ grows] by (simp add: raw_inv_def)
qed

text \<open>
  C34. Any number of goroutines may ask a template provider for files at the same time, in any
  interleaving of their critical sections and while the files change: every call returns, all the
  calls that return the content of a path return the same content, it is the one in the cache at
  the end, and what was in the cache before is still there.
\<close>

theorem concurrent_getRaw_agree:
  assumes "wait_group (raw_step env) raw_rank sched (map RawLookup paths) (tp, w) = (ths, tp', w')"
  shows "ths = map (\<lambda>th. RawDone (raw_path th) (raw_result th)) ths \<and> map raw_path ths = paths
    \<and> (\<forall>p b. RawDone p (Inr b) \<in> set ths \<longrightarrow> map_of (binCache tp') p = Some b)
    \<and> (\<forall>p b c. RawDone p (Inr b) \<in> set ths \<and> RawDone p (Inr c) \<in> set ths \<longrightarrow> b = c)
    \<and> map_of (binCache tp) \<subseteq>\<^sub>m map_of (binCache tp')"
proof -
  have init: "raw_inv paths (map_of (binCache tp)) (map RawLookup paths) (tp, w)"
    by (auto simp: raw_inv_def comp_def)
  have inv: "raw_inv paths (map_of (binCache tp)) ths (tp', w')" and fin: "\<forall>th \<in> set ths. raw_rank th = 0"
    using raw_threads.wait_group_result [where P = "raw_inv paths (map_of (binCache tp))", OF assms init]
    by (auto intro: raw_inv_step)
  have "ths = map (\<lambda>th. RawDone (raw_path th) (raw_result th)) ths"
    using fin by (intro map_idI [symmetric]) (metis raw_rank_0)
  moreover have cached: "map_of (binCache tp') p = Some b" if "RawDone p (Inr b) \<in> set ths" for p b
    using that inv by (simp add: raw_inv_def)
  moreover have "b = c" if "RawDone p (Inr b) \<in> set ths" "RawDone p (Inr c) \<in> set ths" for p b c
    using cached [OF that(1)] cached [OF that(2)] by simp
  ultimately show ?thesis using inv unfolding raw_inv_def fst_conv by blast
qed

subsection \<open>Mappings\<close>

lemma MergeMappings_conflict:
  "distinct (map fst b) \<Longrightarrow>
     snd (MergeMappings a b) = None \<longleftrightarrow> (\<forall>k x y. map_of a k = Some x \<longrightarrow> map_of b k = Some y \<longrightarrow> deep_equal x y)"
proof (induction a b rule: MergeMappings.induct)
  case (2 a k bv b)
  have fresh: "map_of b k = None" using "2.prems" by (simp add: map_of_eq_None_iff)
  show ?case
  proof (cases "map_of a k")
    case None
    then show ?thesis using "2.IH"(1) "2.prems" fresh by auto
  next
    case (Some av)
    show ?thesis
    proof (cases "deep_equal av bv")
      case True
      then have "snd (MergeMappings a b) = None \<longleftrightarrow> (\<forall>k x y. map_of a k = Some x \<longrightarrow> map_of b k = Some y \<longrightarrow> deep_equal x y)"
        using "2.IH"(2) Some "2.prems" by simp
      then show ?thesis using Some True fresh by simp (metis option.distinct(1))
    qed (use Some in auto)
  qed
qed simp

lemma MergeMappings_lookup:
  "distinct (map fst b) \<Longrightarrow> snd (MergeMappings a b) = None \<Longrightarrow> map_of (fst (MergeMappings a b)) = map_of b ++ map_of a"
proof (induction a b rule: MergeMappings.induct)
  case (2 a k bv b)
  have fresh: "map_of b k = None" using "2.prems" by (simp add: map_of_eq_None_iff)
  show ?case
    using "2.IH" "2.prems" fresh
    by (auto simp: fun_eq_iff map_add_def split: option.splits if_splits)
qed simp

lemma overrides_loop_append:
  "overrides_loop R D m (ps @ qs) = (case overrides_loop R D m ps of Inl e \<Rightarrow> Inl e | Inr m' \<Rightarrow> overrides_loop R D m' qs)"
  by (induction ps arbitrary: m) (simp_all split: sum.split)

lemma LoadTestOverrides_append: "LoadTestOverrides R D ps ts = overrides_loop R D [] (ps @ ts)"
  by (simp add: LoadTestOverrides_def overrides_loop_append)

lemma overrides_loop_layers:
  assumes "\<forall>p \<in> set ps. \<exists>bin. R p = Inr bin \<and> D bin = Inr (file p) \<and> distinct (map fst (file p))"
  shows "\<exists>m'. overrides_loop R D m ps = Inr m' \<and> map_of m' = foldl (\<lambda>acc p. acc ++ map_of (file p)) (map_of m) ps"
  using assms
proof (induction ps arbitrary: m)
  case (Cons p ps)
  then have "updateMappingFromFile R D m p = Inr (CopyMap (file p) m)" "distinct (map fst (file p))"
    by (auto simp: updateMappingFromFile_def decodeInto_def)
  then show ?case using Cons.IH [of "CopyMap (file p) m"] Cons.prems by (simp add: CopyMap_map_of)
qed simp

definition env_key :: "string \<Rightarrow> string" where
  "env_key kv = takeWhile (\<lambda>c. c \<noteq> CHR ''='') kv"

definition cl2_env :: "(string \<Rightarrow> float64 option) \<Rightarrow> string list \<Rightarrow> string \<rightharpoonup> gval" where
  "cl2_env PF environ = foldl (\<lambda>m kv. m(env_key kv \<mapsto> unpackStringValue PF (drop (Suc (length (env_key kv))) kv)))
     Map.empty (filter (prefix ''CL2_'') environ)"

lemma drop_after_key: "CHR ''='' \<in> set kv \<Longrightarrow> tl (dropWhile (\<lambda>c. c \<noteq> CHR ''='') kv) = drop (Suc (length (env_key kv))) kv"
  by (simp add: env_key_def dropWhile_eq_drop drop_Suc tl_drop)

lemma envs_loop_ok:
  assumes "\<forall>kv \<in> set environ. prefix ''CL2_'' kv \<longrightarrow> CHR ''='' \<in> set kv" and "distinct (map fst m)"
  shows "\<exists>m'. envs_loop PF environ m = Inr m' \<and> distinct (map fst m')
    \<and> map_of m' = foldl (\<lambda>m kv. m(env_key kv \<mapsto> unpackStringValue PF (drop (Suc (length (env_key kv))) kv)))
        (map_of m) (filter (prefix ''CL2_'') environ)"
  using assms
proof (induction environ arbitrary: m)
  case (Cons kv environ)
  let ?m = "AList.update (env_key kv) (unpackStringValue PF (drop (Suc (length (env_key kv))) kv)) m"
  have step: "envs_loop PF (kv # environ) m = envs_loop PF environ (if prefix ''CL2_'' kv then ?m else m)"
    using Cons.prems(1) drop_after_key [of kv] by (auto simp: env_key_def)
  have upd: "map_of ?m = (map_of m)(env_key kv \<mapsto> unpackStringValue PF (drop (Suc (length (env_key kv))) kv))"
    by (simp add: fun_eq_iff)
  show ?case
  proof (cases "prefix ''CL2_'' kv")
    case True
    then show ?thesis using Cons.IH [of ?m] Cons.prems step upd by (simp add: distinct_update)
  next
    case False
    then show ?thesis using Cons.IH [of m] Cons.prems step by simp
  qed
qed simp

lemma cl2_key: "prefix ''CL2_'' kv \<Longrightarrow> env_key kv \<noteq> ''Nodes''"
  by (auto simp: prefix_def env_key_def)

lemma cl2_env_Nodes: "cl2_env PF environ ''Nodes'' = None"
proof -
  have "foldl (\<lambda>m kv. m(env_key kv \<mapsto> f kv)) m xs ''Nodes'' = m ''Nodes''"
    if "\<forall>kv \<in> set xs. env_key kv \<noteq> ''Nodes''" for f m xs
    using that by (induction xs arbitrary: m) auto
  from this [of "filter (prefix ''CL2_'') environ"] show ?thesis using cl2_key by (simp add: cl2_env_def)
qed

definition override_layers :: "(string \<Rightarrow> params) \<Rightarrow> string list \<Rightarrow> int \<Rightarrow> string \<rightharpoonup> gval" where
  "override_layers file paths nodes = (foldl (\<lambda>m p. m ++ map_of (file p)) Map.empty paths)(''Nodes'' \<mapsto> VInt nodes)"

text \<open>
  C35. The variables of a test are given in layers. When every override file can be read and decoded
  and every \<open>CL2_\<close> variable of the environment has a value, a later override file supersedes an
  earlier one, the test's own files the global ones, and \<open>Nodes\<close> is the size of the cluster
  whatever the files say. The environment adds its variables. A variable that both the files and
  the environment define with different values or types is an error, otherwise the mapping is
  exactly the union, for every order in which the maps are traversed.
\<close>

theorem GetMapping_layers:
  assumes "\<forall>p \<in> set (ps @ ts). \<exists>bin. R p = Inr bin \<and> D bin = Inr (file p) \<and> distinct (map fst (file p))"
    and "\<forall>kv \<in> set environ. prefix ''CL2_'' kv \<longrightarrow> CHR ''='' \<in> set kv"
  shows "if \<exists>k x y. override_layers file (ps @ ts) nodes k = Some x \<and> cl2_env PF environ k = Some y \<and> \<not> deep_equal x y
    then \<exists>e. GetMapping R D PF environ ps nodes ts = Inr (NewErrorList [e])
    else \<exists>m. GetMapping R D PF environ ps nodes ts = Inl m \<and> map_of m = cl2_env PF environ ++ override_layers file (ps @ ts) nodes
           \<and> map_of m ''Nodes'' = Some (VInt nodes)"
proof -
  obtain m1 where m1: "LoadTestOverrides R D ps ts = Inr m1"
      "map_of m1 = foldl (\<lambda>m p. m ++ map_of (file p)) Map.empty (ps @ ts)"
    using overrides_loop_layers [OF assms(1), of "[]"] by (elim exE conjE) (simp add: LoadTestOverrides_append)
  obtain m2 where m2: "LoadCL2Envs PF environ = Inr m2" "distinct (map fst m2)" "map_of m2 = cl2_env PF environ"
    using envs_loop_ok [OF assms(2), of "[]" PF, simplified] by (elim exE conjE) (simp add: LoadCL2Envs_def cl2_env_def)
  let ?a = "AList.update ''Nodes'' (VInt nodes) m1"
  have a: "map_of ?a = override_layers file (ps @ ts) nodes" by (simp add: override_layers_def m1(2) fun_eq_iff)
  obtain r e where r: "MergeMappings ?a m2 = (r, e)" by (cases "MergeMappings ?a m2")
  have conflict: "e = None \<longleftrightarrow> (\<forall>k x y. override_layers file (ps @ ts) nodes k = Some x \<longrightarrow> cl2_env PF environ k = Some y \<longrightarrow> deep_equal x y)"
    using MergeMappings_conflict [OF m2(2), of ?a] r a m2(3) by simp
  show ?thesis
  proof (cases e)
    case None
    have "map_of r = cl2_env PF environ ++ override_layers file (ps @ ts) nodes"
      using MergeMappings_lookup [OF m2(2), of ?a] r None a m2(3) by simp
    then show ?thesis using conflict None r m1(1) m2(1) by (auto simp: GetMapping_def override_layers_def map_add_def cl2_env_Nodes)
  next
    case (Some err)
    then show ?thesis using conflict r m1(1) m2(1) by (auto simp: GetMapping_def)
  qed
qed

text \<open>Two goroutines ask for the same file, which changes after the first read, and a third for a missing one.\<close>

definition changing_env :: "(unit, nat) provider_env" where
  "changing_env = \<lparr>p_ReadFile = (\<lambda>p n. (Suc n, if p = ''a'' then Inr (utoa n) else Inl (ErrText ''missing''))),
     p_Parse = (\<lambda>_. Inr ()), p_Execute = (\<lambda>_ _. Inr []), p_Decode = (\<lambda>_. Inl (ErrText []))\<rparr>"

theorem concurrent_getRaw_agree_witness:
  "\<exists>ths tp' w'. wait_group (raw_step changing_env) raw_rank [0, 1, 1, 0] (map RawLookup [''a'', ''a'', ''b'']) (NewTemplateProvider, 7) = (ths, tp', w')
     \<and> map raw_path ths = [''a'', ''a'', ''b''] \<and> raw_result (ths ! 0) = raw_result (ths ! 1) \<and> raw_result (ths ! 0) = Inr ''7''"
proof -
  let ?r = "wait_group (raw_step changing_env) raw_rank [0, 1, 1, 0] (map RawLookup [''a'', ''a'', ''b'']) (NewTemplateProvider, 7)"
  obtain ths tp' w' where r: "?r = (ths, tp', w')" by (cases ?r)
  have run: "fst ?r = [RawDone ''a'' (Inr ''7''), RawDone ''a'' (Inr ''7''), RawDone ''b'' (Inl (ErrText ''reading error: missing''))]"
    by code_simp
  then show ?thesis using concurrent_getRaw_agree [OF r] r by simp
qed

text \<open>A global and a test override of \<open>x\<close>, and a new variable in the environment.\<close>

definition sample_overrides :: "string \<Rightarrow> params" where
  "sample_overrides p = (if p = ''test'' then [(''x'', VInt64 2)] else [(''x'', VInt64 1), (''Nodes'', VInt 7)])"

theorem GetMapping_layers_witness:
  "\<exists>m. GetMapping Inr (\<lambda>s. Inr (sample_overrides s)) (\<lambda>_. None) [''HOME=/'', ''CL2_Y=4''] [''global''] 100 [''test''] = Inl m
     \<and> map_of m ''x'' = Some (VInt64 2) \<and> map_of m ''CL2_Y'' = Some (VInt64 4) \<and> map_of m ''Nodes'' = Some (VInt 100)"
proof -
  let ?base = "override_layers sample_overrides [''global'', ''test''] 100"
  have env: "cl2_env (\<lambda>_. None) [''HOME=/'', ''CL2_Y=4''] = [''CL2_Y'' \<mapsto> VInt64 4]"
  proof -
    have "unpackStringValue (\<lambda>_. None) ''4'' = VInt64 4" by code_simp
    then show ?thesis by (simp add: cl2_env_def env_key_def prefix_def)
  qed
  have files: "distinct (map fst (sample_overrides p))" for p by (simp add: sample_overrides_def)
  have base: "?base = [''x'' \<mapsto> VInt64 2, ''Nodes'' \<mapsto> VInt 100]"
    by (auto simp: override_layers_def sample_overrides_def fun_eq_iff map_add_def)
  have "\<exists>m. GetMapping Inr (\<lambda>s. Inr (sample_overrides s)) (\<lambda>_. None) [''HOME=/'', ''CL2_Y=4''] [''global''] 100 [''test''] = Inl m
      \<and> map_of m = cl2_env (\<lambda>_. None) [''HOME=/'', ''CL2_Y=4''] ++ ?base"
    using GetMapping_layers [of "[''global'']" "[''test'']" Inr "\<lambda>s. Inr (sample_overrides s)" sample_overrides
        "[''HOME=/'', ''CL2_Y=4'']" 100 "\<lambda>_. None"]
    by (simp add: env base files split: if_splits)
  then show ?thesis by (elim exE conjE) (simp add: env base)
qed

end
