(* ===== verification/Template_Functions.thy ===== *)
theory Template_Functions
  imports Params
begin

text \<open>
  \<open>pkg/config/template_functions.go\<close>: the functions a test configuration may call. An argument
  \<open>interface{}\<close> is a \<open>gval\<close>; the result \<open>None\<close> is a panic. All integer functions compute in
  \<open>float64\<close> and convert at the end, which is exact below \<open>2 ^ 53\<close>. The parser of floating-point
  literals, files, the YAML encoder and the hash of \<open>randDataWithSeed\<close> are parameters; the draws of
  a random source are a sequence of numbers, reduced to the range that \<open>Intn\<close> is asked for.
\<close>

subsection \<open>Further operations on \<open>float64\<close>\<close>

fun f64_add :: "float64 \<Rightarrow> float64 \<Rightarrow> float64" where
  "f64_add (Fin x) (Fin y) = f64_round (x + y)"
| "f64_add NaN _ = NaN"
| "f64_add _ NaN = NaN"
| "f64_add (Fin _) y = y"
| "f64_add x (Fin _) = x"
| "f64_add x y = (if x = y then x else NaN)"

definition f64_sub :: "float64 \<Rightarrow> float64 \<Rightarrow> float64" where
  "f64_sub x y = f64_add x (f64_neg y)"

text \<open>\<open>math.Max\<close> and \<open>math.Min\<close> with their special cases in the order of the library.\<close>

definition math_Max :: "float64 \<Rightarrow> float64 \<Rightarrow> float64" where
  "math_Max x y = (if x = PosInf \<or> y = PosInf then PosInf else if x = NaN \<or> y = NaN then NaN
     else if f64_le x y then y else x)"

definition math_Min :: "float64 \<Rightarrow> float64 \<Rightarrow> float64" where
  "math_Min x y = (if x = NegInf \<or> y = NegInf then NegInf else if x = NaN \<or> y = NaN then NaN
     else if f64_le x y then x else y)"

subsection \<open>The functions\<close>

record template_env =
  strconv_ParseFloat :: "string \<Rightarrow> float64 option"
  IsAbs :: "string \<Rightarrow> bool"
  AbsDirArgs0 :: "string result"
  filepath_Join :: "string \<Rightarrow> string \<Rightarrow> string"
  ExpandEnv :: "string \<Rightarrow> string"
  os_ReadFile :: "string \<Rightarrow> string result"
  fs_ReadFile :: "string \<Rightarrow> string result"
  yaml_Marshal :: "string \<Rightarrow> string \<times> go_error option"
  seeded_source :: "string \<Rightarrow> nat \<Rightarrow> nat"

text \<open>
  The numbers a template can hand to these functions: the literals of the template language and of
  JSON and YAML are \<open>float64\<close>, \<open>int64\<close> and \<open>int\<close>. A value of type \<open>int32\<close> that the code puts into a mapping
  is a \<open>VInt\<close> of the model; the other cases of the type switch have no values in \<open>gval\<close>.
\<close>

definition toFloat64 :: "template_env \<Rightarrow> gval \<Rightarrow> float64 option" where
  "toFloat64 env val = (case val of
      VFloat f \<Rightarrow> Some f
    | VInt64 i \<Rightarrow> Some (f64_of_int i)
    | VInt i \<Rightarrow> Some (f64_of_int i)
    | VString s \<Rightarrow> strconv_ParseFloat env s
    | _ \<Rightarrow> None)"

definition toInt :: "template_env \<Rightarrow> gval \<Rightarrow> int option" where
  "toInt env val = map_option f64_to_int (toFloat64 env val)"

text \<open>\<open>make([]int, n)\<close> panics for a negative length.\<close>

definition sliceOfZeros :: "template_env \<Rightarrow> gval \<Rightarrow> int list option" where
  "sliceOfZeros env sz = (case toInt env sz of
      None \<Rightarrow> None | Some n \<Rightarrow> if n < 0 then None else Some (replicate (nat n) 0))"

definition seq_fn :: "template_env \<Rightarrow> gval \<Rightarrow> int list option" where
  "seq_fn env sz = sliceOfZeros env sz"

definition loop :: "template_env \<Rightarrow> gval \<Rightarrow> int list option" where
  "loop env sz = (case toInt env sz of
      None \<Rightarrow> None | Some n \<Rightarrow> if n < 0 then None else Some (map int [0..<nat n]))"

text \<open>\<open>rand.Intn(n)\<close> panics unless \<open>n\<close> is positive.\<close>

definition rand_Intn :: "(nat \<Rightarrow> nat) \<Rightarrow> nat \<Rightarrow> int \<Rightarrow> int option" where
  "rand_Intn src i n = (if n \<le> 0 then None else Some (int (src i) mod n))"

definition randString :: "(nat \<Rightarrow> nat) \<Rightarrow> int \<Rightarrow> string option" where
  "randString src len =
     (let alphabet = ''0123456789abcdefghijklmnopqrstuvwxyzABCDEFGHIJKLMNOPQRSTUVWXYZ''
      in if len < 0 then None else Some (map (\<lambda>i. alphabet ! (src i mod length alphabet)) [0..<nat len]))"

definition randData :: "template_env \<Rightarrow> (nat \<Rightarrow> nat) \<Rightarrow> gval \<Rightarrow> string option" where
  "randData env src i = (case toInt env i of None \<Rightarrow> None | Some typedI \<Rightarrow> randString src typedI)"

definition randDataWithSeed :: "template_env \<Rightarrow> gval \<Rightarrow> gval \<Rightarrow> string option" where
  "randDataWithSeed env i j = (case toInt env i of
      None \<Rightarrow> None
    | Some typedI \<Rightarrow> if typedI = 0 then Some []
        else (case j of VString typedJ \<Rightarrow> randString (seeded_source env typedJ) typedI | _ \<Rightarrow> None))"

definition randInt :: "template_env \<Rightarrow> (nat \<Rightarrow> nat) \<Rightarrow> gval \<Rightarrow> int option" where
  "randInt env src i = (case toInt env i of None \<Rightarrow> None | Some typedI \<Rightarrow> rand_Intn src 0 (wrap64 (typedI + 1)))"

definition randIntRange :: "template_env \<Rightarrow> (nat \<Rightarrow> nat) \<Rightarrow> gval \<Rightarrow> gval \<Rightarrow> int option" where
  "randIntRange env src i j = (case (toInt env i, toInt env j) of
      (Some typedI, Some typedJ) \<Rightarrow>
        if typedJ \<le> typedI then Some typedI
        else map_option (\<lambda>r. typedI + r) (rand_Intn src 0 (wrap64 (typedJ - typedI + 1)))
    | _ \<Rightarrow> None)"

fun add_loop :: "template_env \<Rightarrow> float64 \<Rightarrow> gval list \<Rightarrow> float64 option" where
  "add_loop env acc [] = Some acc"
| "add_loop env acc (number # numbers) = (case toFloat64 env number of
      None \<Rightarrow> None | Some f \<Rightarrow> add_loop env (f64_add acc f) numbers)"

definition addFloat :: "template_env \<Rightarrow> gval list \<Rightarrow> float64 option" where
  "addFloat env numbers = add_loop env (Fin 0) numbers"

definition subtractFloat :: "template_env \<Rightarrow> gval \<Rightarrow> gval \<Rightarrow> float64 option" where
  "subtractFloat env i j = (case (toFloat64 env i, toFloat64 env j) of
      (Some typedI, Some typedJ) \<Rightarrow> Some (f64_sub typedI typedJ) | _ \<Rightarrow> None)"

fun multiply_loop :: "template_env \<Rightarrow> float64 \<Rightarrow> gval list \<Rightarrow> float64 option" where
  "multiply_loop env acc [] = Some acc"
| "multiply_loop env acc (number # numbers) = (case toFloat64 env number of
      None \<Rightarrow> None | Some f \<Rightarrow> multiply_loop env (f64_mul acc f) numbers)"

definition multiplyFloat :: "template_env \<Rightarrow> gval list \<Rightarrow> float64 option" where
  "multiplyFloat env numbers = multiply_loop env (Fin 1) numbers"

definition divideFloat :: "template_env \<Rightarrow> gval \<Rightarrow> gval \<Rightarrow> float64 option" where
  "divideFloat env i j = (case (toFloat64 env i, toFloat64 env j) of
      (Some typedI, Some typedJ) \<Rightarrow> if typedJ = Fin 0 then None else Some (f64_div typedI typedJ) | _ \<Rightarrow> None)"

definition addInt :: "template_env \<Rightarrow> gval list \<Rightarrow> int option" where
  "addInt env numbers = map_option f64_to_int (addFloat env numbers)"

definition subtractInt :: "template_env \<Rightarrow> gval \<Rightarrow> gval \<Rightarrow> int option" where
  "subtractInt env i j = map_option f64_to_int (subtractFloat env i j)"

definition multiplyInt :: "template_env \<Rightarrow> gval list \<Rightarrow> int option" where
  "multiplyInt env numbers = map_option f64_to_int (multiplyFloat env numbers)"

definition divideInt :: "template_env \<Rightarrow> gval \<Rightarrow> gval \<Rightarrow> int option" where
  "divideInt env i j = map_option f64_to_int (divideFloat env i j)"

fun extremum_loop :: "(float64 \<Rightarrow> float64 \<Rightarrow> float64) \<Rightarrow> template_env \<Rightarrow> float64 \<Rightarrow> gval list \<Rightarrow> float64 option" where
  "extremum_loop m env result [] = Some result"
| "extremum_loop m env result (number # numbers) = (case toFloat64 env number of
      None \<Rightarrow> None | Some f \<Rightarrow> extremum_loop m env (m result f) numbers)"

definition maxFloat :: "template_env \<Rightarrow> gval list \<Rightarrow> float64 option" where
  "maxFloat env numbers = (case numbers of [] \<Rightarrow> None
     | x # _ \<Rightarrow> (case toFloat64 env x of None \<Rightarrow> None | Some result \<Rightarrow> extremum_loop math_Max env result numbers))"

definition minFloat :: "template_env \<Rightarrow> gval list \<Rightarrow> float64 option" where
  "minFloat env numbers = (case numbers of [] \<Rightarrow> None
     | x # _ \<Rightarrow> (case toFloat64 env x of None \<Rightarrow> None | Some result \<Rightarrow> extremum_loop math_Min env result numbers))"

definition maxInt :: "template_env \<Rightarrow> gval list \<Rightarrow> int option" where
  "maxInt env numbers = map_option f64_to_int (maxFloat env numbers)"

definition minInt :: "template_env \<Rightarrow> gval list \<Rightarrow> int option" where
  "minInt env numbers = map_option f64_to_int (minFloat env numbers)"

definition mod_fn :: "template_env \<Rightarrow> gval \<Rightarrow> gval \<Rightarrow> int option" where
  "mod_fn env a b = (case (toInt env a, toInt env b) of
      (Some x, Some y) \<Rightarrow> if y = 0 then None else Some (go_mod x y) | _ \<Rightarrow> None)"

definition ceil :: "template_env \<Rightarrow> gval \<Rightarrow> float64 option" where
  "ceil env i = map_option f64_ceil (toFloat64 env i)"

definition defaultParam :: "gval \<Rightarrow> gval \<Rightarrow> gval" where
  "defaultParam param defaultValue = (if param = VNil then defaultValue else param)"

definition incorrect_type :: "gval \<Rightarrow> string \<Rightarrow> go_error" where
  "incorrect_type v want = ErrText (''incorrect argument type: got: '' @ go_type v @ '' want: '' @ want)"

definition includeFile :: "template_env \<Rightarrow> gval \<Rightarrow> string result" where
  "includeFile env file = (case file of
      VString fileStr \<Rightarrow>
        (let rooted = (if \<not> IsAbs env fileStr
              then (case AbsDirArgs0 env of Inr dir \<Rightarrow> filepath_Join env dir fileStr | Inl _ \<Rightarrow> fileStr) else fileStr)
         in case os_ReadFile env (ExpandEnv env rooted) of
              Inl err \<Rightarrow> Inl (ErrText (''unable to read file: '' @ Error err))
            | Inr data \<Rightarrow> Inr data)
    | v \<Rightarrow> Inl (incorrect_type v ''string''))"

definition includeEmbedFile :: "template_env \<Rightarrow> gval \<Rightarrow> string result" where
  "includeEmbedFile env file = (case file of
      VString fileStr \<Rightarrow> (case fs_ReadFile env fileStr of
          Inl err \<Rightarrow> Inl (ErrText (''unable to read file: '' @ Error err))
        | Inr data \<Rightarrow> Inr data)
    | v \<Rightarrow> Inl (incorrect_type v ''string''))"

text \<open>\<open>strings.Repeat\<close> panics for a negative count; a line break of the YAML text is followed by the tabs.\<close>

definition yamlQuote :: "template_env \<Rightarrow> gval \<Rightarrow> gval \<Rightarrow> (string \<times> go_error option) option" where
  "yamlQuote env strInt tabsInt = (case strInt of
      VString str \<Rightarrow> (case tabsInt of
          VInt tabs \<Rightarrow> if tabs < 0 then None
            else (let tabsStr = concat (replicate (nat tabs) ''  '');
                      (b, err) = yaml_Marshal env str
                  in Some (concat (map (\<lambda>c. if c = CHR 0x0A then CHR 0x0A # tabsStr else [c]) b), err))
        | v \<Rightarrow> Some ([], Some (incorrect_type v ''int'')))
    | v \<Rightarrow> Some ([], Some (incorrect_type v ''string'')))"

definition ifThenElse :: "gval \<Rightarrow> gval \<Rightarrow> gval \<Rightarrow> gval result" where
  "ifThenElse conditionVal thenVal elseVal = (case conditionVal of
      VBool condition \<Rightarrow> if condition then Inr thenVal else Inr elseVal
    | v \<Rightarrow> Inl (incorrect_type v ''bool''))"

definition stringSplit :: "string \<Rightarrow> string list" where
  "stringSplit s = str_split CHR '','' s"

definition concat_fn :: "string list \<Rightarrow> string" where
  "concat_fn items = foldl (@) [] items"


subsection \<open>Integer arithmetic through \<open>float64\<close>\<close>

lemma f64_round_exact: "\<bar>n\<bar> < 2 ^ 53 \<Longrightarrow> f64_round (of_int n) = Fin (of_int n)"
  using f64_of_int_exact by (simp add: f64_of_int_def)

lemma f64_to_int_exact: "\<bar>n\<bar> < 2 ^ 53 \<Longrightarrow> f64_to_int (Fin (of_int n)) = n"
  by (simp add: rat_trunc_def Let_def abs_less_iff)

lemma toFloat64_int: "\<bar>i\<bar> < 2 ^ 53 \<Longrightarrow> toFloat64 env (VInt i) = Some (Fin (of_int i))"
  by (simp add: toFloat64_def f64_of_int_exact)

lemma add_loop_exact:
  "\<bar>acc\<bar> < 2 ^ 53 \<Longrightarrow> \<forall>i \<in> set is. \<bar>i\<bar> < 2 ^ 53 \<Longrightarrow> \<forall>k \<le> length is. \<bar>acc + sum_list (take k is)\<bar> < 2 ^ 53 \<Longrightarrow>
     add_loop env (Fin (of_int acc)) (map VInt is) = Some (Fin (of_int (acc + sum_list is)))"
proof (induction "is" arbitrary: acc)
  case (Cons i "is")
  have "\<bar>acc + i\<bar> < 2 ^ 53" using Cons.prems(3) by (auto dest: spec [of _ 1])
  then have "f64_add (Fin (of_int acc)) (Fin (of_int i)) = Fin (of_int (acc + i))"
    using f64_round_exact [of "acc + i"] by simp
  moreover have "\<forall>k \<le> length is. \<bar>(acc + i) + sum_list (take k is)\<bar> < 2 ^ 53"
    using Cons.prems(3) by (auto simp: add.assoc dest: spec [of _ "Suc _"])
  ultimately show ?case
    using Cons.IH [of "acc + i"] Cons.prems(2) \<open>\<bar>acc + i\<bar> < 2 ^ 53\<close> by (simp add: toFloat64_int add.assoc)
qed simp

text \<open>Rounding a quotient of integers below \<open>2 ^ 53\<close> never reaches the next integer.\<close>

lemma round_half_even_minus: "round_half_even (- y) = - round_half_even y"
proof (cases "y = of_int \<lfloor>y\<rfloor>")
  case True
  then obtain n where "y = of_int n" by blast
  then show ?thesis using round_half_even_of_int [of "- n"] by simp
next
  case False
  then have "\<lceil>y\<rceil> = \<lfloor>y\<rfloor> + 1" by (simp add: ceiling_altdef)
  then have f: "\<lfloor>- y\<rfloor> = - \<lfloor>y\<rfloor> - 1" by (simp add: floor_minus)
  define f r where "f = \<lfloor>y\<rfloor>" and "r = y - of_int f"
  have "- y - of_int \<lfloor>- y\<rfloor> = 1 - r" using f by (simp add: f_def r_def)
  then show ?thesis
    using f unfolding round_half_even_def Let_def f_def [symmetric] r_def [symmetric] by (auto simp: f_def)
qed

lemma f64_nearest_minus: "f64_nearest (- x) = - f64_nearest x"
  using round_half_even_minus [of "x / f64_ulp x"] by (simp add: f64_nearest_def f64_ulp_def)

lemma f64_nearest_quotient:
  assumes "0 < a" and "a < 2 ^ 53" and "0 < b" and "b < 2 ^ 53"
  shows "\<lfloor>f64_nearest (of_int a / of_int b)\<rfloor> = a div b"
proof (cases "b dvd a")
  case True
  then obtain c where c: "a = b * c" by blast
  then have "0 < c" using assms zero_less_mult_pos by blast
  moreover have "c \<le> a" using c assms(3) \<open>0 < c\<close> by simp
  ultimately have "\<bar>c\<bar> < 2 ^ 53" using assms(2) by simp
  then show ?thesis using f64_nearest_of_int [of c] c assms(3) by simp
next
  case False
  let ?x = "of_int a / of_int b :: rat"
  define q r where "q = a div b" and "r = a mod b"
  have a: "a = q * b + r" by (simp add: q_def r_def)
  have r: "1 \<le> r" "r \<le> b - 1"
    using False assms(3) pos_mod_sign [of b a] pos_mod_bound [of b a] unfolding r_def dvd_eq_mod_eq_0 by linarith+
  have b: "(0 :: rat) < of_int b" using assms(3) by simp
  have x: "?x = of_int q + of_int r / of_int b" using b by (simp add: a add_divide_distrib)
  have "\<bar>f64_nearest ?x - ?x\<bar> \<le> ?x / 2 ^ 53"
  proof (rule f64_nearest_error)
    have "(2 :: rat) powi (- 1022) \<le> 1 / of_int b"
    proof -
      have "(2 :: rat) powi (- 1022) \<le> 2 powi (- 53)" by (intro power_int_increasing) simp_all
      also have "\<dots> = 1 / 2 ^ 53" by (simp add: power_int_minus)
      also have "\<dots> \<le> 1 / of_int b" using rat_of_int_pow_less [OF assms(4)] b by (intro divide_left_mono) simp_all
      finally show ?thesis .
    qed
    also have "\<dots> \<le> ?x" using b assms(1) by (simp add: divide_right_mono)
    finally show "2 powi (- 1022) \<le> ?x" .
  qed
  also have "?x / 2 ^ 53 < 1 / of_int b"
    using rat_of_int_pow_less [OF assms(2)] b by (simp add: divide_less_eq)
  finally have "\<bar>f64_nearest ?x - ?x\<bar> < 1 / of_int b" .
  moreover have "1 / of_int b \<le> (of_int r / of_int b :: rat)" "of_int r / of_int b \<le> 1 - 1 / (of_int b :: rat)"
  proof -
    have "(of_int 1 :: rat) \<le> of_int r" "(of_int r :: rat) \<le> of_int (b - 1)" using r by (simp_all only: of_int_le_iff)
    from divide_right_mono [OF this(1), of "of_int b"] divide_right_mono [OF this(2), of "of_int b"] b
    show "1 / of_int b \<le> (of_int r / of_int b :: rat)" "of_int r / of_int b \<le> 1 - 1 / (of_int b :: rat)"
      by (simp_all add: diff_divide_distrib)
  qed
  ultimately have "of_int q \<le> f64_nearest ?x" "f64_nearest ?x < of_int q + 1" using x by linarith+
  then show ?thesis by (simp add: floor_eq_iff q_def)
qed


lemma f64_to_int_small:
  assumes "0 \<le> v" and "v < 2 ^ 53"
  shows "f64_to_int (Fin v) = \<lfloor>v\<rfloor>" "f64_to_int (Fin (- v)) = - \<lfloor>v\<rfloor>"
proof -
  define n where "n = \<lfloor>v\<rfloor>"
  have "0 \<le> n" "n < 2 ^ 53" using assms by (simp_all add: floor_less_iff n_def)
  then have "- (2 ^ 63) \<le> n" "n < 2 ^ 63" "- (2 ^ 63) \<le> - n" "- n < 2 ^ 63" by simp_all
  note b = this [unfolded n_def]
  have "rat_trunc v = \<lfloor>v\<rfloor>" "rat_trunc (- v) = - \<lfloor>v\<rfloor>" using assms(1) by (auto simp: rat_trunc_def ceiling_minus)
  with b show "f64_to_int (Fin v) = \<lfloor>v\<rfloor>" "f64_to_int (Fin (- v)) = - \<lfloor>v\<rfloor>"
    by (simp_all only: f64_to_int.simps Let_def simp_thms if_True)
qed

lemma f64_round_at:
  assumes "f64_nearest x = v" and "\<bar>v\<bar> < 2 ^ 54"
  shows "f64_round x = Fin v"
proof -
  have "(2 ^ 54 :: rat) < 2 ^ 1024" by (intro power_strict_increasing) simp_all
  with assms(2) have "\<not> 2 ^ 1024 \<le> v" "\<not> v \<le> - (2 ^ 1024)" by linarith+
  then show ?thesis by (simp only: f64_round_def Let_def assms(1) if_False)
qed

lemma f64_to_int_quotient:
  assumes "\<bar>a\<bar> < 2 ^ 53" and "\<bar>b\<bar> < 2 ^ 53" and "b \<noteq> 0"
  shows "f64_to_int (f64_round (of_int a / of_int b)) = go_div a b"
proof (cases "a = 0")
  case True
  then show ?thesis by (simp add: f64_round_def f64_nearest_def go_div_def rat_trunc_def)
next
  case False
  let ?x = "of_int \<bar>a\<bar> / of_int \<bar>b\<bar> :: rat"
  define v where "v = f64_nearest ?x"
  have fl: "\<lfloor>v\<rfloor> = \<bar>a\<bar> div \<bar>b\<bar>"
    using f64_nearest_quotient [of "\<bar>a\<bar>" "\<bar>b\<bar>"] assms False by (simp add: v_def)
  have "\<bar>a\<bar> div \<bar>b\<bar> \<le> \<bar>a\<bar>" using zdiv_mono2 [of "\<bar>a\<bar>" 1 "\<bar>b\<bar>"] assms(3) by simp
  then have "0 \<le> \<lfloor>v\<rfloor>" "\<lfloor>v\<rfloor> < 2 ^ 53" using fl assms(1,3) by (simp_all add: pos_imp_zdiv_nonneg_iff)
  then have v: "0 \<le> v" "v < 2 ^ 53" by (simp_all add: floor_less_iff)
  have near: "f64_round ?x = Fin v" "f64_round (- ?x) = Fin (- v)"
    using v by (auto intro!: f64_round_at simp: f64_nearest_minus v_def)
  show ?thesis
  proof (cases "(0 < a) = (0 < b)")
    case True
    then have "of_int a / of_int b = ?x" "sgn a * sgn b = 1" using False assms(3) by (auto simp: sgn_if abs_if)
    then show ?thesis by (simp only: near f64_to_int_small [OF v] fl go_div_def mult_1)
  next
    case opposite: False
    then have "of_int a / of_int b = - ?x" "sgn a * sgn b = - 1" using False assms(3) by (auto simp: sgn_if abs_if)
    then show ?thesis by (simp only: near f64_to_int_small [OF v] fl go_div_def mult_minus1)
  qed
qed

text \<open>At \<open>2 ^ 53\<close> the distance of two numbers is 2, and the tie goes to the even one.\<close>

lemma addInt_2_53: "addInt env [VInt (2 ^ 53), VInt 1] = Some (2 ^ 53)"
proof -
  have log: "ilog2 9007199254740992 = 53" "ilog2 9007199254740993 = 53" by code_simp+
  have r: "round_half_even 4503599627370496 = 4503599627370496" "round_half_even (9007199254740993 / 2) = 4503599627370496"
    by code_simp+
  have n: "f64_nearest 9007199254740992 = 9007199254740992" "f64_nearest 9007199254740993 = 9007199254740992"
    by (simp_all add: f64_nearest_def f64_ulp_def log r)
  have "(2 ^ 53 :: rat) < 2 ^ 1024" by (intro power_strict_increasing) simp_all
  then have "f64_round 9007199254740992 = Fin 9007199254740992" "f64_round 9007199254740993 = Fin 9007199254740992"
    using f64_round_at [of 9007199254740992 9007199254740992] f64_round_at [of 9007199254740993 9007199254740992] n by simp_all
  then show ?thesis
    using f64_of_int_exact [of 1] by (simp add: addInt_def addFloat_def toFloat64_def f64_of_int_def rat_trunc_def)
qed

text \<open>
  C36. The integer functions of templates are exact on numbers below \<open>2 ^ 53\<close>, although they compute
  in \<open>float64\<close>: \<open>AddInt\<close> is the sum when the partial sums stay below the bound, \<open>SubtractInt\<close> and
  \<open>MultiplyInt\<close> the difference and the product when these do, \<open>DivideInt\<close> is Go's truncating
  division and \<open>Mod\<close> its remainder; both panic on zero. The bound is sharp: \<open>AddInt\<close> of \<open>2 ^ 53\<close> and
  1 is \<open>2 ^ 53\<close>.
\<close>

theorem template_integer_arithmetic:
  assumes "\<forall>i \<in> {a, b}. \<bar>i\<bar> < 2 ^ 53"
    and "\<forall>i \<in> set is. \<bar>i\<bar> < 2 ^ 53" and "\<forall>k \<le> length is. \<bar>sum_list (take k is)\<bar> < 2 ^ 53"
  shows "addInt env (map VInt is) = Some (sum_list is)
    \<and> (\<bar>a - b\<bar> < 2 ^ 53 \<longrightarrow> subtractInt env (VInt a) (VInt b) = Some (a - b))
    \<and> (\<bar>a * b\<bar> < 2 ^ 53 \<longrightarrow> multiplyInt env [VInt a, VInt b] = Some (a * b))
    \<and> divideInt env (VInt a) (VInt b) = (if b = 0 then None else Some (go_div a b))
    \<and> mod_fn env (VInt a) (VInt b) = (if b = 0 then None else Some (go_mod a b))
    \<and> addInt env [VInt (2 ^ 53), VInt 1] = Some (2 ^ 53)"
proof -
  have ab: "toFloat64 env (VInt a) = Some (Fin (of_int a))" "toFloat64 env (VInt b) = Some (Fin (of_int b))"
    using assms(1) by (simp_all add: toFloat64_int)
  have "addInt env (map VInt is) = Some (sum_list is)"
    using add_loop_exact [of 0 "is" env] assms(2,3) f64_to_int_exact [of "sum_list is"] spec [OF assms(3), of "length is"]
    by (simp add: addInt_def addFloat_def)
  moreover have "\<bar>a - b\<bar> < 2 ^ 53 \<longrightarrow> subtractInt env (VInt a) (VInt b) = Some (a - b)"
    using f64_round_exact [of "a - b"] f64_to_int_exact [of "a - b"]
    by (simp add: subtractInt_def subtractFloat_def ab f64_sub_def)
  moreover have "\<bar>a * b\<bar> < 2 ^ 53 \<longrightarrow> multiplyInt env [VInt a, VInt b] = Some (a * b)"
    using f64_round_exact [of "a * b"] f64_to_int_exact [of "a * b"] f64_round_exact [of a] assms(1)
    by (simp add: multiplyInt_def multiplyFloat_def ab)
  moreover have "divideInt env (VInt a) (VInt b) = (if b = 0 then None else Some (go_div a b))"
    using f64_to_int_quotient [of a b] assms(1) by (simp add: divideInt_def divideFloat_def ab)
  moreover have "mod_fn env (VInt a) (VInt b) = (if b = 0 then None else Some (go_mod a b))"
    using f64_to_int_exact [of a] f64_to_int_exact [of b] assms(1) by (simp add: mod_fn_def toInt_def ab)
  moreover have "addInt env [VInt (2 ^ 53), VInt 1] = Some (2 ^ 53)"
    by (rule addInt_2_53)
  ultimately show ?thesis by blast
qed

definition sample_template_env :: template_env where
  "sample_template_env = \<lparr>strconv_ParseFloat = (\<lambda>_. None), IsAbs = (\<lambda>_. True), AbsDirArgs0 = Inr [], filepath_Join = (@),
     ExpandEnv = id, os_ReadFile = Inr, fs_ReadFile = Inr, yaml_Marshal = (\<lambda>s. (s, None)), seeded_source = (\<lambda>_ i. i)\<rparr>"

theorem template_integer_arithmetic_witness:
  "addInt sample_template_env [VInt 1, VInt 2, VInt 3] = Some 6 \<and> divideInt sample_template_env (VInt 7) (VInt (- 2)) = Some (- 3)
   \<and> mod_fn sample_template_env (VInt 7) (VInt (- 2)) = Some 1 \<and> divideInt sample_template_env (VInt 7) (VInt 0) = None"
proof -
  have "\<forall>k \<le> length [1, 2, 3 :: int]. \<bar>sum_list (take k [1, 2, 3 :: int])\<bar> < 2 ^ 53"
    by (auto simp: le_Suc_eq numeral_3_eq_3 numeral_2_eq_2)
  then show ?thesis
    using template_integer_arithmetic [of 7 "- 2" "[1, 2, 3]" sample_template_env] template_integer_arithmetic [of 7 0 "[1, 2, 3]" sample_template_env]
    by (simp add: go_div_def go_mod_def)
qed

end
