(* ===== verification/Modifier.thy ===== *)
theory Modifier
  imports Api
begin

text \<open>
  \<open>pkg/modifier/modifier.go\<close>: the flags \<open>--skip-steps\<close> and \<open>--overwrite-test-config\<close>. The second
  works by reflection, so a configuration is seen as a tree of reflected values (\<open>rval\<close>) of a
  reflected type (\<open>rtype\<close>): only booleans, strings and signed integers can be overwritten, a pointer
  on the path is followed, and created when it is nil. \<open>reflect\<close> panics when a field of something
  that is no struct is looked up; a panic is the value \<open>None\<close>.
\<close>

subsection \<open>Reflected values\<close>

datatype rtype = TBool | TString | TInt nat | TPtr rtype | TStruct "(string \<times> rtype) list" | TOther string

text \<open>\<open>ROther\<close> is a value of a kind that cannot be overwritten, \<open>None\<close> the zero value of its type.\<close>

datatype 'a rval = RBool bool | RString string | RInt nat int | RPtr rtype "'a rval option"
  | RStruct "(string \<times> 'a rval) list" | ROther string "'a option"

fun rzero :: "rtype \<Rightarrow> 'a rval" where
  "rzero TBool = RBool False"
| "rzero TString = RString []"
| "rzero (TInt bits) = RInt bits 0"
| "rzero (TPtr t) = RPtr t None"
| "rzero (TStruct fs) = RStruct (map (\<lambda>(n, t). (n, rzero t)) fs)"
| "rzero (TOther k) = ROther k None"

inductive has_type :: "'a rval \<Rightarrow> rtype \<Rightarrow> bool" where
  T_Bool: "has_type (RBool b) TBool"
| T_String: "has_type (RString s) TString"
| T_Int: "- (2 ^ (bits - 1)) \<le> i \<Longrightarrow> i < 2 ^ (bits - 1) \<Longrightarrow> has_type (RInt bits i) (TInt bits)"
| T_Nil: "has_type (RPtr t None) (TPtr t)"
| T_Ptr: "has_type v t \<Longrightarrow> has_type (RPtr t (Some v)) (TPtr t)"
| T_Struct: "list_all2 (\<lambda>f g. fst f = fst g \<and> has_type (snd f) (snd g)) fs ts \<Longrightarrow> has_type (RStruct fs) (TStruct ts)"
| T_Other: "has_type (ROther k x) (TOther k)"

inductive_simps has_type_simps [simp]:
  "has_type v TBool" "has_type v TString" "has_type v (TInt bits)" "has_type v (TPtr t)"
  "has_type v (TStruct ts)" "has_type v (TOther k)"

subsection \<open>The configuration as a reflected value\<close>

datatype cfg_other = OFloat float64 | ODependencies "Dependency list" | OSteps "Step list"
  | OTuningSets "TuningSet list" | ONodes "string list option"

definition bool_ptr :: "bool option \<Rightarrow> cfg_other rval" where
  "bool_ptr b = RPtr TBool (map_option RBool b)"

definition namespace_type :: rtype where
  "namespace_type = TStruct [(''Number'', TInt 32), (''Prefix'', TString), (''DeleteStaleNamespaces'', TPtr TBool),
     (''DeleteAutomanagedNamespaces'', TPtr TBool), (''EnableExistingNamespaces'', TPtr TBool), (''DeleteNamespaceTimeout'', TPtr (TInt 64))]"

definition failure_type :: rtype where
  "failure_type = TStruct [(''FailureRate'', TOther ''float64''), (''Interval'', TInt 64), (''JitterFactor'', TOther ''float64''),
     (''SimulatedDowntime'', TInt 64)]"

definition config_type :: rtype where
  "config_type = TStruct [(''Name'', TString), (''Dependencies'', TOther ''slice''), (''AutomanagedNamespaces'', TInt 32),
     (''Namespace'', namespace_type), (''Steps'', TOther ''slice''), (''TuningSets'', TOther ''slice''),
     (''ChaosMonkey'', TStruct [(''NodeFailure'', TPtr failure_type), (''ExcludedNodes'', TOther ''map'')])]"

definition namespace_view :: "NamespaceConfig \<Rightarrow> cfg_other rval" where
  "namespace_view n = RStruct [(''Number'', RInt 32 (ns_Number n)), (''Prefix'', RString (ns_Prefix n)),
     (''DeleteStaleNamespaces'', bool_ptr (ns_DeleteStaleNamespaces n)),
     (''DeleteAutomanagedNamespaces'', bool_ptr (ns_DeleteAutomanagedNamespaces n)),
     (''EnableExistingNamespaces'', bool_ptr (ns_EnableExistingNamespaces n)),
     (''DeleteNamespaceTimeout'', RPtr (TInt 64) (map_option (RInt 64) (ns_DeleteNamespaceTimeout n)))]"

definition failure_view :: "NodeFailureConfig \<Rightarrow> cfg_other rval" where
  "failure_view f = RStruct [(''FailureRate'', ROther ''float64'' (Some (OFloat (nf_FailureRate f)))),
     (''Interval'', RInt 64 (nf_Interval f)), (''JitterFactor'', ROther ''float64'' (Some (OFloat (nf_JitterFactor f)))),
     (''SimulatedDowntime'', RInt 64 (nf_SimulatedDowntime f))]"

definition config_view :: "Config \<Rightarrow> cfg_other rval" where
  "config_view c = RStruct [(''Name'', RString (cf_Name c)), (''Dependencies'', ROther ''slice'' (Some (ODependencies (cf_Dependencies c)))),
     (''AutomanagedNamespaces'', RInt 32 (cf_AutomanagedNamespaces c)), (''Namespace'', namespace_view (cf_Namespace c)),
     (''Steps'', ROther ''slice'' (Some (OSteps (cf_Steps c)))), (''TuningSets'', ROther ''slice'' (Some (OTuningSets (cf_TuningSets c)))),
     (''ChaosMonkey'', RStruct [(''NodeFailure'', RPtr failure_type (map_option failure_view (cm_NodeFailure (cf_ChaosMonkey c)))),
        (''ExcludedNodes'', ROther ''map'' (Some (ONodes (cm_ExcludedNodes (cf_ChaosMonkey c)))))])]"

text \<open>The configuration a reflected value holds.\<close>

fun rget :: "'a rval \<Rightarrow> string \<Rightarrow> 'a rval" where
  "rget (RStruct fs) n = (case map_of fs n of Some v \<Rightarrow> v | None \<Rightarrow> ROther [] None)"
| "rget _ n = ROther [] None"

fun rint :: "'a rval \<Rightarrow> int" where "rint (RInt _ i) = i" | "rint _ = 0"
fun rstring :: "'a rval \<Rightarrow> string" where "rstring (RString s) = s" | "rstring _ = []"
fun rbool :: "'a rval \<Rightarrow> bool" where "rbool (RBool b) = b" | "rbool _ = False"
fun rptr :: "'a rval \<Rightarrow> 'a rval option" where "rptr (RPtr _ v) = v" | "rptr _ = None"

fun rfloat :: "cfg_other rval \<Rightarrow> float64" where
  "rfloat (ROther _ (Some (OFloat f))) = f" | "rfloat _ = Fin 0"
fun rdeps :: "cfg_other rval \<Rightarrow> Dependency list" where
  "rdeps (ROther _ (Some (ODependencies d))) = d" | "rdeps _ = []"
fun rsteps :: "cfg_other rval \<Rightarrow> Step list" where
  "rsteps (ROther _ (Some (OSteps s))) = s" | "rsteps _ = []"
fun rtunings :: "cfg_other rval \<Rightarrow> TuningSet list" where
  "rtunings (ROther _ (Some (OTuningSets s))) = s" | "rtunings _ = []"
fun rnodes :: "cfg_other rval \<Rightarrow> string list option" where
  "rnodes (ROther _ (Some (ONodes s))) = s" | "rnodes _ = None"

definition namespace_put :: "cfg_other rval \<Rightarrow> NamespaceConfig" where
  "namespace_put r = \<lparr>ns_Number = rint (rget r ''Number''), ns_Prefix = rstring (rget r ''Prefix''),
     ns_DeleteStaleNamespaces = map_option rbool (rptr (rget r ''DeleteStaleNamespaces'')),
     ns_DeleteAutomanagedNamespaces = map_option rbool (rptr (rget r ''DeleteAutomanagedNamespaces'')),
     ns_EnableExistingNamespaces = map_option rbool (rptr (rget r ''EnableExistingNamespaces'')),
     ns_DeleteNamespaceTimeout = map_option rint (rptr (rget r ''DeleteNamespaceTimeout''))\<rparr>"

definition failure_put :: "cfg_other rval \<Rightarrow> NodeFailureConfig" where
  "failure_put r = \<lparr>nf_FailureRate = rfloat (rget r ''FailureRate''), nf_Interval = rint (rget r ''Interval''),
     nf_JitterFactor = rfloat (rget r ''JitterFactor''), nf_SimulatedDowntime = rint (rget r ''SimulatedDowntime'')\<rparr>"

definition config_put :: "cfg_other rval \<Rightarrow> Config" where
  "config_put r = \<lparr>cf_Name = rstring (rget r ''Name''), cf_Dependencies = rdeps (rget r ''Dependencies''),
     cf_AutomanagedNamespaces = rint (rget r ''AutomanagedNamespaces''), cf_Namespace = namespace_put (rget r ''Namespace''),
     cf_Steps = rsteps (rget r ''Steps''), cf_TuningSets = rtunings (rget r ''TuningSets''),
     cf_ChaosMonkey = \<lparr>cm_NodeFailure = map_option failure_put (rptr (rget (rget r ''ChaosMonkey'') ''NodeFailure'')),
        cm_ExcludedNodes = rnodes (rget (rget r ''ChaosMonkey'') ''ExcludedNodes'')\<rparr>\<rparr>"

subsection \<open>\<open>simpleModifier\<close>\<close>

record simpleModifier =
  overwriteTestConfig :: "string list"
  skipSteps :: "string list"

fun step_ignored :: "string list \<Rightarrow> Step \<Rightarrow> bool" where
  "step_ignored [] s = False"
| "step_ignored (i # is) s = (if i = st_Name s then True else step_ignored is s)"

fun skip_loop :: "simpleModifier \<Rightarrow> Step list \<Rightarrow> Step list \<Rightarrow> Step list" where
  "skip_loop m [] acc = acc"
| "skip_loop m (s # steps) acc = skip_loop m steps (if \<not> step_ignored (skipSteps m) s then acc @ [s] else acc)"

definition modifySkipSteps :: "simpleModifier \<Rightarrow> Config \<Rightarrow> Config" where
  "modifySkipSteps m c = c\<lparr>cf_Steps := skip_loop m (cf_Steps c) []\<rparr>"

definition cannot_parse :: "string \<Rightarrow> string \<Rightarrow> string \<Rightarrow> string \<Rightarrow> go_error" where
  "cannot_parse v k what err = ErrText (''test config overwrite error: Cannot parse '' @ [CHR 0x27] @ v @ [CHR 0x27]
     @ '' for key '' @ [CHR 0x27] @ k @ [CHR 0x27] @ '' to '' @ what @ '': '' @ err)"

fun overwriteValue :: "(string \<Rightarrow> string) \<Rightarrow> 'a rval \<Rightarrow> string \<Rightarrow> string \<Rightarrow> 'a rval \<times> go_error option" where
  "overwriteValue strconv_err (RBool b) v k = (case parse_bool v of
      None \<Rightarrow> (RBool b, Some (cannot_parse v k ''bool'' (strconv_err v))) | Some boolV \<Rightarrow> (RBool boolV, None))"
| "overwriteValue strconv_err (RString s) v k = (RString v, None)"
| "overwriteValue strconv_err (RInt bits i) v k = (case parse_int bits v of
      None \<Rightarrow> (RInt bits i, Some (cannot_parse v k ''int'' (strconv_err v))) | Some intV \<Rightarrow> (RInt bits intV, None))"
| "overwriteValue strconv_err (RPtr t x) v k = (RPtr t x, Some (ErrText (''unsupported kind: ptr for key '' @ k)))"
| "overwriteValue strconv_err (RStruct fs) v k = (RStruct fs, Some (ErrText (''unsupported kind: struct for key '' @ k)))"
| "overwriteValue strconv_err (ROther kind x) v k = (ROther kind x, Some (ErrText (''unsupported kind: '' @ kind @ '' for key '' @ k)))"

text \<open>The walk along the path of the key; the result is the configuration with the value at its end overwritten.\<close>

fun overwrite_path :: "(string \<Rightarrow> string) \<Rightarrow> string list \<Rightarrow> 'a rval \<Rightarrow> string \<Rightarrow> string \<Rightarrow> ('a rval \<times> go_error option) option" where
  "overwrite_path se [] node v k = Some (overwriteValue se node v k)"
| "overwrite_path se (p # ps) node v k = (case node of
      RStruct fs \<Rightarrow> (case map_of fs p of
          None \<Rightarrow> Some (node, Some (ErrText (''cannot overwrite config for key '' @ [CHR 0x27] @ k @ [CHR 0x27] @ ''. Path does not exist'')))
        | Some (RPtr t target) \<Rightarrow>
            map_option (\<lambda>(x, e). (RStruct (AList.update p (RPtr t (Some x)) fs), e))
              (overwrite_path se ps (case target of None \<Rightarrow> rzero t | Some x \<Rightarrow> x) v k)
        | Some x \<Rightarrow> map_option (\<lambda>(x', e). (RStruct (AList.update p x' fs), e)) (overwrite_path se ps x v k))
    | _ \<Rightarrow> None)"

fun modifyOverwrite :: "(string \<Rightarrow> string) \<Rightarrow> string list \<Rightarrow> 'a rval \<Rightarrow> ('a rval \<times> go_error option) option" where
  "modifyOverwrite se [] c = Some (c, None)"
| "modifyOverwrite se (o' # os) c = (case str_split CHR ''='' o' of
      [k, v] \<Rightarrow> (case overwrite_path se (str_split CHR ''.'' k) c v k of
          None \<Rightarrow> None
        | Some (c', Some err) \<Rightarrow> Some (c', Some err)
        | Some (c', None) \<Rightarrow> modifyOverwrite se os c')
    | _ \<Rightarrow> Some (c, Some (ErrText (''not a key=value pair: '' @ [CHR 0x27] @ o' @ [CHR 0x27]))))"

definition ChangeTest :: "(string \<Rightarrow> string) \<Rightarrow> simpleModifier \<Rightarrow> Config \<Rightarrow> (Config \<times> go_error option) option" where
  "ChangeTest se m c =
     map_option (\<lambda>(x, e). (config_put x, e)) (modifyOverwrite se (overwriteTestConfig m) (config_view (modifySkipSteps m c)))"

definition config_typed :: "Config \<Rightarrow> bool" where
  "config_typed c \<longleftrightarrow> has_type (config_view c) config_type"

subsection \<open>Skipping steps\<close>

lemma step_ignored_iff: "step_ignored is s \<longleftrightarrow> st_Name s \<in> set is"
  by (induction "is") auto

lemma skip_loop_filter: "skip_loop m steps acc = acc @ filter (\<lambda>s. st_Name s \<notin> set (skipSteps m)) steps"
  by (induction steps arbitrary: acc) (simp_all add: step_ignored_iff)

lemma modifySkipSteps_filter:
  "cf_Steps (modifySkipSteps m c) = filter (\<lambda>s. st_Name s \<notin> set (skipSteps m)) (cf_Steps c)"
  by (simp add: modifySkipSteps_def skip_loop_filter)


subsection \<open>Overwriting\<close>

lemma failure_put_view [simp]: "failure_put (failure_view f) = f"
  by (simp add: failure_put_def failure_view_def)

lemma namespace_put_view [simp]: "namespace_put (namespace_view n) = n"
  by (simp add: namespace_put_def namespace_view_def bool_ptr_def option.map_comp comp_def option.map_ident)

lemma config_put_view [simp]: "config_put (config_view c) = c"
  by (simp add: config_put_def config_view_def option.map_comp comp_def option.map_ident)

lemma rzero_type [simp]: "has_type (rzero t) t"
proof (induction t rule: rzero.induct)
  case (5 fs)
  then show ?case by (auto simp: list_all2_map1 list_all2_same)
qed auto

lemma struct_lookup:
  assumes "list_all2 (\<lambda>f g. fst f = fst g \<and> has_type (snd f) (snd g)) fs ts"
  shows "rel_option has_type (map_of fs p) (map_of ts p)"
  using assms by (induction rule: list_all2_induct) auto

lemma struct_update:
  assumes "list_all2 (\<lambda>f g. fst f = fst g \<and> has_type (snd f) (snd g)) fs ts"
    and "map_of ts p = Some t" and "has_type x t"
  shows "list_all2 (\<lambda>f g. fst f = fst g \<and> has_type (snd f) (snd g)) (AList.update p x fs) ts"
  using assms by (induction rule: list_all2_induct) (auto split: if_splits)

lemma parse_int_range: "parse_int bits v = Some i \<Longrightarrow> - (2 ^ (bits - Suc 0)) \<le> i \<and> i < 2 ^ (bits - Suc 0)"
  by (auto simp: parse_int_def Let_def split: list.splits option.splits if_splits prod.splits)

lemma overwriteValue_type: "has_type node t \<Longrightarrow> has_type (fst (overwriteValue se node v k)) t"
  by (cases t) (auto split: option.split dest: parse_int_range)

text \<open>Where a path leads in a type: to a type, to a field that does not exist, or into something that is no struct.\<close>

datatype walk = At rtype | Missing | Stuck

fun type_walk :: "string list \<Rightarrow> rtype \<Rightarrow> walk" where
  "type_walk [] t = At t"
| "type_walk (p # ps) (TStruct ts) = (case map_of ts p of
      None \<Rightarrow> Missing | Some (TPtr e) \<Rightarrow> type_walk ps e | Some t \<Rightarrow> type_walk ps t)"
| "type_walk (p # ps) _ = Stuck"

fun read_path :: "string list \<Rightarrow> 'a rval \<Rightarrow> 'a rval option" where
  "read_path [] v = Some v"
| "read_path (p # ps) (RStruct fs) = (case map_of fs p of
      None \<Rightarrow> None | Some (RPtr _ None) \<Rightarrow> None | Some (RPtr _ (Some v)) \<Rightarrow> read_path ps v | Some v \<Rightarrow> read_path ps v)"
| "read_path (p # ps) _ = None"

text \<open>The value a type reads from the text of an overwrite.\<close>

fun parsed :: "rtype \<Rightarrow> string \<Rightarrow> 'a rval option" where
  "parsed TBool v = map_option RBool (parse_bool v)"
| "parsed TString v = Some (RString v)"
| "parsed (TInt bits) v = map_option (RInt bits) (parse_int bits v)"
| "parsed _ v = None"

text \<open>What overwriting does to a value of a type, by where the path leads.\<close>

definition walk_outcome :: "string list \<Rightarrow> rtype \<Rightarrow> string \<Rightarrow> string \<Rightarrow> ('a rval \<times> go_error option) option \<Rightarrow> bool" where
  "walk_outcome ps t v k r \<longleftrightarrow> (case type_walk ps t of
      Stuck \<Rightarrow> r = None
    | Missing \<Rightarrow> \<exists>x. has_type x t
        \<and> r = Some (x, Some (ErrText (''cannot overwrite config for key '' @ [CHR 0x27] @ k @ [CHR 0x27] @ ''. Path does not exist'')))
    | At t' \<Rightarrow> \<exists>x e. r = Some (x, e) \<and> has_type x t
        \<and> (case parsed t' v of None \<Rightarrow> e \<noteq> None | Some y \<Rightarrow> e = None \<and> read_path ps x = Some y))"

lemma overwriteValue_outcome:
  assumes "has_type node t"
  shows "walk_outcome [] t v k (Some (overwriteValue se node v k))"
proof -
  have "has_type (fst (overwriteValue se node v k)) t" using assms by (rule overwriteValue_type)
  then show ?thesis using assms
    by (cases t) (auto simp: walk_outcome_def split: option.splits)
qed

lemma walk_outcome_lift:
  assumes "walk_outcome ps e v k r" and typed: "list_all2 (\<lambda>f g. fst f = fst g \<and> has_type (snd f) (snd g)) fs ts"
    and "map_of ts p = Some t" and "type_walk (p # ps) (TStruct ts) = type_walk ps e"
    and wrap: "\<And>x. has_type x e \<Longrightarrow> has_type (wrap x) t"
    and read: "\<And>x. has_type x e \<Longrightarrow> read_path (p # ps) (RStruct (AList.update p (wrap x) fs)) = read_path ps x"
  shows "walk_outcome (p # ps) (TStruct ts) v k (map_option (\<lambda>(x, e). (RStruct (AList.update p (wrap x) fs), e)) r)"
proof -
  have up: "has_type (RStruct (AList.update p (wrap x) fs)) (TStruct ts)" if "has_type x e" for x
    using struct_update [OF typed assms(3) wrap [OF that]] by simp
  show ?thesis
  proof (cases "type_walk ps e")
    case (At t')
    then obtain x err where x: "r = Some (x, err)" "has_type x e"
        "case parsed t' v of None \<Rightarrow> err \<noteq> None | Some y \<Rightarrow> err = None \<and> read_path ps x = Some y"
      using assms(1) unfolding walk_outcome_def by auto
    then show ?thesis unfolding walk_outcome_def assms(4) At walk.case
      by (intro exI [of _ "RStruct (AList.update p (wrap x) fs)"] exI [of _ err])
        (simp only: read [OF x(2)] up [OF x(2)] option.map prod.case simp_thms)
  next
    case Missing
    then show ?thesis using assms(1) up unfolding walk_outcome_def assms(4) by fastforce
  qed (use assms(1,4) in \<open>simp add: walk_outcome_def\<close>)
qed

lemma overwrite_path_outcome: "has_type node t \<Longrightarrow> walk_outcome ps t v k (overwrite_path se ps node v k)"
proof (induction ps arbitrary: node t)
  case Nil
  then show ?case by (simp add: overwriteValue_outcome)
next
  case (Cons p ps)
  show ?case
  proof (cases "\<exists>ts. t = TStruct ts")
    case False
    then have "type_walk (p # ps) t = Stuck" by (cases t) auto
    moreover have "overwrite_path se (p # ps) node v k = None" using False Cons.prems by (cases t) auto
    ultimately show ?thesis by (simp add: walk_outcome_def)
  next
    case True
    then obtain ts where t: "t = TStruct ts" by blast
    then obtain fs where node: "node = RStruct fs"
        and typed: "list_all2 (\<lambda>f g. fst f = fst g \<and> has_type (snd f) (snd g)) fs ts"
      using Cons.prems by auto
    show ?thesis
    proof (cases "map_of ts p")
      case None
      then have "map_of fs p = None" using struct_lookup [OF typed, of p] by simp
      then show ?thesis using None t node Cons.prems by (auto simp: walk_outcome_def)
    next
      case (Some t')
      then obtain x where x: "map_of fs p = Some x" "has_type x t'"
        using struct_lookup [OF typed, of p] by (cases "map_of fs p") auto
      show ?thesis
      proof (cases "\<exists>e. t' = TPtr e")
        case True
        then obtain e where e: "t' = TPtr e" by blast
        then obtain target where tg: "x = RPtr e target" using x(2) by auto
        let ?y = "case target of None \<Rightarrow> rzero e | Some y \<Rightarrow> y"
        have "has_type ?y e" using x(2) e tg by (cases target) auto
        from walk_outcome_lift [OF Cons.IH [OF this] typed Some, of "\<lambda>x. RPtr e (Some x)"]
        show ?thesis using Some e x(1) tg t node by simp
      next
        case False
        then have np: "x \<noteq> RPtr e y" for e y using x(2) by (cases t') auto
        have "type_walk (p # ps) (TStruct ts) = type_walk ps t'" using Some False by (cases t') auto
        moreover have "read_path (p # ps) (RStruct (AList.update p y fs)) = read_path ps y" if "has_type y t'" for y
          using that False by (cases t') auto
        ultimately have "walk_outcome (p # ps) (TStruct ts) v k
            (map_option (\<lambda>(x, e). (RStruct (AList.update p x fs), e)) (overwrite_path se ps x v k))"
          by (intro walk_outcome_lift [OF Cons.IH [OF x(2)] typed Some])
        then show ?thesis using x(1) np t node by (cases x) auto
      qed
    qed
  qed
qed


text \<open>Values that cannot be overwritten keep their place in the struct.\<close>

lemma overwrite_path_other:
  assumes "overwrite_path se ps (RStruct fs) v k = Some (x, e)"
  shows "\<exists>fs'. x = RStruct fs' \<and> (\<forall>n kind y. map_of fs n = Some (ROther kind y) \<longrightarrow> map_of fs' n = map_of fs n)"
proof (cases ps)
  case Nil
  then show ?thesis using assms by auto
next
  case (Cons p qs)
  show ?thesis
  proof (cases "map_of fs p")
    case None
    then show ?thesis using assms Cons by auto
  next
    case (Some y)
    show ?thesis
    proof (cases "\<exists>kind z. y = ROther kind z")
      case True
      then show ?thesis using assms Cons Some by (cases qs) auto
    next
      case False
      then show ?thesis using assms Cons Some by (cases y) auto
    qed
  qed
qed

lemma modifyOverwrite_Cons:
  assumes "modifyOverwrite se (o' # os) c = Some (x, e)"
  obtains "x = c"
  | ps v k where "overwrite_path se ps c v k = Some (x, e)"
  | ps v k y where "overwrite_path se ps c v k = Some (y, None)" "modifyOverwrite se os y = Some (x, e)"
  using assms by (auto split: list.splits option.splits prod.splits)

lemma overwrite_path_type:
  "has_type c t \<Longrightarrow> overwrite_path se ps c v k = Some (x, e) \<Longrightarrow> has_type x t"
  using overwrite_path_outcome [of c t ps v k se] by (auto simp: walk_outcome_def split: walk.splits)

lemma modifyOverwrite_type:
  "has_type c t \<Longrightarrow> modifyOverwrite se os c = Some (c', e) \<Longrightarrow> has_type c' t"
proof (induction os arbitrary: c)
  case (Cons o' os)
  from Cons.prems(2) show ?case
  proof (cases rule: modifyOverwrite_Cons)
    case (3 ps v k y)
    then show ?thesis using Cons.IH overwrite_path_type [OF Cons.prems(1)] by blast
  qed (use Cons.prems(1) overwrite_path_type in blast)+
qed simp

definition keeps_other :: "(string \<times> 'a rval) list \<Rightarrow> 'a rval \<Rightarrow> bool" where
  "keeps_other fs x \<longleftrightarrow> (\<exists>fs'. x = RStruct fs' \<and> (\<forall>n kind y. map_of fs n = Some (ROther kind y) \<longrightarrow> map_of fs' n = map_of fs n))"

lemma keeps_other_refl: "keeps_other fs (RStruct fs)"
  by (simp add: keeps_other_def)

lemma keeps_other_trans: "keeps_other fs (RStruct gs) \<Longrightarrow> keeps_other gs x \<Longrightarrow> keeps_other fs x"
  by (auto simp: keeps_other_def)

lemma modifyOverwrite_other: "modifyOverwrite se os (RStruct fs) = Some (x, e) \<Longrightarrow> keeps_other fs x"
proof (induction os arbitrary: fs)
  case (Cons o' os)
  have one: "keeps_other fs y" if "overwrite_path se ps (RStruct fs) v k = Some (y, e')" for ps v k y e'
    using overwrite_path_other [OF that] by (simp add: keeps_other_def)
  from Cons.prems show ?case
  proof (cases rule: modifyOverwrite_Cons)
    case (3 ps v k y)
    obtain gs where "y = RStruct gs" using one [OF 3(1)] by (auto simp: keeps_other_def)
    then show ?thesis using Cons.IH [of gs] 3 one keeps_other_trans by blast
  qed (use one keeps_other_refl in blast)+
qed (auto simp: keeps_other_refl)

lemma bool_ptr_typed [simp]: "has_type (bool_ptr b) (TPtr TBool)"
  by (cases b) (simp_all add: bool_ptr_def)

lemma int_ptr_typed:
  "has_type i (TPtr (TInt bits)) \<Longrightarrow> has_type (RPtr (TInt bits) (map_option (RInt bits) (map_option rint (rptr i)))) (TPtr (TInt bits))"
  by auto

lemma namespace_put_typed:
  assumes "has_type r namespace_type"
  shows "has_type (namespace_view (namespace_put r)) namespace_type"
proof -
  obtain n p a b d i where r: "r = RStruct [(''Number'', n), (''Prefix'', p), (''DeleteStaleNamespaces'', a),
        (''DeleteAutomanagedNamespaces'', b), (''EnableExistingNamespaces'', d), (''DeleteNamespaceTimeout'', i)]"
      "has_type n (TInt 32)" "has_type i (TPtr (TInt 64))"
    using assms by (auto simp del: has_type_simps simp: namespace_type_def has_type_simps(5) list_all2_Cons2)
  then show ?thesis using int_ptr_typed [OF r(3)]
    by (auto simp: namespace_type_def namespace_view_def namespace_put_def simp del: has_type_simps(4))
qed

lemma failure_put_typed:
  assumes "has_type r failure_type"
  shows "has_type (failure_view (failure_put r)) failure_type"
proof -
  obtain f n j d where r: "r = RStruct [(''FailureRate'', f), (''Interval'', n), (''JitterFactor'', j), (''SimulatedDowntime'', d)]"
      "has_type n (TInt 64)" "has_type d (TInt 64)"
    using assms by (auto simp del: has_type_simps simp: failure_type_def has_type_simps(5) list_all2_Cons2)
  then show ?thesis by (auto simp: failure_type_def failure_view_def failure_put_def)
qed

lemma failure_ptr_typed:
  assumes "has_type x (TPtr failure_type)"
  shows "has_type (RPtr failure_type (map_option failure_view (map_option failure_put (rptr x)))) (TPtr failure_type)"
  using assms by (auto simp: failure_put_typed)

lemma config_typed_put:
  assumes "has_type r config_type"
  shows "config_typed (config_put r)"
proof -
  obtain n d a ns s t f e where r: "r = RStruct [(''Name'', n), (''Dependencies'', d), (''AutomanagedNamespaces'', a),
        (''Namespace'', ns), (''Steps'', s), (''TuningSets'', t),
        (''ChaosMonkey'', RStruct [(''NodeFailure'', f), (''ExcludedNodes'', e)])]"
      "has_type a (TInt 32)" "has_type ns namespace_type" "has_type f (TPtr failure_type)"
    using assms by (auto simp del: has_type_simps simp: config_type_def has_type_simps(5) list_all2_Cons2)
  then show ?thesis using namespace_put_typed [OF r(3)] failure_ptr_typed [OF r(4)]
    by (auto simp: config_typed_def config_type_def config_view_def config_put_def simp del: has_type_simps(4))
qed

text \<open>
  C32. The modifier is type safe: whatever the flags are, if it returns, with or without an error, the
  configuration is again one whose integer fields lie in the range of their Go type, the steps are
  those whose name is not to be skipped, in their order, and dependencies and tuning sets are untouched.
\<close>

theorem ChangeTest_well_typed:
  assumes "config_typed c" and "ChangeTest se m c = Some (c', e)"
  shows "config_typed c' \<and> cf_Steps c' = filter (\<lambda>s. st_Name s \<notin> set (skipSteps m)) (cf_Steps c)
    \<and> cf_Dependencies c' = cf_Dependencies c \<and> cf_TuningSets c' = cf_TuningSets c"
proof -
  let ?c = "modifySkipSteps m c"
  obtain r where r: "modifyOverwrite se (overwriteTestConfig m) (config_view ?c) = Some (r, e)" "c' = config_put r"
    using assms(2) by (auto simp: ChangeTest_def)
  have "has_type (config_view ?c) config_type"
    using assms(1) by (simp add: config_typed_def config_view_def modifySkipSteps_def config_type_def)
  from modifyOverwrite_type [OF this r(1)] have typed: "config_typed c'" using r(2) by (simp add: config_typed_put)
  obtain fs where fs: "config_view ?c = RStruct fs" by (simp add: config_view_def)
  have keep: "rget r n = ROther kind y" if "rget (config_view ?c) n = ROther kind y" "n \<in> fst ` set fs" for n kind y
  proof -
    have "map_of fs n = Some (ROther kind y)"
      using that by (cases "map_of fs n") (auto simp: fs map_of_eq_None_iff)
    then show ?thesis using modifyOverwrite_other [OF r(1) [unfolded fs]] by (auto simp: keeps_other_def)
  qed
  have names: "''Steps'' \<in> fst ` set fs" "''Dependencies'' \<in> fst ` set fs" "''TuningSets'' \<in> fst ` set fs"
    using fs by (auto simp: config_view_def)
  have "rget r ''Steps'' = ROther ''slice'' (Some (OSteps (cf_Steps ?c)))"
    "rget r ''Dependencies'' = ROther ''slice'' (Some (ODependencies (cf_Dependencies ?c)))"
    "rget r ''TuningSets'' = ROther ''slice'' (Some (OTuningSets (cf_TuningSets ?c)))"
    by (rule keep; simp add: config_view_def names)+
  then show ?thesis using typed r(2) modifySkipSteps_filter [of m c]
    by (simp add: config_put_def) (simp add: modifySkipSteps_def)
qed

definition sample_modifier_config :: Config where
  "sample_modifier_config = \<lparr>cf_Name = ''load'', cf_Dependencies = [], cf_AutomanagedNamespaces = 0,
     cf_Namespace = \<lparr>ns_Number = 1, ns_Prefix = [], ns_DeleteStaleNamespaces = None, ns_DeleteAutomanagedNamespaces = None,
       ns_EnableExistingNamespaces = None, ns_DeleteNamespaceTimeout = None\<rparr>,
     cf_Steps = [\<lparr>st_Phases = [], st_Measurements = [], st_Module = \<lparr>mr_Path = [], mr_Params = None\<rparr>, st_Name = ''skip-me''\<rparr>,
       \<lparr>st_Phases = [], st_Measurements = [], st_Module = \<lparr>mr_Path = [], mr_Params = None\<rparr>, st_Name = ''stay''\<rparr>],
     cf_TuningSets = [], cf_ChaosMonkey = \<lparr>cm_NodeFailure = None, cm_ExcludedNodes = None\<rparr>\<rparr>"

definition sample_modifier :: simpleModifier where
  "sample_modifier = \<lparr>overwriteTestConfig = [''Namespace.Number=42'', ''Namespace.EnableExistingNamespaces=true'',
      ''ChaosMonkey.NodeFailure.Interval=9''], skipSteps = [''skip-me'']\<rparr>"

lemma sample_modifier_config_typed: "config_typed sample_modifier_config"
  by (simp add: config_typed_def sample_modifier_config_def config_view_def config_type_def namespace_view_def namespace_type_def bool_ptr_def)

theorem ChangeTest_well_typed_witness:
  "\<exists>c'. ChangeTest id sample_modifier sample_modifier_config = Some (c', None) \<and> config_typed c' \<and> map st_Name (cf_Steps c') = [''stay'']
     \<and> ns_Number (cf_Namespace c') = 42 \<and> ns_EnableExistingNamespaces (cf_Namespace c') = Some True
     \<and> map_option nf_Interval (cm_NodeFailure (cf_ChaosMonkey c')) = Some 9"
proof -
  have "map_option (\<lambda>(c, e). (ns_Number (cf_Namespace c), ns_EnableExistingNamespaces (cf_Namespace c),
          map_option nf_Interval (cm_NodeFailure (cf_ChaosMonkey c)), e)) (ChangeTest id sample_modifier sample_modifier_config)
      = Some (42, Some True, Some 9, None)"
    by code_simp
  then obtain c' where c': "ChangeTest id sample_modifier sample_modifier_config = Some (c', None)" "ns_Number (cf_Namespace c') = 42"
      "ns_EnableExistingNamespaces (cf_Namespace c') = Some True" "map_option nf_Interval (cm_NodeFailure (cf_ChaosMonkey c')) = Some 9"
    by auto
  then show ?thesis using ChangeTest_well_typed [OF sample_modifier_config_typed c'(1)]
    by (simp add: sample_modifier_def sample_modifier_config_def)
qed

text \<open>
  C33. What one flag \<open>key=value\<close> does to a configuration is decided by where the key leads in its type.
  A field that does not exist, and a value that its type cannot hold, is an error. A key that goes on
  below something that is no struct, such as \<open>Name.x\<close>, panics instead of being reported as a path
  that does not exist. Otherwise the value is read back at the key, through pointers that may have been nil.
\<close>

theorem overwrite_outcome:
  assumes "config_typed c" and "str_split CHR ''='' flag = [k, v]"
  shows "walk_outcome (str_split CHR ''.'' k) config_type v k (modifyOverwrite se [flag] (config_view c))"
proof -
  let ?r = "overwrite_path se (str_split CHR ''.'' k) (config_view c) v k"
  have "modifyOverwrite se [flag] (config_view c) = ?r"
    using assms(2) by (auto split: option.split prod.split)
  then show ?thesis using overwrite_path_outcome assms(1) by (simp add: config_typed_def)
qed

theorem overwrite_outcome_witness:
  "modifyOverwrite id [''Name.x=1''] (config_view sample_modifier_config) = None
   \<and> walk_outcome [''Namespace'', ''Number''] config_type ''4294967296'' ''Namespace.Number''
       (modifyOverwrite id [''Namespace.Number=4294967296''] (config_view sample_modifier_config))"
  using overwrite_outcome [OF sample_modifier_config_typed, of "''Name.x=1''" "''Name.x''" "''1''" id]
    overwrite_outcome [OF sample_modifier_config_typed, of "''Namespace.Number=4294967296''" "''Namespace.Number''" "''4294967296''" id]
  by (simp add: walk_outcome_def [of "[''Name'', ''x'']"] config_type_def del: modifyOverwrite.simps)

end
