(* ===== verification/Chaos.thy ===== *)
theory Chaos
  imports Cluster
begin

text \<open>
  Package \<open>pkg/chaos\<close>: the chaos monkey, which makes nodes fail while a test runs. The nodes of a
  round fail in goroutines (\<open>kill_thread\<close>); each entry of the event log and each command sent to a
  node is an atomic step. The provider's feature flag, the commands sent by SSH on a world of type
  \<open>'w\<close>, the shuffle of a round and the time of an event are parameters, and so is the number of
  rounds \<open>wait.JitterUntil\<close> makes before the channel is closed. A panic is \<open>None\<close>.
\<close>

datatype nodeAction = stopServices | rebootNode

record chaos_event =
  ce_time :: time
  ce_action :: nodeAction
  ce_nodeName :: string

record NodeKiller =
  nk_config :: NodeFailureConfig
  nk_killedNodes :: "string set"
  nk_events :: "chaos_event list"

record ('s, 'w) killer_env =
  kl_lib :: "'s client_lib"
  kl_client :: "'s clientset"
  kl_Exec :: "string \<Rightarrow> Node \<Rightarrow> 'w \<Rightarrow> 'w \<times> go_error option"
  kl_Now :: "nat \<Rightarrow> time"

definition NewNodeKiller :: "bool \<Rightarrow> string \<Rightarrow> NodeFailureConfig \<Rightarrow> string set \<Rightarrow> NodeKiller result" where
  "NewNodeKiller supportNodeKiller provider config killedNodes =
     (if \<not> supportNodeKiller
      then Inl (ErrText (''provider '' @ provider @ '' is not supported by NodeKiller''))
      else Inr \<lparr>nk_config = config, nk_killedNodes = killedNodes, nk_events = []\<rparr>)"

definition record_event :: "(nat \<Rightarrow> time) \<Rightarrow> nodeAction \<Rightarrow> string \<Rightarrow> chaos_event list \<Rightarrow> chaos_event list" where
  "record_event now a nodeName evs = evs @ [\<lparr>ce_time = now (length evs), ce_action = a, ce_nodeName = nodeName\<rparr>]"

fun prometheus_nodes :: "Pod list \<Rightarrow> string set \<Rightarrow> string set" where
  "prometheus_nodes [] acc = acc"
| "prometheus_nodes (p # pods) acc =
     prometheus_nodes pods (if pod_NodeName p \<noteq> [] then insert (pod_NodeName p) acc else acc)"

fun eligible_loop :: "string set \<Rightarrow> string set \<Rightarrow> Node list \<Rightarrow> Node list \<Rightarrow> Node list" where
  "eligible_loop hasPrometheus killed [] acc = acc"
| "eligible_loop hasPrometheus killed (node # nodes) acc =
     eligible_loop hasPrometheus killed nodes
       (if node_Name node \<notin> hasPrometheus \<and> node_Name node \<notin> killed then acc @ [node] else acc)"

definition pickNodes ::
    "('s, 'w) killer_env \<Rightarrow> (Node list \<Rightarrow> Node list) \<Rightarrow> NodeKiller \<Rightarrow> 's \<Rightarrow> ('s \<times> Node list \<times> go_error option) option" where
  "pickNodes env shuffle k s = (case GetSchedulableUntainedNodes (kl_lib env) (kl_client env) s of
      (s1, _, Some err) \<Rightarrow> Some (s1, [], Some err)
    | (s1, allNodes, None) \<Rightarrow>
        (case ListPodsWithOptions (kl_lib env) (kl_client env) ''monitoring'' \<lparr>lo_LabelSelector = ''prometheus=k8s'', lo_FieldSelector = []\<rparr> s1 of
           (s2, _, Some err) \<Rightarrow> Some (s2, [], Some err)
         | (s2, prometheusPods, None) \<Rightarrow>
             (let nodes = shuffle (eligible_loop (prometheus_nodes prometheusPods {}) (nk_killedNodes k) allNodes []);
                  numNodes = f64_to_int (f64_ceil (f64_mul (nf_FailureRate (nk_config k)) (f64_of_int (int (length nodes)))))
              in if int (length nodes) > numNodes
                 then (if numNodes < 0 then None else Some (s2, take (nat numNodes) nodes, None))
                 else Some (s2, nodes, None))))"

subsection \<open>\<open>kill\<close>\<close>

datatype kill_thread = KStart Node | KStop Node | KReboot Node | KRebootExec Node | KDone Node bool

fun kill_step ::
    "('s, 'w) killer_env \<Rightarrow> kill_thread \<Rightarrow> chaos_event list \<times> 'w \<Rightarrow> kill_thread \<times> chaos_event list \<times> 'w" where
  "kill_step env (KStart n) (evs, w) = (KStop n, record_event (kl_Now env) stopServices (node_Name n) evs, w)"
| "kill_step env (KStop n) (evs, w) = (case kl_Exec env ''sudo systemctl stop docker kubelet'' n w of
      (w', Some err) \<Rightarrow> (KDone n False, evs, w')
    | (w', None) \<Rightarrow> (KReboot n, evs, w'))"
| "kill_step env (KReboot n) (evs, w) = (KRebootExec n, record_event (kl_Now env) rebootNode (node_Name n) evs, w)"
| "kill_step env (KRebootExec n) (evs, w) = (KDone n True, evs, fst (kl_Exec env ''sudo reboot'' n w))"
| "kill_step env (KDone n b) s = (KDone n b, s)"

fun kill_rank :: "kill_thread \<Rightarrow> nat" where
  "kill_rank (KStart _) = 4"
| "kill_rank (KStop _) = 3"
| "kill_rank (KReboot _) = 2"
| "kill_rank (KRebootExec _) = 1"
| "kill_rank (KDone _ _) = 0"

definition kill :: "('s, 'w) killer_env \<Rightarrow> nat list \<Rightarrow> Node list \<Rightarrow> NodeKiller \<Rightarrow> 'w \<Rightarrow> NodeKiller \<times> 'w" where
  "kill env sched nodes k w =
     (let (_, evs, w') = wait_group (kill_step env) kill_rank sched (map KStart nodes) (nk_events k, w)
      in (k\<lparr>nk_killedNodes := nk_killedNodes k \<union> node_Name ` set nodes, nk_events := evs\<rparr>, w'))"

text \<open>The rounds of \<open>Run\<close>, each with its shuffle and the schedule of its goroutines.\<close>

fun killer_Run ::
    "('s, 'w) killer_env \<Rightarrow> ((Node list \<Rightarrow> Node list) \<times> nat list) list \<Rightarrow> NodeKiller \<Rightarrow> 's \<times> 'w \<Rightarrow> (NodeKiller \<times> 's \<times> 'w) option" where
  "killer_Run env [] k sw = Some (k, sw)"
| "killer_Run env ((shuffle, sched) # rounds) k (s, w) = (case pickNodes env shuffle k s of
      None \<Rightarrow> None
    | Some (s', _, Some err) \<Rightarrow> killer_Run env rounds k (s', w)
    | Some (s', nodes, None) \<Rightarrow> (let (k', w') = kill env sched nodes k w in killer_Run env rounds k' (s', w')))"

fun action_text :: "nodeAction \<Rightarrow> string" where
  "action_text stopServices = ''stopService''"
| "action_text rebootNode = ''rebootNode''"

definition killer_Summary :: "(time \<Rightarrow> string) \<Rightarrow> NodeKiller \<Rightarrow> string" where
  "killer_Summary FormatUnixDate k = ''NodeKiller: Recorded following events'' @ [CHR 0x0A]
     @ concat (map (\<lambda>e. ''NodeKiller: At '' @ FormatUnixDate (ce_time e) @ '' '' @ action_text (ce_action e)
         @ '' happened for node '' @ ce_nodeName e @ [CHR 0x0A]) (nk_events k))"

subsection \<open>\<open>monkey.go\<close>\<close>

record Monkey =
  mk_supported :: bool
  mk_provider :: string
  mk_nodeKiller :: "NodeKiller option"

definition NewMonkey :: "bool \<Rightarrow> string \<Rightarrow> Monkey" where
  "NewMonkey supported provider = \<lparr>mk_supported = supported, mk_provider = provider, mk_nodeKiller = None\<rparr>"

text \<open>The result says whether the caller gets a wait group, that is, whether the killer was started.\<close>

definition Monkey_Init :: "ChaosMonkeyConfig \<Rightarrow> Monkey \<Rightarrow> Monkey \<times> bool result" where
  "Monkey_Init config m = (case cm_NodeFailure config of
      None \<Rightarrow> (m, Inr False)
    | Some nf \<Rightarrow> (case NewNodeKiller (mk_supported m) (mk_provider m) nf (case cm_ExcludedNodes config of None \<Rightarrow> {} | Some ns \<Rightarrow> set ns) of
        Inl err \<Rightarrow> (m, Inl err)
      | Inr nodeKiller \<Rightarrow> (m\<lparr>mk_nodeKiller := Some nodeKiller\<rparr>, Inr True)))"

definition Monkey_Summary :: "(time \<Rightarrow> string) \<Rightarrow> Monkey \<Rightarrow> string" where
  "Monkey_Summary FormatUnixDate m = (case mk_nodeKiller m of
      None \<Rightarrow> []
    | Some k \<Rightarrow> ''Summary of Chaos Monkey execution'' @ [CHR 0x0A] @ killer_Summary FormatUnixDate k)"

definition KilledNodes :: "Monkey \<Rightarrow> string set" where
  "KilledNodes m = (case mk_nodeKiller m of None \<Rightarrow> {} | Some k \<Rightarrow> nk_killedNodes k)"

subsection \<open>One round\<close>

lemma kill_step_rank: "kill_rank (fst (kill_step env th s)) \<le> kill_rank th - 1"
  by (cases "(env, th, s)" rule: kill_step.cases) (auto split: prod.split option.split)

interpretation killers: goroutines "kill_step env" kill_rank for env
  by unfold_locales (rule kill_step_rank)

fun kill_node :: "kill_thread \<Rightarrow> Node" where
  "kill_node (KStart n) = n"
| "kill_node (KStop n) = n"
| "kill_node (KReboot n) = n"
| "kill_node (KRebootExec n) = n"
| "kill_node (KDone n _) = n"

fun has_stopped :: "kill_thread \<Rightarrow> bool" where
  "has_stopped (KStart _) = False"
| "has_stopped _ = True"

fun has_rebooted :: "kill_thread \<Rightarrow> bool" where
  "has_rebooted (KRebootExec _) = True"
| "has_rebooted (KDone _ b) = b"
| "has_rebooted _ = False"

definition event_count :: "nodeAction \<Rightarrow> string \<Rightarrow> chaos_event list \<Rightarrow> nat" where
  "event_count a x evs = length (filter (\<lambda>e. ce_action e = a \<and> ce_nodeName e = x) evs)"

lemma event_count_record [simp]:
  "event_count a x (record_event now b y evs) = event_count a x evs + (if a = b \<and> x = y then 1 else 0)"
  by (auto simp: event_count_def record_event_def)

definition stop_of :: "string \<Rightarrow> kill_thread \<Rightarrow> nat" where
  "stop_of x th = (if has_stopped th \<and> node_Name (kill_node th) = x then 1 else 0)"

definition reboot_of :: "string \<Rightarrow> kill_thread \<Rightarrow> nat" where
  "reboot_of x th = (if has_rebooted th \<and> node_Name (kill_node th) = x then 1 else 0)"

lemma kill_step_effect:
  assumes "kill_step env th (evs, w) = (th', evs', w')"
  shows "kill_node th' = kill_node th"
    and "event_count stopServices x evs' + stop_of x th = event_count stopServices x evs + stop_of x th'"
    and "event_count rebootNode x evs' + reboot_of x th = event_count rebootNode x evs + reboot_of x th'"
  using assms by (cases th; auto simp: stop_of_def reboot_of_def split: prod.splits option.splits)+

lemma sum_list_update_nat:
  "i < length xs \<Longrightarrow> sum_list (map f (xs[i := x])) + f (xs ! i) = sum_list (map f xs) + (f x :: nat)"
  by (induction xs arbitrary: i) (auto split: nat.split)

definition kill_inv :: "Node list \<Rightarrow> chaos_event list \<Rightarrow> kill_thread list \<Rightarrow> chaos_event list \<times> 'w \<Rightarrow> bool" where
  "kill_inv nodes evs0 ths s \<longleftrightarrow> map kill_node ths = nodes
     \<and> (\<forall>x. event_count stopServices x (fst s) = event_count stopServices x evs0 + sum_list (map (stop_of x) ths))
     \<and> (\<forall>x. event_count rebootNode x (fst s) = event_count rebootNode x evs0 + sum_list (map (reboot_of x) ths))"

lemma kill_inv_step:
  assumes "kill_inv nodes evs0 ths s" and i: "i < length ths"
  shows "kill_inv nodes evs0 (ths[i := fst (kill_step env (ths ! i) s)]) (snd (kill_step env (ths ! i) s))"
proof -
  obtain evs w where s: "s = (evs, w)" by (cases s)
  obtain th' evs' w' where st: "kill_step env (ths ! i) (evs, w) = (th', evs', w')"
    by (cases "kill_step env (ths ! i) (evs, w)")
  note eff = kill_step_effect [OF st]
  have "map kill_node (ths[i := th']) = nodes"
    using assms eff(1) by (simp add: kill_inv_def map_update) (metis list_update_id nth_map)
  moreover have "event_count stopServices x evs' = event_count stopServices x evs0 + sum_list (map (stop_of x) (ths[i := th']))" for x
    using eff(2) [of x] sum_list_update_nat [OF i, of "stop_of x" th'] assms(1) by (simp add: kill_inv_def s)
  moreover have "event_count rebootNode x evs' = event_count rebootNode x evs0 + sum_list (map (reboot_of x) (ths[i := th']))" for x
    using eff(3) [of x] sum_list_update_nat [OF i, of "reboot_of x" th'] assms(1) by (simp add: kill_inv_def s)
  ultimately show ?thesis by (simp add: kill_inv_def s st)
qed


lemma kill_done: "kill_rank th = 0 \<Longrightarrow> has_stopped th"
  by (cases th) auto

lemma sum_stop_of_done:
  assumes "\<forall>th \<in> set ths. kill_rank th = 0" and "distinct (map (\<lambda>th. node_Name (kill_node th)) ths)"
  shows "sum_list (map (stop_of x) ths) = (if x \<in> (\<lambda>th. node_Name (kill_node th)) ` set ths then 1 else 0)"
  using assms by (induction ths) (auto simp: stop_of_def dest: kill_done)

lemma sum_reboot_of: "sum_list (map (reboot_of x) ths) \<le> length (filter (\<lambda>th. node_Name (kill_node th) = x) ths)"
  by (induction ths) (auto simp: reboot_of_def)

lemma count_distinct: "distinct (map f xs) \<Longrightarrow> length (filter (\<lambda>y. f y = x) xs) = (if x \<in> f ` set xs then 1 else 0)"
  by (induction xs) auto

lemma kill_round:
  assumes "distinct (map node_Name nodes)" and "kill env sched nodes k w = (k', w')"
  shows "nk_killedNodes k' = nk_killedNodes k \<union> node_Name ` set nodes" "nk_config k' = nk_config k"
    and "event_count stopServices x (nk_events k') = event_count stopServices x (nk_events k) + (if x \<in> node_Name ` set nodes then 1 else 0)"
    and "event_count rebootNode x (nk_events k') \<le> event_count rebootNode x (nk_events k) + (if x \<in> node_Name ` set nodes then 1 else 0)"
proof -
  obtain ths evs where wg: "wait_group (kill_step env) kill_rank sched (map KStart nodes) (nk_events k, w) = (ths, evs, w')"
      and k': "k' = k\<lparr>nk_killedNodes := nk_killedNodes k \<union> node_Name ` set nodes, nk_events := evs\<rparr>"
    using assms(2) by (auto simp: kill_def split: prod.splits)
  have init: "kill_inv nodes (nk_events k) (map KStart nodes) (nk_events k, w)"
    by (simp add: kill_inv_def comp_def stop_of_def reboot_of_def)
  have inv: "kill_inv nodes (nk_events k) ths (evs, w')" and fin: "\<forall>th \<in> set ths. kill_rank th = 0"
    using killers.wait_group_result [where P = "kill_inv nodes (nk_events k)", OF wg init] by (auto intro: kill_inv_step)
  have nodes: "nodes = map kill_node ths" using inv by (simp add: kill_inv_def)
  have dist: "distinct (map (\<lambda>th. node_Name (kill_node th)) ths)" using assms(1) by (simp add: nodes comp_def)
  show "nk_killedNodes k' = nk_killedNodes k \<union> node_Name ` set nodes" "nk_config k' = nk_config k" by (simp_all add: k')
  show "event_count stopServices x (nk_events k') = event_count stopServices x (nk_events k) + (if x \<in> node_Name ` set nodes then 1 else 0)"
    using inv sum_stop_of_done [OF fin dist, of x] by (simp add: kill_inv_def k' nodes image_image)
  show "event_count rebootNode x (nk_events k') \<le> event_count rebootNode x (nk_events k) + (if x \<in> node_Name ` set nodes then 1 else 0)"
    using inv sum_reboot_of [of x ths] count_distinct [OF dist, of x] by (simp add: kill_inv_def k' nodes image_image)
qed

lemma eligible_loop_filter:
  "eligible_loop P K nodes acc = acc @ filter (\<lambda>n. node_Name n \<notin> P \<and> node_Name n \<notin> K) nodes"
  by (induction nodes arbitrary: acc) auto

text \<open>The API server lists a node once, and a shuffle permutes.\<close>

definition listing_doc :: "('s, 'w) killer_env \<Rightarrow> bool" where
  "listing_doc env \<longleftrightarrow> (\<forall>s s' nodes. ListNodes (kl_lib env) (kl_client env) s = (s', nodes, None) \<longrightarrow> distinct (map node_Name nodes))"

definition shuffle_doc :: "(Node list \<Rightarrow> Node list) \<Rightarrow> bool" where
  "shuffle_doc shuffle \<longleftrightarrow> (\<forall>xs. mset (shuffle xs) = mset xs)"

lemma GetSchedulableUntainedNodes_distinct:
  assumes "listing_doc env" and "GetSchedulableUntainedNodes (kl_lib env) (kl_client env) s = (s', nodes, None)"
  shows "distinct (map node_Name nodes)"
proof -
  obtain s1 all e where l: "ListNodes (kl_lib env) (kl_client env) s = (s1, all, e)" by (cases "ListNodes (kl_lib env) (kl_client env) s")
  have fold: "foldl (\<lambda>acc n. if P n then acc @ [n] else acc) acc xs = acc @ filter P xs" for P and acc xs :: "Node list"
    by (induction xs arbitrary: acc) auto
  have "e = None" "nodes = filter IsNodeSchedulableAndUntainted all"
    using assms(2) l by (auto simp: GetSchedulableUntainedNodes_def fold split: option.splits)
  then show ?thesis using assms(1) l by (auto simp: listing_doc_def intro: distinct_map_filter)
qed

lemma shuffle_facts:
  assumes "shuffle_doc shuffle"
  shows "set (shuffle xs) = set xs" "length (shuffle xs) = length xs" "distinct (map f (shuffle xs)) \<longleftrightarrow> distinct (map f xs)"
proof -
  have m: "mset (shuffle xs) = mset xs" using assms by (simp add: shuffle_doc_def)
  show "set (shuffle xs) = set xs" using m by (rule mset_eq_setD)
  show "length (shuffle xs) = length xs" using m by (rule mset_eq_length)
  have "mset (map f (shuffle xs)) = mset (map f xs)" using m by simp
  then show "distinct (map f (shuffle xs)) \<longleftrightarrow> distinct (map f xs)" by (rule mset_eq_imp_distinct_iff)
qed

lemma pickNodes_eligible:
  assumes "listing_doc env" and sh: "shuffle_doc shuffle" and "pickNodes env shuffle k s = Some (s', nodes, None)"
  shows "distinct (map node_Name nodes)" "node_Name ` set nodes \<inter> nk_killedNodes k = {}"
proof -
  obtain s1 all e1 where g: "GetSchedulableUntainedNodes (kl_lib env) (kl_client env) s = (s1, all, e1)"
    by (cases "GetSchedulableUntainedNodes (kl_lib env) (kl_client env) s")
  obtain s2 pods e2 where p: "ListPodsWithOptions (kl_lib env) (kl_client env) ''monitoring'' \<lparr>lo_LabelSelector = ''prometheus=k8s'', lo_FieldSelector = []\<rparr> s1 = (s2, pods, e2)"
    by (cases "ListPodsWithOptions (kl_lib env) (kl_client env) ''monitoring'' \<lparr>lo_LabelSelector = ''prometheus=k8s'', lo_FieldSelector = []\<rparr> s1")
  define el where "el = shuffle (filter (\<lambda>n. node_Name n \<notin> prometheus_nodes pods {} \<and> node_Name n \<notin> nk_killedNodes k) all)"
  have e: "e1 = None" "e2 = None" "\<exists>m. nodes = take m el \<or> nodes = el"
    using assms(3) g p by (auto simp: pickNodes_def eligible_loop_filter el_def Let_def split: option.splits if_splits)
  then obtain m where m: "nodes = take m el" by (metis take_all_iff order_refl)
  have "distinct (map node_Name el)"
    unfolding el_def shuffle_facts(3) [OF sh]
    using GetSchedulableUntainedNodes_distinct [OF assms(1)] g e(1) by (simp add: distinct_map_filter)
  then show "distinct (map node_Name nodes)" by (simp add: m take_map [symmetric])
  have "set nodes \<subseteq> set el" using m by (simp add: set_take_subset)
  then show "node_Name ` set nodes \<inter> nk_killedNodes k = {}" by (auto simp: el_def shuffle_facts(1) [OF sh])
qed


subsection \<open>All rounds\<close>

definition killer_inv :: "string set \<Rightarrow> NodeKiller \<Rightarrow> bool" where
  "killer_inv excluded k \<longleftrightarrow>
     (\<forall>x. event_count stopServices x (nk_events k) \<le> 1
        \<and> event_count rebootNode x (nk_events k) \<le> event_count stopServices x (nk_events k))
     \<and> (\<forall>x \<in> excluded. event_count stopServices x (nk_events k) = 0)
     \<and> nk_killedNodes k = excluded \<union> {x. 0 < event_count stopServices x (nk_events k)}"

lemma killer_inv_round:
  assumes "killer_inv excluded k" and "distinct (map node_Name nodes)" and "node_Name ` set nodes \<inter> nk_killedNodes k = {}"
    and "kill env sched nodes k w = (k', w')"
  shows "killer_inv excluded k'"
proof -
  let ?c = "\<lambda>a x k. event_count a x (nk_events k)" and ?N = "node_Name ` set nodes"
  have one: "?c stopServices x k \<le> 1" "?c rebootNode x k \<le> ?c stopServices x k" "x \<in> excluded \<Longrightarrow> ?c stopServices x k = 0"
    and killed: "x \<in> nk_killedNodes k \<longleftrightarrow> x \<in> excluded \<or> 0 < ?c stopServices x k" for x
    using assms(1) unfolding killer_inv_def by simp_all
  have stop: "?c stopServices x k' = ?c stopServices x k + (if x \<in> ?N then 1 else 0)" for x
    by (rule kill_round(3) [OF assms(2,4)])
  have fresh: "?c stopServices x k = 0" "x \<notin> excluded" if "x \<in> ?N" for x
  proof -
    have "x \<notin> nk_killedNodes k" using that assms(3) by (simp add: disjoint_iff)
    then show "?c stopServices x k = 0" "x \<notin> excluded" unfolding killed by simp_all
  qed
  show ?thesis
    unfolding killer_inv_def
  proof (intro conjI allI ballI set_eqI)
    show "?c stopServices x k' \<le> 1" for x using stop [of x] fresh(1) [of x] one(1) [of x] by (cases "x \<in> ?N") simp_all
    show "?c rebootNode x k' \<le> ?c stopServices x k'" for x
      using kill_round(4) [OF assms(2,4), of x] stop [of x] one(2) [of x] by linarith
    show "?c stopServices x k' = 0" if "x \<in> excluded" for x
      using stop [of x] fresh(2) [of x] one(3) [OF that] that by (cases "x \<in> ?N") simp_all
    show "x \<in> nk_killedNodes k' \<longleftrightarrow> x \<in> excluded \<union> {x. 0 < ?c stopServices x k'}" for x
      unfolding kill_round(1) [OF assms(2,4)] Un_iff killed mem_Collect_eq stop [of x] by (cases "x \<in> ?N") simp_all
  qed
qed

lemma killer_Run_inv:
  assumes "listing_doc env" and "\<forall>r \<in> set rounds. shuffle_doc (fst r)" and "killer_inv excluded k"
    and "killer_Run env rounds k sw = Some (k', sw')"
  shows "killer_inv excluded k'"
  using assms(2-)
proof (induction rounds arbitrary: k sw)
  case (Cons r rounds)
  obtain shuffle sched s w where r: "r = (shuffle, sched)" "sw = (s, w)" by (cases r; cases sw)
  have sh: "shuffle_doc shuffle" "\<forall>r \<in> set rounds. shuffle_doc (fst r)" using Cons.prems(1) by (simp_all add: r)
  obtain s1 nodes err where p: "pickNodes env shuffle k s = Some (s1, nodes, err)"
    using Cons.prems(3) by (auto simp: r split: option.splits)
  show ?case
  proof (cases err)
    case None
    obtain k1 w1 where k1: "kill env sched nodes k w = (k1, w1)" by (cases "kill env sched nodes k w")
    have "killer_inv excluded k1"
      using killer_inv_round [OF Cons.prems(2) _ _ k1] pickNodes_eligible [OF assms(1) sh(1)] p None by blast
    moreover have "killer_Run env rounds k1 (s1, w1) = Some (k', sw')" using Cons.prems(3) p None k1 by (simp add: r)
    ultimately show ?thesis using Cons.IH [OF sh(2)] by blast
  next
    case (Some e)
    then have "killer_Run env rounds k (s1, w) = Some (k', sw')" using Cons.prems(3) p by (simp add: r)
    then show ?thesis using Cons.IH [OF sh(2) Cons.prems(2)] by blast
  qed
qed simp

text \<open>
  C39. Whatever the shuffles and the interleavings of the goroutines are, and however many rounds there
  are, the chaos monkey makes a node fail at most once, never one that is excluded, reboots only
  nodes it made fail, each at most once, and records as killed exactly the excluded nodes and those it made fail.
\<close>

theorem node_killer_safe:
  assumes "listing_doc env" and "\<forall>r \<in> set rounds. shuffle_doc (fst r)" and "nk_events k = []"
    and "killer_Run env rounds k sw = Some (k', sw')"
  shows "(\<forall>x. event_count stopServices x (nk_events k') \<le> 1
      \<and> event_count rebootNode x (nk_events k') \<le> event_count stopServices x (nk_events k'))
    \<and> (\<forall>x \<in> nk_killedNodes k. event_count stopServices x (nk_events k') = 0)
    \<and> nk_killedNodes k' = nk_killedNodes k \<union> {x. 0 < event_count stopServices x (nk_events k')}"
proof -
  have "killer_inv (nk_killedNodes k) k" using assms(3) by (simp add: killer_inv_def event_count_def)
  from killer_Run_inv [OF assms(1,2) this assms(4)] show ?thesis unfolding killer_inv_def .
qed

text \<open>Nothing checks the failure rate of a configuration: a negative one makes the slice expression panic.\<close>

lemma negative_rate_panics:
  assumes "GetSchedulableUntainedNodes (kl_lib env) (kl_client env) s = (s1, nodes, None)"
    and "ListPodsWithOptions (kl_lib env) (kl_client env) ''monitoring'' \<lparr>lo_LabelSelector = ''prometheus=k8s'', lo_FieldSelector = []\<rparr> s1 = (s2, pods, None)"
    and "\<And>n. f64_to_int (f64_ceil (f64_mul (nf_FailureRate (nk_config k)) (f64_of_int (int n)))) < 0"
  shows "pickNodes env shuffle k s = None"
proof -
  have "f64_to_int (f64_ceil (f64_mul (nf_FailureRate (nk_config k)) (f64_of_int (int n)))) < int n" for n
    using assms(3) [of n] by linarith
  then show ?thesis using assms by (simp add: pickNodes_def Let_def)
qed

text \<open>One round on a cluster of one node.\<close>

definition one_node_client :: "unit clientset" where
  "one_node_client = \<lparr>pods_List = (\<lambda>_ _ s. (s, Inr [])), nodes_List = (\<lambda>_ s. (s, Inr [sample_node ''a'' True])), namespaces_List = (\<lambda>s. (s, Inr [])),
     namespaces_Create = (\<lambda>_ s. (s, None)), namespaces_Delete = (\<lambda>_ s. (s, None)), namespaces_Get = (\<lambda>_ s. (s, None)),
     events_List = (\<lambda>_ _ s. (s, Inr [])), storageclasses_Delete = (\<lambda>_ s. (s, None))\<rparr>"

definition sample_killer_env :: "(unit, unit) killer_env" where
  "sample_killer_env = \<lparr>kl_lib = sample_lib, kl_client = one_node_client, kl_Exec = (\<lambda>_ _ w. (w, None)), kl_Now = int\<rparr>"

definition sample_killer :: NodeKiller where
  "sample_killer = \<lparr>nk_config = \<lparr>nf_FailureRate = Fin 1, nf_Interval = 1, nf_JitterFactor = Fin 0, nf_SimulatedDowntime = 1\<rparr>,
     nk_killedNodes = {''z''}, nk_events = []\<rparr>"

lemma one_node_checks:
  "checks 6 cond s = (case cond s of (s', ok, err) \<Rightarrow> if err \<noteq> None \<or> ok then (s', err) else checks 5 cond s')"
  for cond and s :: "unit call_state"
  using checks.simps(2) [of 5 cond s] by simp

lemma one_node_lists:
  "ListNodes sample_lib one_node_client s = (s, [sample_node ''a'' True], None)"
  "ListPodsWithOptions sample_lib one_node_client ns opts s = (s, [], None)"
  by (simp_all add: ListNodes_def ListNodesWithOptions_def ListPodsWithOptions_def RetryWithExponentialBackOff_checks [OF backoff_doc_sample]
      RetryFunction_cases list_call_def one_node_client_def one_node_checks)

lemma one_node_rate: "f64_to_int (f64_ceil (f64_mul (Fin 1) (f64_of_int 1))) = 1"
proof -
  have "f64_of_int 1 = Fin 1" using f64_of_int_exact [of 1] by simp
  then have "f64_of_int 1 = Fin 1" "f64_round 1 = Fin 1" by (simp_all add: f64_of_int_def)
  then show ?thesis by (simp add: rat_trunc_def Let_def)
qed

lemma one_node_schedulable: "IsNodeSchedulableAndUntainted (sample_node ''a'' True)"
  by code_simp

lemma one_node_listing: "GetSchedulableUntainedNodes sample_lib one_node_client s = (s, [sample_node ''a'' True], None)"
  by (simp add: GetSchedulableUntainedNodes_def one_node_lists one_node_schedulable)

lemma sample_pick: "pickNodes sample_killer_env id sample_killer s = Some (s, [sample_node ''a'' True], None)"
proof -
  have name: "node_Name (sample_node ''a'' True) = ''a''" by (simp add: sample_node_def)
  show ?thesis
    by (simp add: pickNodes_def sample_killer_env_def one_node_listing one_node_lists sample_killer_def name one_node_rate)
qed

theorem node_killer_safe_witness:
  "\<exists>k'. killer_Run sample_killer_env [(id, [])] sample_killer ((), ()) = Some (k', (), ())
     \<and> nk_killedNodes k' = {''z''} \<union> {x. 0 < event_count stopServices x (nk_events k')}
     \<and> event_count rebootNode ''a'' (nk_events k') = 1 \<and> event_count stopServices ''z'' (nk_events k') = 0"
proof -
  obtain k' where k': "kill sample_killer_env [] [sample_node ''a'' True] sample_killer () = (k', ())"
    by (cases "kill sample_killer_env [] [sample_node ''a'' True] sample_killer ()") simp
  have run: "killer_Run sample_killer_env [(id, [])] sample_killer ((), ()) = Some (k', (), ())"
    using k' by (simp add: sample_pick)
  have "listing_doc sample_killer_env" by (simp add: listing_doc_def sample_killer_env_def one_node_lists)
  moreover have "\<forall>r \<in> set [(id, [] :: nat list)]. shuffle_doc (fst r)" by (simp add: shuffle_doc_def)
  moreover have "nk_events sample_killer = []" "nk_killedNodes sample_killer = {''z''}" by (simp_all add: sample_killer_def)
  moreover have "event_count rebootNode ''a'' (nk_events k') = 1"
    using k' by (auto simp: kill_def wait_group_def finishing_schedule_def Let_def sample_killer_env_def sample_killer_def
        event_count_def record_event_def sample_node_def eval_nat_numeral)
  ultimately show ?thesis using run node_killer_safe [OF _ _ _ run] by (intro exI [of _ k']) simp
qed

end
