(* ===== verification/Indexer.thy ===== *)
theory Indexer
  imports Go_Errors
begin

text \<open>
  \<open>pkg/measurement/util/controlled_pods_indexer.go\<close>: the pods of a controller, found through the
  indices of two informers. An object is what the code reads of it (\<open>meta_object\<close>); the argument of a
  delete handler is an object or a tombstone, \<open>cache.DeletedFinalStateUnknown\<close>, whose metadata
  \<open>meta.Accessor\<close> refuses.

  The informers are the environment: an informer stores a change of the cluster and queues a
  notification, and a handler runs later, one notification at a time in the order of the changes.
  The step relation \<open>idx_step\<close> interleaves the changes and the handlers of both informers.
\<close>

record meta_object =
  mo_Key :: string
  mo_UID :: string
  mo_Controller :: "(string \<times> string) option"

datatype iobj = IObj meta_object | ITombstone string meta_object

text \<open>The pods informer's store, the indexer of the ReplicaSets and the ReplicaSets whose removal is postponed.\<close>

record ControlledPodsIndexer =
  podsIndexer :: "(string, meta_object) go_map"
  rsIndexer :: "(string, meta_object) go_map"
  rsPendingDeletion :: "(string, bool) go_map"

definition NewControlledPodsIndexer :: ControlledPodsIndexer where
  "NewControlledPodsIndexer = \<lparr>podsIndexer = [], rsIndexer = [], rsPendingDeletion = []\<rparr>"

fun getControllerInfo :: "iobj \<Rightarrow> string \<times> string" where
  "getControllerInfo (IObj m) = (case mo_Controller m of None \<Rightarrow> ([], []) | Some (uid, kind) \<Rightarrow> (uid, kind))"
| "getControllerInfo (ITombstone _ _) = ([], [])"

fun getObjUID :: "iobj \<Rightarrow> string" where
  "getObjUID (IObj m) = mo_UID m"
| "getObjUID (ITombstone _ _) = []"

fun deletionHandlingUIDKeyFunc :: "iobj \<Rightarrow> string" where
  "deletionHandlingUIDKeyFunc (ITombstone key _) = key"
| "deletionHandlingUIDKeyFunc (IObj m) = getObjUID (IObj m)"

definition controllerUIDIndexFunc :: "meta_object \<Rightarrow> string list" where
  "controllerUIDIndexFunc m = (case mo_Controller m of None \<Rightarrow> [] | Some (uid, _) \<Rightarrow> [uid])"

text \<open>\<open>ByIndex\<close> of \<open>cache.Indexer\<close>.\<close>

definition ByIndex :: "(string, meta_object) go_map \<Rightarrow> string \<Rightarrow> meta_object list" where
  "ByIndex store uid = filter (\<lambda>m. uid \<in> set (controllerUIDIndexFunc m)) (map snd store)"

definition appendPodsControlledBy :: "ControlledPodsIndexer \<Rightarrow> meta_object list \<Rightarrow> string \<Rightarrow> meta_object list" where
  "appendPodsControlledBy p res uid = res @ ByIndex (podsIndexer p) uid"

definition clearRSDataIfPossibleLocked :: "ControlledPodsIndexer \<Rightarrow> string \<Rightarrow> ControlledPodsIndexer" where
  "clearRSDataIfPossibleLocked p rsUID =
     (if map_of (rsPendingDeletion p) rsUID \<noteq> Some True then p
      else if length (appendPodsControlledBy p [] rsUID) \<noteq> 0 then p
      else (let p1 = p\<lparr>rsPendingDeletion := AList.delete rsUID (rsPendingDeletion p)\<rparr>
            in case map_of (rsIndexer p) rsUID of
                 None \<Rightarrow> p1
               | Some obj \<Rightarrow> p1\<lparr>rsIndexer := AList.delete (deletionHandlingUIDKeyFunc (IObj obj)) (rsIndexer p)\<rparr>))"

datatype notification = Added meta_object | Updated meta_object meta_object | Deleted iobj

text \<open>The handlers registered with the informer of the pods; it has none for an added pod.\<close>

fun pod_handler :: "notification \<Rightarrow> ControlledPodsIndexer \<Rightarrow> ControlledPodsIndexer" where
  "pod_handler (Added obj) cpi = cpi"
| "pod_handler (Updated oldObj newObj) cpi =
     (let oldOwnerUID = fst (getControllerInfo (IObj oldObj)); newOwnerUID = fst (getControllerInfo (IObj newObj))
      in if oldOwnerUID = newOwnerUID then cpi else clearRSDataIfPossibleLocked cpi oldOwnerUID)"
| "pod_handler (Deleted obj) cpi = clearRSDataIfPossibleLocked cpi (fst (getControllerInfo obj))"

fun rs_handler :: "notification \<Rightarrow> ControlledPodsIndexer \<Rightarrow> ControlledPodsIndexer" where
  "rs_handler (Added obj) cpi =
     cpi\<lparr>rsIndexer := AList.update (deletionHandlingUIDKeyFunc (IObj obj)) obj (rsIndexer cpi)\<rparr>"
| "rs_handler (Updated _ newObj) cpi =
     cpi\<lparr>rsIndexer := AList.update (deletionHandlingUIDKeyFunc (IObj newObj)) newObj (rsIndexer cpi)\<rparr>"
| "rs_handler (Deleted obj) cpi =
     (let rsUID = getObjUID obj
      in clearRSDataIfPossibleLocked (cpi\<lparr>rsPendingDeletion := AList.update rsUID True (rsPendingDeletion cpi)\<rparr>) rsUID)"

fun pods_loop :: "ControlledPodsIndexer \<Rightarrow> string list \<Rightarrow> meta_object list \<Rightarrow> meta_object list" where
  "pods_loop p [] res = res"
| "pods_loop p (podOwner # podOwners) res = pods_loop p podOwners (appendPodsControlledBy p res podOwner)"

definition PodsControlledBy :: "ControlledPodsIndexer \<Rightarrow> string \<Rightarrow> meta_object \<Rightarrow> meta_object list" where
  "PodsControlledBy p kind obj =
     (let podOwners = (if kind = ''Deployment'' then map mo_UID (ByIndex (rsIndexer p) (mo_UID obj)) else [mo_UID obj])
      in pods_loop p podOwners [])"

subsection \<open>The informers\<close>

record idx_sys =
  cpi :: ControlledPodsIndexer
  podEvents :: "notification list"
  rsEvents :: "notification list"
  liveRS :: "string \<rightharpoonup> meta_object"
  usedUIDs :: "string set"

definition idx_init :: idx_sys where
  "idx_init = \<lparr>cpi = NewControlledPodsIndexer, podEvents = [], rsEvents = [], liveRS = Map.empty, usedUIDs = {}\<rparr>"

abbreviation set_pods :: "(string, meta_object) go_map \<Rightarrow> idx_sys \<Rightarrow> idx_sys" where
  "set_pods m s \<equiv> s\<lparr>cpi := (cpi s)\<lparr>podsIndexer := m\<rparr>\<rparr>"

text \<open>The flag says whether an informer may miss a deletion and deliver a tombstone. A UID is never used again.\<close>

inductive idx_step :: "bool \<Rightarrow> idx_sys \<Rightarrow> idx_sys \<Rightarrow> bool" for tombstones where
  PodAdd: "map_of (podsIndexer (cpi s)) (mo_Key o') = None \<Longrightarrow>
    idx_step tombstones s (set_pods (AList.update (mo_Key o') o' (podsIndexer (cpi s))) s\<lparr>podEvents := podEvents s @ [Added o']\<rparr>)"
| PodUpdate: "map_of (podsIndexer (cpi s)) (mo_Key o') = Some old \<Longrightarrow>
    idx_step tombstones s (set_pods (AList.update (mo_Key o') o' (podsIndexer (cpi s))) s\<lparr>podEvents := podEvents s @ [Updated old o']\<rparr>)"
| PodDelete: "map_of (podsIndexer (cpi s)) k = Some old \<Longrightarrow>
    idx_step tombstones s (set_pods (AList.delete k (podsIndexer (cpi s))) s\<lparr>podEvents := podEvents s @ [Deleted (IObj old)]\<rparr>)"
| PodLost: "tombstones \<Longrightarrow> map_of (podsIndexer (cpi s)) k = Some old \<Longrightarrow>
    idx_step tombstones s (set_pods (AList.delete k (podsIndexer (cpi s))) s\<lparr>podEvents := podEvents s @ [Deleted (ITombstone k old)]\<rparr>)"
| PodHandle: "podEvents s = e # es \<Longrightarrow> idx_step tombstones s (s\<lparr>cpi := pod_handler e (cpi s), podEvents := es\<rparr>)"
| RSAdd: "mo_UID o' \<notin> usedUIDs s \<Longrightarrow> mo_UID o' \<noteq> [] \<Longrightarrow>
    idx_step tombstones s (s\<lparr>liveRS := (liveRS s)(mo_UID o' \<mapsto> o'), usedUIDs := insert (mo_UID o') (usedUIDs s), rsEvents := rsEvents s @ [Added o']\<rparr>)"
| RSUpdate: "liveRS s (mo_UID o') = Some old \<Longrightarrow>
    idx_step tombstones s (s\<lparr>liveRS := (liveRS s)(mo_UID o' \<mapsto> o'), rsEvents := rsEvents s @ [Updated old o']\<rparr>)"
| RSDelete: "liveRS s u = Some old \<Longrightarrow>
    idx_step tombstones s (s\<lparr>liveRS := (liveRS s)(u := None), rsEvents := rsEvents s @ [Deleted (IObj old)]\<rparr>)"
| RSLost: "tombstones \<Longrightarrow> liveRS s u = Some old \<Longrightarrow>
    idx_step tombstones s (s\<lparr>liveRS := (liveRS s)(u := None), rsEvents := rsEvents s @ [Deleted (ITombstone (mo_Key old) old)]\<rparr>)"
| RSHandle: "rsEvents s = e # es \<Longrightarrow> idx_step tombstones s (s\<lparr>cpi := rs_handler e (cpi s), rsEvents := es\<rparr>)"

abbreviation idx_reachable :: "bool \<Rightarrow> idx_sys \<Rightarrow> bool" where
  "idx_reachable tombstones s \<equiv> (idx_step tombstones)\<^sup>*\<^sup>* idx_init s"

subsection \<open>Effect of the operations\<close>

abbreviation is_pending :: "ControlledPodsIndexer \<Rightarrow> string \<Rightarrow> bool" where
  "is_pending p u \<equiv> map_of (rsPendingDeletion p) u = Some True"

definition controls :: "string \<Rightarrow> meta_object \<Rightarrow> bool" where
  "controls u m \<longleftrightarrow> u \<in> set (controllerUIDIndexFunc m)"

lemma controls_owner: "u \<noteq> [] \<Longrightarrow> controls u m \<longleftrightarrow> fst (getControllerInfo (IObj m)) = u"
  by (auto simp: controls_def controllerUIDIndexFunc_def split: option.splits)

lemma ByIndex_Nil:
  assumes "distinct (map fst st)"
  shows "ByIndex st u = [] \<longleftrightarrow> (\<forall>k m. map_of st k = Some m \<longrightarrow> \<not> controls u m)"
  using assms by (auto simp: ByIndex_def controls_def filter_empty_conv dest: map_of_SomeD)

lemma ByIndex_update:
  assumes "distinct (map fst st)" and "ByIndex st u \<noteq> []" and "\<And>m. map_of st k = Some m \<Longrightarrow> controls u m \<Longrightarrow> controls u o'"
  shows "ByIndex (AList.update k o' st) u \<noteq> []"
proof -
  obtain k' m where m: "map_of st k' = Some m" "controls u m" using assms(2) by (auto simp: ByIndex_Nil [OF assms(1)])
  have "\<exists>j x. map_of (AList.update k o' st) j = Some x \<and> controls u x"
  proof (cases "k' = k")
    case True
    then show ?thesis using m assms(3) by (intro exI [of _ k] exI [of _ o']) simp
  qed (use m in \<open>intro exI [of _ k'] exI [of _ m], simp\<close>)
  then show ?thesis using ByIndex_Nil [OF distinct_update [OF assms(1)]] by blast
qed

lemma ByIndex_delete:
  assumes "distinct (map fst st)" and "ByIndex st u \<noteq> []" and "\<And>m. map_of st k = Some m \<Longrightarrow> \<not> controls u m"
  shows "ByIndex (AList.delete k st) u \<noteq> []"
proof -
  obtain k' m where m: "map_of st k' = Some m" "controls u m" using assms(2) by (auto simp: ByIndex_Nil [OF assms(1)])
  then have "k' \<noteq> k" using assms(3) by blast
  then show ?thesis using ByIndex_Nil [OF distinct_delete [OF assms(1)]] m by auto
qed

definition uid_keyed :: "ControlledPodsIndexer \<Rightarrow> bool" where
  "uid_keyed p \<longleftrightarrow> (\<forall>u m. map_of (rsIndexer p) u = Some m \<longrightarrow> mo_UID m = u)"

lemma clear_pods [simp]: "podsIndexer (clearRSDataIfPossibleLocked p u) = podsIndexer p"
  by (simp add: clearRSDataIfPossibleLocked_def Let_def split: option.split)

lemma clear_pending:
  "is_pending (clearRSDataIfPossibleLocked p u) v \<longleftrightarrow> is_pending p v \<and> \<not> (v = u \<and> ByIndex (podsIndexer p) u = [])"
  by (auto simp: clearRSDataIfPossibleLocked_def appendPodsControlledBy_def Let_def split: option.split)

lemma clear_rs:
  assumes "uid_keyed p"
  shows "map_of (rsIndexer (clearRSDataIfPossibleLocked p u)) v =
    (if v = u \<and> is_pending p u \<and> ByIndex (podsIndexer p) u = [] then None else map_of (rsIndexer p) v)"
  using assms
  by (auto simp: clearRSDataIfPossibleLocked_def appendPodsControlledBy_def uid_keyed_def Let_def split: option.split)

text \<open>A ReplicaSet is cleared by a pod notification only when that notification takes a pod away from it.\<close>

fun releases :: "notification \<Rightarrow> string \<Rightarrow> bool" where
  "releases (Added _) u = False"
| "releases (Updated old new) u = (fst (getControllerInfo (IObj old)) = u \<and> fst (getControllerInfo (IObj new)) \<noteq> u)"
| "releases (Deleted obj) u = (fst (getControllerInfo obj) = u)"

lemma pod_handler_pods [simp]: "podsIndexer (pod_handler e p) = podsIndexer p"
  by (cases e) (simp_all add: Let_def)

lemma pod_handler_pending:
  "is_pending (pod_handler e p) v \<longleftrightarrow> is_pending p v \<and> \<not> (releases e v \<and> ByIndex (podsIndexer p) v = [])"
  by (cases e) (auto simp: Let_def clear_pending)

lemma pod_handler_rs:
  "uid_keyed p \<Longrightarrow> map_of (rsIndexer (pod_handler e p)) v =
    (if releases e v \<and> is_pending p v \<and> ByIndex (podsIndexer p) v = [] then None else map_of (rsIndexer p) v)"
  by (cases e) (auto simp: Let_def clear_rs)

fun note_uid :: "notification \<Rightarrow> string" where
  "note_uid (Added m) = mo_UID m"
| "note_uid (Updated _ m) = mo_UID m"
| "note_uid (Deleted obj) = getObjUID obj"

fun note_new :: "notification \<Rightarrow> meta_object option" where
  "note_new (Added m) = Some m"
| "note_new (Updated _ m) = Some m"
| "note_new (Deleted _) = None"

lemma rs_handler_pods [simp]: "podsIndexer (rs_handler e p) = podsIndexer p"
  by (cases e) (simp_all add: Let_def)

lemma rs_handler_pending:
  "is_pending (rs_handler e p) v \<longleftrightarrow>
     (if note_new e = None \<and> note_uid e = v then ByIndex (podsIndexer p) v \<noteq> [] else is_pending p v)"
  by (cases e) (auto simp: Let_def clear_pending)

lemma rs_handler_rs:
  assumes "uid_keyed p"
  shows "map_of (rsIndexer (rs_handler e p)) v =
    (if note_uid e \<noteq> v then map_of (rsIndexer p) v
     else case note_new e of
       Some m \<Rightarrow> Some m
     | None \<Rightarrow> if ByIndex (podsIndexer p) v = [] then None else map_of (rsIndexer p) v)"
proof (cases e)
  case (Deleted obj)
  have "uid_keyed (p\<lparr>rsPendingDeletion := m\<rparr>)" for m using assms by (simp add: uid_keyed_def)
  then show ?thesis using Deleted by (auto simp: Let_def clear_rs)
qed auto

lemma pod_handler_keyed: "uid_keyed p \<Longrightarrow> uid_keyed (pod_handler e p)"
  by (subst uid_keyed_def) (auto simp: pod_handler_rs uid_keyed_def split: if_splits)

lemma note_new_uid: "note_new e = Some m \<Longrightarrow> mo_UID m = note_uid e"
  by (cases e) auto

lemma rs_handler_keyed:
  assumes "uid_keyed p"
  shows "uid_keyed (rs_handler e p)"
  unfolding uid_keyed_def rs_handler_rs [OF assms]
  using assms by (auto simp: uid_keyed_def note_new_uid split: if_splits option.splits)

subsection \<open>The invariant\<close>

text \<open>
  The part of the state that belongs to one ReplicaSet: the object while it exists, its entry in the
  indexer, whether its removal is postponed, and the notifications about it that are still queued.
\<close>

definition replay :: "meta_object option \<Rightarrow> notification list \<Rightarrow> meta_object option" where
  "replay m es = (if es = [] then m else note_new (last es))"

definition rs_ok :: "meta_object option \<Rightarrow> meta_object option \<Rightarrow> bool \<Rightarrow> notification list \<Rightarrow> bool" where
  "rs_ok live entry pending es \<longleftrightarrow>
     (\<forall>e \<in> set (butlast es). note_new e \<noteq> None) \<and>
     (es \<noteq> [] \<and> note_new (hd es) = None \<longrightarrow> entry \<noteq> None) \<and>
     (case live of
        Some m \<Rightarrow> \<not> pending \<and> replay entry es = Some m
      | None \<Rightarrow> (if es = [] then (entry \<noteq> None) = pending else \<not> pending \<and> note_new (last es) = None))"

definition rs_inv :: "idx_sys \<Rightarrow> bool" where
  "rs_inv s \<longleftrightarrow> uid_keyed (cpi s) \<and> [] \<notin> usedUIDs s
     \<and> (\<forall>u m. liveRS s u = Some m \<longrightarrow> mo_UID m = u \<and> u \<in> usedUIDs s)
     \<and> (\<forall>u. u \<notin> usedUIDs s \<longrightarrow> map_of (rsIndexer (cpi s)) u = None \<and> \<not> is_pending (cpi s) u
            \<and> (\<forall>e \<in> set (rsEvents s). note_uid e \<noteq> u))
     \<and> (\<forall>u. rs_ok (liveRS s u) (map_of (rsIndexer (cpi s)) u) (is_pending (cpi s) u)
            (filter (\<lambda>e. note_uid e = u) (rsEvents s)))"

definition pods_inv :: "idx_sys \<Rightarrow> bool" where
  "pods_inv s \<longleftrightarrow> distinct (map fst (podsIndexer (cpi s)))
     \<and> (\<forall>u. is_pending (cpi s) u \<longrightarrow> ByIndex (podsIndexer (cpi s)) u \<noteq> [] \<or> (\<exists>e \<in> set (podEvents s). releases e u))"

lemma rs_inv_init: "rs_inv idx_init"
  by (auto simp: rs_inv_def rs_ok_def replay_def idx_init_def NewControlledPodsIndexer_def uid_keyed_def)

lemma rs_ok_push:
  assumes "rs_ok live entry pending es" and "note_new e = live'" and "live \<noteq> None \<or> (es = [] \<and> \<not> pending \<and> live' \<noteq> None)"
  shows "rs_ok live' entry pending (es @ [e])"
proof -
  have "\<forall>x \<in> set es. note_new x \<noteq> None"
  proof (cases "es = []")
    case False
    then have "es = butlast es @ [last es]" by simp
    moreover have "note_new (last es) \<noteq> None" using False assms(1,3) by (auto simp: rs_ok_def replay_def split: option.splits)
    ultimately show ?thesis using assms(1) unfolding rs_ok_def by (metis Un_iff empty_iff insert_iff list.set(1,2) set_append)
  qed simp
  moreover from this have "\<forall>x \<in> set es. note_new x \<noteq> None \<or> x \<noteq> hd es" by simp
  ultimately show ?thesis using assms by (cases es) (auto simp: rs_ok_def replay_def split: option.splits)
qed

lemma rs_ok_pop:
  assumes "rs_ok live entry pending (e # es)"
    and "entry' = (case note_new e of Some m \<Rightarrow> Some m | None \<Rightarrow> if free then None else entry)"
    and "pending' = (if note_new e = None then \<not> free else pending)"
  shows "rs_ok live entry' pending' es"
  using assms by (cases "es = []") (auto simp: rs_ok_def replay_def split: option.splits if_splits)


lemma rs_ok_release: "rs_ok live entry True es \<Longrightarrow> rs_ok live None False es"
  by (auto simp: rs_ok_def split: option.splits if_splits)

lemma rs_ok_fresh: "rs_ok (Some m) None False [Added m]"
  by (simp add: rs_ok_def replay_def)

lemma rs_inv_step:
  assumes "rs_inv s" and "idx_step False s s'"
  shows "rs_inv s'"
  using assms(2,1)
proof (cases rule: idx_step.cases)
  case (PodHandle e es)
  let ?p = "cpi s"
  have keyed: "uid_keyed ?p" using assms(1) by (simp add: rs_inv_def)
  have "rs_ok (liveRS s u) (map_of (rsIndexer (pod_handler e ?p)) u) (is_pending (pod_handler e ?p) u)
      (filter (\<lambda>e. note_uid e = u) (rsEvents s))" for u
  proof -
    have ok: "rs_ok (liveRS s u) (map_of (rsIndexer ?p) u) (is_pending ?p u) (filter (\<lambda>e. note_uid e = u) (rsEvents s))"
      using assms(1) by (simp add: rs_inv_def)
    then show ?thesis using rs_ok_release by (auto simp: pod_handler_pending pod_handler_rs [OF keyed])
  qed
  then show ?thesis using PodHandle assms(1)
    by (auto simp: rs_inv_def pod_handler_keyed pod_handler_pending pod_handler_rs [OF keyed])
next
  case (RSHandle e es)
  let ?p = "cpi s"
  have keyed: "uid_keyed ?p" using assms(1) by (simp add: rs_inv_def)
  have "rs_ok (liveRS s u) (map_of (rsIndexer (rs_handler e ?p)) u) (is_pending (rs_handler e ?p) u)
      (filter (\<lambda>e. note_uid e = u) es)" for u
  proof -
    have ok: "rs_ok (liveRS s u) (map_of (rsIndexer ?p) u) (is_pending ?p u) (filter (\<lambda>e. note_uid e = u) (e # es))"
      using assms(1) RSHandle(2) unfolding rs_inv_def by metis
    show ?thesis
    proof (cases "note_uid e = u")
      case True
      then show ?thesis using rs_ok_pop [where free = "ByIndex (podsIndexer ?p) u = []"] ok
        by (simp add: rs_handler_pending rs_handler_rs [OF keyed])
    next
      case False
      then show ?thesis using ok by (simp add: rs_handler_pending rs_handler_rs [OF keyed])
    qed
  qed
  moreover have "map_of (rsIndexer (rs_handler e ?p)) u = None \<and> \<not> is_pending (rs_handler e ?p) u \<and> (\<forall>e \<in> set es. note_uid e \<noteq> u)"
    if "u \<notin> usedUIDs s" for u
    using that assms(1) RSHandle(2) by (auto simp: rs_inv_def rs_handler_pending rs_handler_rs [OF keyed])
  ultimately show ?thesis using RSHandle assms(1) by (auto simp: rs_inv_def rs_handler_keyed)
next
  case (RSAdd o')
  then show ?thesis using assms(1) by (auto simp: rs_inv_def rs_ok_fresh)
qed (use assms(1) in \<open>auto simp: rs_inv_def uid_keyed_def intro!: rs_ok_push\<close>)


lemma pending_nonempty: "rs_inv s \<Longrightarrow> is_pending (cpi s) u \<Longrightarrow> u \<noteq> []"
  by (auto simp: rs_inv_def)

lemma pods_inv_step:
  assumes "pods_inv s" and "rs_inv s" and "idx_step False s s'"
  shows "pods_inv s'"
proof -
  let ?st = "podsIndexer (cpi s)"
  have dist: "distinct (map fst ?st)" using assms(1) by (simp add: pods_inv_def)
  have dist': "distinct (map fst (AList.update k m ?st))" "distinct (map fst (AList.delete k ?st))" for k m
    using dist by (simp_all add: distinct_update distinct_delete)
  have old: "ByIndex ?st u \<noteq> [] \<or> (\<exists>e \<in> set (podEvents s). releases e u)" if "is_pending (cpi s) u" for u
    using that assms(1) by (simp add: pods_inv_def)
  have owned: "controls u m \<longleftrightarrow> fst (getControllerInfo (IObj m)) = u" if "is_pending (cpi s) u" for u m
    using controls_owner [OF pending_nonempty [OF assms(2) that]] .
  from assms(3) show ?thesis
  proof (cases rule: idx_step.cases)
    case (PodAdd o')
    have "ByIndex (AList.update (mo_Key o') o' ?st) u \<noteq> []" if "ByIndex ?st u \<noteq> []" for u
      using that PodAdd(2) by (intro ByIndex_update [OF dist]) auto
    then show ?thesis using PodAdd old dist' by (fastforce simp: pods_inv_def)
  next
    case (PodUpdate o' m)
    have "ByIndex (AList.update (mo_Key o') o' ?st) u \<noteq> [] \<or> releases (Updated m o') u"
      if "ByIndex ?st u \<noteq> []" "is_pending (cpi s) u" for u
      using ByIndex_update [OF dist that(1), of "mo_Key o'" o'] PodUpdate(2) by (auto simp: owned [OF that(2)])
    then show ?thesis using PodUpdate old dist' unfolding pods_inv_def by (simp del: releases.simps) blast
  next
    case (PodDelete k m)
    have "ByIndex (AList.delete k ?st) u \<noteq> [] \<or> releases (Deleted (IObj m)) u"
      if "ByIndex ?st u \<noteq> []" "is_pending (cpi s) u" for u
      using ByIndex_delete [OF dist that(1), of k] PodDelete(2) by (auto simp: owned [OF that(2)])
    then show ?thesis using PodDelete old dist' unfolding pods_inv_def by (simp del: releases.simps) blast
  next
    case (PodHandle e es)
    then show ?thesis using old dist by (auto simp: pods_inv_def pod_handler_pending)
  next
    case (RSHandle e es)
    then show ?thesis using old dist by (auto simp: pods_inv_def rs_handler_pending split: if_splits)
  qed (use assms(1) in \<open>auto simp: pods_inv_def\<close>)
qed

lemma idx_reachable_inv: "idx_reachable False s \<Longrightarrow> rs_inv s \<and> pods_inv s"
proof (induction rule: rtranclp_induct)
  case base
  show ?case using rs_inv_init by (simp add: pods_inv_def idx_init_def NewControlledPodsIndexer_def)
next
  case (step s s')
  then show ?case using rs_inv_step pods_inv_step by blast
qed

lemma pods_loop_concat: "pods_loop p us res = res @ concat (map (ByIndex (podsIndexer p)) us)"
  by (induction us arbitrary: res) (simp_all add: appendPodsControlledBy_def)

lemma ByIndex_lookup:
  assumes "distinct (map fst st)"
  shows "set (ByIndex st u) = {m. \<exists>k. map_of st k = Some m \<and> controls u m}"
  using assms by (force simp: ByIndex_def controls_def dest: map_of_SomeD)

text \<open>What holds of the indexer whether or not tombstones are delivered.\<close>

definition idx_wf :: "idx_sys \<Rightarrow> bool" where
  "idx_wf s \<longleftrightarrow> uid_keyed (cpi s) \<and> distinct (map fst (rsIndexer (cpi s)))
     \<and> (\<forall>u m. liveRS s u = Some m \<longrightarrow> mo_UID m = u \<and> u \<in> usedUIDs s \<and> u \<noteq> [])"

lemma clear_distinct: "distinct (map fst (rsIndexer p)) \<Longrightarrow> distinct (map fst (rsIndexer (clearRSDataIfPossibleLocked p u)))"
  by (auto simp: clearRSDataIfPossibleLocked_def Let_def distinct_delete split: option.split)

lemma pod_handler_distinct: "distinct (map fst (rsIndexer p)) \<Longrightarrow> distinct (map fst (rsIndexer (pod_handler e p)))"
  by (cases e) (simp_all add: Let_def clear_distinct)

lemma rs_handler_distinct: "distinct (map fst (rsIndexer p)) \<Longrightarrow> distinct (map fst (rsIndexer (rs_handler e p)))"
  by (cases e) (simp_all add: Let_def clear_distinct distinct_update)

lemma uid_keyed_pods [simp]: "uid_keyed (p\<lparr>podsIndexer := m\<rparr>) = uid_keyed p"
  by (simp add: uid_keyed_def)

lemma idx_wf_step: "idx_step b s s' \<Longrightarrow> idx_wf s \<Longrightarrow> idx_wf s'"
  by (induction rule: idx_step.induct)
    (auto simp: idx_wf_def pod_handler_keyed rs_handler_keyed pod_handler_distinct rs_handler_distinct)

lemma idx_reachable_wf: "idx_reachable b s \<Longrightarrow> idx_wf s"
proof (induction rule: rtranclp_induct)
  case base
  show ?case by (simp add: idx_wf_def uid_keyed_def idx_init_def NewControlledPodsIndexer_def)
next
  case (step s s')
  then show ?case using idx_wf_step by blast
qed

lemma PodsControlledBy_Deployment:
  assumes "idx_wf s" and "distinct (map fst (podsIndexer (cpi s)))"
  shows "set (PodsControlledBy (cpi s) ''Deployment'' d) =
    {pod. \<exists>k u rs. map_of (podsIndexer (cpi s)) k = Some pod \<and> controls u pod
        \<and> map_of (rsIndexer (cpi s)) u = Some rs \<and> controls (mo_UID d) rs}"
proof -
  have "distinct (map fst (rsIndexer (cpi s)))" and keyed: "map_of (rsIndexer (cpi s)) u = Some rs \<Longrightarrow> mo_UID rs = u" for u rs
    using assms(1) by (simp_all add: idx_wf_def uid_keyed_def)
  then show ?thesis
    by (auto simp: PodsControlledBy_def pods_loop_concat ByIndex_lookup [OF assms(2)] ByIndex_lookup dest: keyed)
qed

text \<open>
  A pod of the store refers to the ReplicaSet, and steps of the informers throughout which one does.
\<close>

definition has_pod :: "string \<Rightarrow> idx_sys \<Rightarrow> bool" where
  "has_pod u s \<longleftrightarrow> (\<exists>k pod. map_of (podsIndexer (cpi s)) k = Some pod \<and> controls u pod)"

definition idx_step_with_pod :: "string \<Rightarrow> idx_sys \<Rightarrow> idx_sys \<Rightarrow> bool" where
  "idx_step_with_pod u s s' \<longleftrightarrow> idx_step False s s' \<and> has_pod u s \<and> has_pod u s'"

lemma has_pod_ByIndex: "has_pod u s \<Longrightarrow> ByIndex (podsIndexer (cpi s)) u \<noteq> []"
  by (force simp: has_pod_def ByIndex_def controls_def filter_empty_conv dest!: map_of_SomeD)

lemma retained_step:
  assumes "idx_step False s s'" and "has_pod u s" and "idx_wf s" and "map_of (rsIndexer (cpi s)) u \<noteq> None"
  shows "map_of (rsIndexer (cpi s')) u \<noteq> None"
proof -
  have keyed: "uid_keyed (cpi s)" using assms(3) by (simp add: idx_wf_def)
  from assms(1) show ?thesis
  proof (cases rule: idx_step.cases)
    case (PodHandle e es)
    then show ?thesis using assms(4) has_pod_ByIndex [OF assms(2)] by (simp add: pod_handler_rs [OF keyed])
  next
    case (RSHandle e es)
    then show ?thesis using assms(4) has_pod_ByIndex [OF assms(2)] by (simp add: rs_handler_rs [OF keyed] split: option.splits)
  qed (use assms(4) in auto)
qed

lemma retained_while_pod:
  assumes "(idx_step_with_pod u)\<^sup>*\<^sup>* s s'" and "idx_wf s" and "map_of (rsIndexer (cpi s)) u \<noteq> None"
  shows "map_of (rsIndexer (cpi s')) u \<noteq> None \<and> idx_wf s'"
  using assms(1)
proof (induction rule: rtranclp_induct)
  case (step s1 s2)
  then show ?case using retained_step idx_wf_step unfolding idx_step_with_pod_def by blast
qed (use assms(2,3) in simp)

text \<open>
  C37. The ReplicaSets of the indexer, whatever the interleaving of the two informers was, when no
  informer misses a deletion. In a state in which every notification has been handled it knows every
  ReplicaSet that exists, in its current version, and any other ReplicaSet that it knows is deleted
  and is referred to by a pod of the store: the postponed removal is never forgotten. From such a
  state on, a ReplicaSet that it knows stays known, deleted or not, for as long as a pod of the store
  refers to it, whatever the informers deliver in the meantime: the removal is postponed. The pods of
  a Deployment are those of the known ReplicaSets that it controls. (A pod that reaches the store only
  after the deletion of its ReplicaSet was handled does not bring the ReplicaSet back.)
\<close>

theorem indexer_settled:
  assumes "idx_reachable False s" and "podEvents s = []" and "rsEvents s = []"
  shows "(\<forall>u m. liveRS s u = Some m \<longrightarrow> map_of (rsIndexer (cpi s)) u = Some m)
    \<and> (\<forall>u. map_of (rsIndexer (cpi s)) u \<noteq> None \<and> liveRS s u = None \<longrightarrow> has_pod u s)
    \<and> (\<forall>u s'. map_of (rsIndexer (cpi s)) u \<noteq> None \<and> (idx_step_with_pod u)\<^sup>*\<^sup>* s s' \<longrightarrow> map_of (rsIndexer (cpi s')) u \<noteq> None)
    \<and> set (PodsControlledBy (cpi s) ''Deployment'' d) =
        {pod. \<exists>k u rs. map_of (podsIndexer (cpi s)) k = Some pod \<and> controls u pod
            \<and> map_of (rsIndexer (cpi s)) u = Some rs \<and> controls (mo_UID d) rs}"
proof -
  have inv: "rs_inv s" "pods_inv s" using idx_reachable_inv [OF assms(1)] by simp_all
  have ok: "rs_ok (liveRS s u) (map_of (rsIndexer (cpi s)) u) (is_pending (cpi s) u) []" for u
    using inv(1) assms(3) by (simp add: rs_inv_def)
  have dist: "distinct (map fst (podsIndexer (cpi s)))" using inv(2) by (simp add: pods_inv_def)
  have wf: "idx_wf s" using idx_reachable_wf [OF assms(1)] .
  have "liveRS s u = Some m \<Longrightarrow> map_of (rsIndexer (cpi s)) u = Some m" for u m
    using ok [of u] by (simp add: rs_ok_def replay_def)
  moreover have "has_pod u s" if u: "map_of (rsIndexer (cpi s)) u \<noteq> None" "liveRS s u = None" for u
  proof -
    have "is_pending (cpi s) u" using ok [of u] u by (simp add: rs_ok_def)
    then have "ByIndex (podsIndexer (cpi s)) u \<noteq> []" using inv(2) assms(2) by (simp add: pods_inv_def)
    then show ?thesis by (auto simp: has_pod_def ByIndex_Nil [OF dist])
  qed
  ultimately show ?thesis using PodsControlledBy_Deployment [OF wf dist] retained_while_pod [OF _ wf] by blast
qed

text \<open>A ReplicaSet that was deleted while it had a pod, in the state where all notifications are handled.\<close>

definition sample_rs :: meta_object where
  "sample_rs = \<lparr>mo_Key = ''ns/rs'', mo_UID = ''r1'', mo_Controller = Some (''d1'', ''Deployment'')\<rparr>"

definition sample_pod :: meta_object where
  "sample_pod = \<lparr>mo_Key = ''ns/pod'', mo_UID = ''p1'', mo_Controller = Some (''r1'', ''ReplicaSet'')\<rparr>"

definition sample_settled :: idx_sys where
  "sample_settled = \<lparr>cpi = \<lparr>podsIndexer = [(''ns/pod'', sample_pod)], rsIndexer = [(''r1'', sample_rs)], rsPendingDeletion = [(''r1'', True)]\<rparr>,
     podEvents = [], rsEvents = [], liveRS = Map.empty, usedUIDs = {''r1''}\<rparr>"

lemmas idx_sample_simps = idx_init_def NewControlledPodsIndexer_def sample_rs_def sample_pod_def

definition sample_live :: idx_sys where
  "sample_live = \<lparr>cpi = \<lparr>podsIndexer = [], rsIndexer = [(''r1'', sample_rs)], rsPendingDeletion = []\<rparr>,
    podEvents = [], rsEvents = [], liveRS = [''r1'' \<mapsto> sample_rs], usedUIDs = {''r1''}\<rparr>"

lemma sample_live_reachable: "idx_reachable b sample_live"
proof -
  let ?a = "\<lparr>cpi = NewControlledPodsIndexer, podEvents = [], rsEvents = [Added sample_rs], liveRS = [''r1'' \<mapsto> sample_rs], usedUIDs = {''r1''}\<rparr>"
  have "idx_step b idx_init ?a" using RSAdd [of sample_rs idx_init b] by (simp add: idx_sample_simps)
  moreover have "idx_step b ?a sample_live" using RSHandle [of ?a "Added sample_rs" "[]" b] by (simp add: idx_sample_simps sample_live_def)
  ultimately show ?thesis by (meson converse_rtranclp_into_rtranclp rtranclp.rtrancl_refl)
qed

lemma idx_step_eq: "idx_step b s t \<Longrightarrow> t = t' \<Longrightarrow> idx_step b s t'"
  by simp

lemma sample_settled_reachable: "idx_reachable False sample_settled"
proof -
  let ?c = "\<lparr>podsIndexer = [(''ns/pod'', sample_pod)], rsIndexer = [(''r1'', sample_rs)], rsPendingDeletion = []\<rparr>"
  let ?a = "\<lparr>cpi = ?c, podEvents = [Added sample_pod], rsEvents = [], liveRS = [''r1'' \<mapsto> sample_rs], usedUIDs = {''r1''}\<rparr>"
  let ?b = "\<lparr>cpi = ?c, podEvents = [], rsEvents = [], liveRS = [''r1'' \<mapsto> sample_rs], usedUIDs = {''r1''}\<rparr>"
  let ?d = "\<lparr>cpi = ?c, podEvents = [], rsEvents = [Deleted (IObj sample_rs)], liveRS = Map.empty, usedUIDs = {''r1''}\<rparr>"
  have "idx_step False sample_live ?a" using PodAdd [of sample_live sample_pod False] by (simp add: idx_sample_simps sample_live_def)
  moreover have "idx_step False ?a ?b" using PodHandle [of ?a "Added sample_pod" "[]" False] by simp
  moreover have "idx_step False ?b ?d" using RSDelete [of ?b "''r1''" sample_rs False] by simp
  moreover have "idx_step False ?d sample_settled"
    by (rule idx_step_eq [OF RSHandle [of ?d "Deleted (IObj sample_rs)" "[]" False]])
      (simp_all add: sample_settled_def idx_sample_simps clearRSDataIfPossibleLocked_def appendPodsControlledBy_def ByIndex_def controllerUIDIndexFunc_def Let_def)
  ultimately show ?thesis using sample_live_reachable [of False] by (meson rtranclp.rtrancl_into_rtrancl)
qed

theorem indexer_settled_witness:
  "set (PodsControlledBy (cpi sample_settled) ''Deployment'' \<lparr>mo_Key = ''ns/d'', mo_UID = ''d1'', mo_Controller = None\<rparr>) = {sample_pod}
   \<and> has_pod ''r1'' sample_settled \<and> liveRS sample_settled ''r1'' = None"
proof -
  let ?d = "\<lparr>mo_Key = ''ns/d'', mo_UID = ''d1'', mo_Controller = None\<rparr>"
  have empty: "podEvents sample_settled = []" "rsEvents sample_settled = []" by (simp_all add: sample_settled_def)
  note settled = indexer_settled [OF sample_settled_reachable empty, of ?d]
  have rs: "map_of (rsIndexer (cpi sample_settled)) ''r1'' \<noteq> None \<and> liveRS sample_settled ''r1'' = None"
    by (simp add: sample_settled_def)
  have "{pod. \<exists>k u rs. map_of (podsIndexer (cpi sample_settled)) k = Some pod \<and> controls u pod
          \<and> map_of (rsIndexer (cpi sample_settled)) u = Some rs \<and> controls (mo_UID ?d) rs} = {sample_pod}"
    by (auto simp: sample_settled_def idx_sample_simps controls_def controllerUIDIndexFunc_def split: if_splits)
  then show ?thesis using settled rs by blast
qed

subsection \<open>Missed deletions\<close>

definition leaked :: "string \<Rightarrow> idx_sys \<Rightarrow> bool" where
  "leaked u s \<longleftrightarrow> map_of (rsIndexer (cpi s)) u \<noteq> None \<and> \<not> is_pending (cpi s) u \<and> liveRS s u = None \<and> u \<in> usedUIDs s \<and> u \<noteq> []
     \<and> (\<forall>e \<in> set (rsEvents s). note_uid e \<noteq> u) \<and> idx_wf s"

lemma leaked_frame:
  assumes "leaked u s" and "idx_wf s'" and "rsIndexer (cpi s') = rsIndexer (cpi s)" and "rsPendingDeletion (cpi s') = rsPendingDeletion (cpi s)"
    and "liveRS s' u = None" and "u \<in> usedUIDs s'" and "\<forall>e \<in> set (rsEvents s'). note_uid e \<noteq> u"
  shows "leaked u s'"
  using assms by (simp add: leaked_def)

lemma leaked_step:
  assumes "idx_step True s s'" and "leaked u s"
  shows "leaked u s'"
proof -
  have wf0: "idx_wf s" using assms(2) by (simp add: leaked_def)
  have wf: "idx_wf s'" by (rule idx_wf_step [OF assms(1) wf0])
  have keyed: "uid_keyed (cpi s)" using wf0 by (simp add: idx_wf_def)
  have u: "liveRS s u = None" "u \<in> usedUIDs s" "[] \<noteq> u" "\<forall>e \<in> set (rsEvents s). note_uid e \<noteq> u"
    using assms(2) unfolding leaked_def by auto
  have live: "mo_UID m \<noteq> u" if "liveRS s v = Some m" for v m
  proof -
    have "mo_UID m = v" using that wf0 by (simp add: idx_wf_def)
    then show ?thesis using that u(1) by auto
  qed
  from assms(1) show ?thesis
  proof (cases rule: idx_step.cases)
    case (PodHandle e es)
    then show ?thesis using assms(2) wf by (simp add: leaked_def pod_handler_pending pod_handler_rs [OF keyed])
  next
    case (RSHandle e es)
    then show ?thesis using assms(2) wf by (simp add: leaked_def rs_handler_pending rs_handler_rs [OF keyed])
  next
    case (RSUpdate m old)
    have "mo_UID m \<noteq> u" using RSUpdate(2) u(1) by auto
    then show ?thesis using u by (intro leaked_frame [OF assms(2) wf]) (simp_all add: RSUpdate(1))
  next
    case (RSDelete v m)
    show ?thesis using u live [OF RSDelete(2)] by (intro leaked_frame [OF assms(2) wf]) (simp_all add: RSDelete(1))
  next
    case (RSAdd m)
    have "mo_UID m \<noteq> u" using RSAdd(2) u(2) by auto
    then show ?thesis using u by (intro leaked_frame [OF assms(2) wf]) (simp_all add: RSAdd(1))
  next
    case (RSLost v m)
    show ?thesis using u by (intro leaked_frame [OF assms(2) wf]) (simp_all add: RSLost(1))
  next
    case (PodAdd m)
    show ?thesis using u by (intro leaked_frame [OF assms(2) wf]) (simp_all add: PodAdd(1))
  next
    case (PodUpdate m old)
    show ?thesis using u by (intro leaked_frame [OF assms(2) wf]) (simp_all add: PodUpdate(1))
  next
    case (PodDelete k old)
    show ?thesis using u by (intro leaked_frame [OF assms(2) wf]) (simp_all add: PodDelete(1))
  next
    case (PodLost k old)
    show ?thesis using u by (intro leaked_frame [OF assms(2) wf]) (simp_all add: PodLost(1))
  qed
qed

text \<open>
  C38. A ReplicaSet whose deletion reaches the handler as a tombstone is never removed from the
  indexer, even when it has no pods: the handler reads the UID of the tombstone as the empty string.
  The key function of the indexer, in contrast, accepts tombstones.
\<close>

theorem tombstone_leaks_replicaset:
  assumes "idx_reachable True s" and "rsEvents s = []" and "liveRS s u = Some rs"
    and "map_of (rsIndexer (cpi s)) u \<noteq> None" and "\<not> is_pending (cpi s) u"
    and "s1 = s\<lparr>liveRS := (liveRS s)(u := None), rsEvents := [Deleted (ITombstone (mo_Key rs) rs)]\<rparr>"
  shows "idx_step True s s1 \<and> (\<forall>s'. (idx_step True)\<^sup>*\<^sup>* s1 s' \<longrightarrow> map_of (rsIndexer (cpi s')) u \<noteq> None)"
proof -
  have step: "idx_step True s s1"
    by (rule idx_step_eq [OF RSLost [of True s u rs]]) (simp_all add: assms(2,3,6))
  have wf: "idx_wf s" using idx_reachable_wf [OF assms(1)] .
  then have u: "u \<in> usedUIDs s" "[] \<noteq> u" using assms(3) unfolding idx_wf_def by blast+
  have "leaked u s1"
    using assms(4,5) u idx_wf_step [OF step wf] unfolding leaked_def by (simp add: assms(6))
  moreover have "leaked u s'" if "(idx_step True)\<^sup>*\<^sup>* s1 s'" "leaked u s1" for s'
    using that by (induction rule: rtranclp_induct) (blast intro: leaked_step)+
  ultimately show ?thesis using step by (simp add: leaked_def)
qed

theorem tombstone_leaks_replicaset_witness:
  "\<exists>s1. idx_reachable True s1 \<and> (\<forall>s'. (idx_step True)\<^sup>*\<^sup>* s1 s' \<longrightarrow> map_of (rsIndexer (cpi s')) ''r1'' \<noteq> None)
     \<and> liveRS s1 = Map.empty \<and> podsIndexer (cpi s1) = []"
proof -
  define s1 where "s1 = sample_live\<lparr>liveRS := (liveRS sample_live)(''r1'' := None), rsEvents := [Deleted (ITombstone (mo_Key sample_rs) sample_rs)]\<rparr>"
  have live: "rsEvents sample_live = []" "liveRS sample_live ''r1'' = Some sample_rs" "map_of (rsIndexer (cpi sample_live)) ''r1'' \<noteq> None"
      "\<not> is_pending (cpi sample_live) ''r1''" "liveRS s1 = Map.empty" "podsIndexer (cpi s1) = []"
    by (simp_all add: sample_live_def s1_def)
  note leak = tombstone_leaks_replicaset [OF sample_live_reachable live(1-4) s1_def]
  have "idx_reachable True s1" by (rule rtranclp.rtrancl_into_rtrancl [OF sample_live_reachable conjunct1 [OF leak]])
  then show ?thesis using conjunct2 [OF leak] live(5,6) by (intro exI [of _ s1] conjI)
qed

end
