(* ===== verification/Test_Run.thy ===== *)
theory Test_Run
  imports Framework_Objects Dependencies Config Modifier Validation Chaos
begin

text \<open>
  Package \<open>pkg/test\<close>: a test from its configuration file to its report. \<open>modules.go\<close> and \<open>test.go\<close>
  compile the configuration; \<open>simple_test_executor.go\<close> runs it, with the measurements and the phases
  of a step in goroutines; \<open>step_summary.go\<close> and \<open>simple_reporter.go\<close> collect the results.

  The context \<open>Context\<close> holds the state of the components the executor calls, each modelled in its
  own theory: the framework, the state of the phases with the cluster, the measurement and the
  dependency manager and the chaos monkey. A goroutine of a step has two atomic steps, its work on
  the context and the report of its result; the interleavings inside a phase and inside a wrapper
  measurement are those of \<open>Phases\<close> and \<open>Measurements\<close>, by the schedules in \<open>test_env\<close>. A panic and
  a call that does not return are \<open>None\<close>.
\<close>

subsection \<open>\<open>step_summary.go\<close> and \<open>simple_reporter.go\<close>\<close>

record substepResult =
  ss_name :: string
  ss_id :: int
  ss_duration :: duration
  ss_err :: ErrorList

record StepResult =
  sr_name :: string
  sr_err :: ErrorList
  sr_results :: "substepResult list"

definition NewStepResult :: "string \<Rightarrow> StepResult" where
  "NewStepResult stepName = \<lparr>sr_name = stepName, sr_err = NewErrorList [], sr_results = []\<rparr>"

definition AddSubStepResult :: "duration \<Rightarrow> string \<Rightarrow> int \<Rightarrow> ErrorList \<Rightarrow> StepResult \<Rightarrow> StepResult" where
  "AddSubStepResult since name i err s =
     s\<lparr>sr_results := sr_results s @ [\<lparr>ss_name = name, ss_id = i, ss_duration = since, ss_err = err\<rparr>]\<rparr>"

definition AddStepError :: "ErrorList option \<Rightarrow> StepResult \<Rightarrow> StepResult" where
  "AddStepError errs s = s\<lparr>sr_err := ErrorList_Concat (sr_err s) errs\<rparr>"

definition GetAllErrors :: "StepResult \<Rightarrow> ErrorList" where
  "GetAllErrors s = foldl (\<lambda>errList value. ErrorList_Concat errList (Some (ss_err value)))
     (ErrorList_Concat (NewErrorList []) (Some (sr_err s))) (sr_results s)"

definition getAllResults :: "duration \<Rightarrow> StepResult \<Rightarrow> substepResult list" where
  "getAllResults since s =
     (if length (sr_results s) = 0
      then [\<lparr>ss_name = sr_name s, ss_id = 0, ss_duration = since, ss_err = GetAllErrors s\<rparr>] else [])
     @ map (\<lambda>r. \<lparr>ss_name = sr_name s @ '' '' @ ss_name r, ss_id = 0, ss_duration = ss_duration r, ss_err = ss_err r\<rparr>)
         (sort_key ss_id (sr_results s))"

record SpecSummary =
  sp_ComponentTexts :: "string list"
  sp_RunTime :: duration
  sp_Failure :: "string option"

record simpleReporter =
  rp_testName :: string
  rp_SuiteDescription :: string
  rp_NumberOfFailedSpecs :: nat
  rp_stepsSummaries :: "SpecSummary list"
  rp_completed :: "SpecSummary list"

definition CreateSimpleReporter :: "string \<Rightarrow> simpleReporter" where
  "CreateSimpleReporter descr = \<lparr>rp_testName = [], rp_SuiteDescription = descr, rp_NumberOfFailedSpecs = 0,
     rp_stepsSummaries = [], rp_completed = []\<rparr>"

definition SetTestName :: "string \<Rightarrow> simpleReporter \<Rightarrow> simpleReporter" where
  "SetTestName name r = r\<lparr>rp_testName := name\<rparr>"

definition GetNumberOfFailedTestItems :: "simpleReporter \<Rightarrow> nat" where
  "GetNumberOfFailedTestItems r = rp_NumberOfFailedSpecs r"

definition handleSummary :: "SpecSummary \<Rightarrow> ErrorList \<Rightarrow> simpleReporter \<Rightarrow> SpecSummary \<times> simpleReporter" where
  "handleSummary summary errList r =
     (if ErrorList_IsEmpty errList then (summary\<lparr>sp_Failure := None\<rparr>, r)
      else (summary\<lparr>sp_Failure := Some (ErrorList_String errList)\<rparr>,
            r\<lparr>rp_NumberOfFailedSpecs := rp_NumberOfFailedSpecs r + 1\<rparr>))"

definition ReportTestStepFinish :: "duration \<Rightarrow> string \<Rightarrow> ErrorList \<Rightarrow> simpleReporter \<Rightarrow> simpleReporter" where
  "ReportTestStepFinish duration stepName errList r =
     (let stepSummary = \<lparr>sp_ComponentTexts = [rp_SuiteDescription r, rp_testName r @ '': '' @ stepName],
            sp_RunTime = duration, sp_Failure = None\<rparr>;
          (stepSummary', r') = handleSummary stepSummary errList r
      in r'\<lparr>rp_stepsSummaries := rp_stepsSummaries r' @ [stepSummary']\<rparr>)"

definition ReportTestStep :: "duration \<Rightarrow> StepResult \<Rightarrow> simpleReporter \<Rightarrow> simpleReporter" where
  "ReportTestStep since result r = foldl (\<lambda>r sub. ReportTestStepFinish (ss_duration sub) (ss_name sub) (ss_err sub) r)
     r (getAllResults since result)"

definition ReportTestFinish :: "duration \<Rightarrow> string \<Rightarrow> ErrorList \<Rightarrow> simpleReporter \<Rightarrow> simpleReporter" where
  "ReportTestFinish duration testConfigPath errList r =
     (let testSummary = \<lparr>sp_ComponentTexts = [rp_SuiteDescription r, rp_testName r @ '' overall ('' @ testConfigPath @ '')''],
            sp_RunTime = duration, sp_Failure = None\<rparr>;
          (testSummary', r') = handleSummary testSummary errList r
      in r'\<lparr>rp_completed := rp_completed r' @ testSummary' # rp_stepsSummaries r', rp_stepsSummaries := []\<rparr>)"

subsection \<open>\<open>modules.go\<close>\<close>

text \<open>\<open>goSyntax\<close> is the verb \<open>%#v\<close>; \<open>Decode\<close> the decoder of a module file.\<close>

definition loadModule ::
    "(ModuleRef \<Rightarrow> string) \<Rightarrow> ('t, 'w) provider_env \<Rightarrow> (string \<Rightarrow> Module result) \<Rightarrow> params \<Rightarrow> ModuleRef
       \<Rightarrow> ('t, 'w) provider \<Rightarrow> ('t, 'w) provider \<times> Module result" where
  "loadModule goSyntax env Decode templateMapping moduleRef s =
     (if mr_Path moduleRef = [] then (s, Inl (ErrText (''path not set: '' @ goSyntax moduleRef)))
      else (let mapping = (case mr_Params moduleRef of
                  None \<Rightarrow> CloneMap templateMapping | Some ps \<Rightarrow> CopyMap ps (CloneMap templateMapping))
            in case TemplateInto env Decode (mr_Path moduleRef) mapping s of
                 (s', Inl err) \<Rightarrow> (s', Inl (ErrWrap (''error while processing module '' @ goSyntax moduleRef @ '': '' @ Error err) [err]))
               | (s', Inr md) \<Rightarrow> (s', Inr md)))"

partial_function (option) flattenModuleSteps ::
    "(ModuleRef \<Rightarrow> string) \<Rightarrow> ('t, 'w) provider_env \<Rightarrow> (string \<Rightarrow> Module result) \<Rightarrow> params \<Rightarrow> Step list
       \<Rightarrow> ('t, 'w) provider \<Rightarrow> (('t, 'w) provider \<times> Step list result) option" where
  "flattenModuleSteps goSyntax env Decode mapping steps s = (case steps of
      [] \<Rightarrow> Some (s, Inr [])
    | step # rest \<Rightarrow>
        if IsModule step
        then (case loadModule goSyntax env Decode mapping (st_Module step) s of
            (s1, Inl err) \<Rightarrow> Some (s1, Inl err)
          | (s1, Inr md) \<Rightarrow>
              do { (s2, r2) \<leftarrow> flattenModuleSteps goSyntax env Decode mapping (mod_Steps md) s1;
                   (case r2 of
                      Inl err \<Rightarrow> Some (s2, Inl err)
                    | Inr processedModuleSteps \<Rightarrow>
                        do { (s3, r3) \<leftarrow> flattenModuleSteps goSyntax env Decode mapping rest s2;
                             Some (s3, map_sum id (\<lambda>ps. processedModuleSteps @ ps) r3) }) })
        else do { (s3, r3) \<leftarrow> flattenModuleSteps goSyntax env Decode mapping rest s;
                  Some (s3, map_sum id (\<lambda>ps. step # ps) r3) })"


subsection \<open>\<open>test.go\<close>: compiling a test\<close>

record ('t, 'w) compile_env =
  ce_goSyntax :: "ModuleRef \<Rightarrow> string"
  ce_provider :: "('t, 'w) provider_env"
  ce_DecodeConfig :: "string \<Rightarrow> Config result"
  ce_DecodeModule :: "string \<Rightarrow> Module result"
  ce_mapping :: params
  ce_strconv :: "string \<Rightarrow> string"
  ce_modifier :: simpleModifier
  ce_Base :: "string \<Rightarrow> string"
  ce_Dir :: "string \<Rightarrow> string"
  ce_DeleteStaleNamespaces :: bool
  ce_DeleteAutomanagedNamespaces :: bool
  ce_draw :: "nat \<Rightarrow> nat"
  ce_asError :: "field_error \<Rightarrow> go_error"
  ce_validation :: validation_env

definition deprecated_defaults :: "('t, 'w) compile_env \<Rightarrow> Config \<Rightarrow> Config" where
  "deprecated_defaults env c = (let n = cf_Namespace c in c\<lparr>cf_Namespace := n\<lparr>
     ns_DeleteStaleNamespaces := (case ns_DeleteStaleNamespaces n of None \<Rightarrow> Some (ce_DeleteStaleNamespaces env) | Some b \<Rightarrow> Some b),
     ns_DeleteAutomanagedNamespaces := (case ns_DeleteAutomanagedNamespaces n of None \<Rightarrow> Some (ce_DeleteAutomanagedNamespaces env) | Some b \<Rightarrow> Some b)\<rparr>\<rparr>)"

text \<open>The result is the configuration, nil on the early returns, and the list of errors.\<close>

definition CompileTestConfig ::
    "('t, 'w) compile_env \<Rightarrow> TestScenario \<Rightarrow> ('t, 'w) provider \<Rightarrow> (('t, 'w) provider \<times> Config option \<times> ErrorList) option" where
  "CompileTestConfig env testScenario s =
     (case TemplateToConfig (ce_provider env) (ce_DecodeConfig env) (ce_Base env (ts_ConfigPath testScenario)) (CloneMap (ce_mapping env)) s of
        (s1, Inl err) \<Rightarrow> Some (s1, None, NewErrorList [ErrText (''config reading error: '' @ Error err)])
      | (s1, Inr testConfig) \<Rightarrow>
          do { (testConfig1, err) \<leftarrow> ChangeTest (ce_strconv env) (ce_modifier env) testConfig;
               (case err of
                  Some e \<Rightarrow> Some (s1, None, NewErrorList [ErrText (''config mutation error: '' @ Error e)])
                | None \<Rightarrow>
                    do { (s2, r) \<leftarrow> flattenModuleSteps (ce_goSyntax env) (ce_provider env) (ce_DecodeModule env) (ce_mapping env)
                                      (cf_Steps testConfig1) s1;
                         (case r of
                            Inl e \<Rightarrow> Some (s2, None, NewErrorList [ErrWrap (''error flattening module steps: '' @ Error e) [e]])
                          | Inr steps \<Rightarrow>
                              (let testConfig2 = Config_SetDefaults (ce_draw env) (deprecated_defaults env (testConfig1\<lparr>cf_Steps := steps\<rparr>))
                               in case Validate (ce_asError env) (ce_validation env)
                                         (NewConfigValidator (ce_Dir env (ts_ConfigPath testScenario)) testConfig2) of
                                    Some errs \<Rightarrow> Some (s2, Some testConfig2, errs)
                                  | None \<Rightarrow> Some (s2, Some testConfig2, NewErrorList []))) }) })"

subsection \<open>The context\<close>

record ('s, 'm, 'd) Context =
  cx_framework :: "'s Framework"
  cx_exec :: "(nat \<times> 's) exec_state"
  cx_manager :: "'m measurementManager"
  cx_dependencies :: "('d, 's) dependencyManager"
  cx_monkey :: Monkey
  cx_stopClosed :: bool
  cx_reporter :: simpleReporter
  cx_files :: "(string \<times> string) list"

record ('s, 'm, 'd) test_env =
  te_lib :: "'s client_lib"
  te_MatchString :: "string \<Rightarrow> string \<Rightarrow> bool result"
  te_phase :: "(nat \<times> 's) phase_env"
  te_tuning :: tuning_env
  te_measurement :: "'m measurement_env"
  te_dependency :: "('d, 's) dependency_env"
  te_ReportDir :: string
  te_Identifier :: string
  te_FormatRFC3339 :: "time \<Rightarrow> string"
  te_Join :: "string \<Rightarrow> string \<Rightarrow> string"
  te_WriteFile :: "string \<Rightarrow> string \<Rightarrow> go_error option"
  te_Since :: "string \<Rightarrow> duration"
  te_sched_step :: "Step \<Rightarrow> nat list"
  te_sched_measurement :: "Measurement \<Rightarrow> nat list"
  te_sched_phase :: "Phase \<Rightarrow> nat list"
  te_sched_delete :: "nat list"

text \<open>A call of the framework, and one of the dependency manager, on the cluster of the context.\<close>

definition on_framework ::
    "('s fw \<Rightarrow> ('s fw \<times> 'r) option) \<Rightarrow> ('s, 'm, 'd) Context \<Rightarrow> (('s, 'm, 'd) Context \<times> 'r) option" where
  "on_framework call cx = (case call (cx_framework cx, snd (ex_cluster (cx_exec cx))) of
      None \<Rightarrow> None
    | Some ((f, s), r) \<Rightarrow> Some (cx\<lparr>cx_framework := f,
        cx_exec := (cx_exec cx)\<lparr>ex_cluster := (fst (ex_cluster (cx_exec cx)), s)\<rparr>\<rparr>, r))"

definition on_dependencies ::
    "(('d, 's) dependencyManager \<Rightarrow> ('d, 's) dependencyManager \<times> ErrorList) \<Rightarrow> ('s, 'm, 'd) Context \<Rightarrow> ('s, 'm, 'd) Context \<times> ErrorList" where
  "on_dependencies call cx =
     (let (dm, errs) = call ((cx_dependencies cx)\<lparr>dm_world := snd (ex_cluster (cx_exec cx))\<rparr>)
      in (cx\<lparr>cx_dependencies := dm,
             cx_exec := (cx_exec cx)\<lparr>ex_cluster := (fst (ex_cluster (cx_exec cx)), dm_world dm)\<rparr>\<rparr>, errs))"

subsection \<open>\<open>ExecuteStep\<close>\<close>

datatype step_thread =
    SMeasurement int Measurement
  | SMeasured int Measurement ErrorList
  | SPhase Phase
  | SPhased "ErrorList option"
  | SDone

definition pad2 :: "int \<Rightarrow> string" where
  "pad2 i = (let d = itoa i in if length d < 2 then CHR ''0'' # d else d)"

definition substep_name :: "int \<Rightarrow> Measurement \<Rightarrow> string" where
  "substep_name i m = ''['' @ pad2 i @ ''] - '' @ ms_Identifier m"

definition phase_env_of :: "('s, 'm, 'd) test_env \<Rightarrow> ('s, 'm, 'd) Context \<Rightarrow> (nat \<times> 's) phase_env" where
  "phase_env_of env cx = framework_env (te_lib env) (cx_framework cx)
     ((te_phase env)\<lparr>NamespacePrefix := GetAutomanagedNamespacePrefix (cx_framework cx)\<rparr>)"

fun step_step ::
    "('s, 'm, 'd) test_env \<Rightarrow> step_thread \<Rightarrow> (('s, 'm, 'd) Context \<times> StepResult) option
       \<Rightarrow> step_thread \<times> (('s, 'm, 'd) Context \<times> StepResult) option" where
  "step_step env th None = (SDone, None)"
| "step_step env (SMeasurement i m) (Some (cx, sr)) =
     (let (mm, errList) = measurement_Execute (te_measurement env) (te_sched_measurement env m) m (cx_manager cx)
      in (SMeasured i m errList, Some (cx\<lparr>cx_manager := mm\<rparr>, sr)))"
| "step_step env (SMeasured i m errList) (Some (cx, sr)) =
     (SDone, Some (cx, AddSubStepResult (te_Since env (substep_name i m)) (substep_name i m) i errList sr))"
| "step_step env (SPhase p) (Some (cx, sr)) =
     (case ExecutePhase (phase_env_of env cx) (te_tuning env) (te_sched_phase env p) p (cx_exec cx) of
        None \<Rightarrow> (SDone, None)
      | Some (ex, errList) \<Rightarrow> (SPhased errList, Some (cx\<lparr>cx_exec := ex\<rparr>, sr)))"
| "step_step env (SPhased errList) (Some (cx, sr)) = (SDone, Some (cx, AddStepError errList sr))"
| "step_step env SDone s = (SDone, s)"

fun step_rank :: "step_thread \<Rightarrow> nat" where
  "step_rank (SMeasurement _ _) = 2"
| "step_rank (SMeasured _ _ _) = 1"
| "step_rank (SPhase _) = 2"
| "step_rank (SPhased _) = 1"
| "step_rank SDone = 0"

definition step_threads :: "Step \<Rightarrow> step_thread list" where
  "step_threads step = map (\<lambda>(i, m). SMeasurement (int i) m) (enumerate 0 (st_Measurements step)) @ map SPhase (st_Phases step)"

definition ExecuteStep ::
    "('s, 'm, 'd) test_env \<Rightarrow> Step \<Rightarrow> ('s, 'm, 'd) Context \<Rightarrow> (('s, 'm, 'd) Context \<times> ErrorList) option" where
  "ExecuteStep env step cx =
     do { (cx', stepResults) \<leftarrow> snd (wait_group (step_step env) step_rank (te_sched_step env step) (step_threads step)
             (Some (cx, NewStepResult (st_Name step))));
          Some (cx'\<lparr>cx_reporter := ReportTestStep (te_Since env (st_Name step)) stepResults (cx_reporter cx')\<rparr>, GetAllErrors stepResults) }"

definition isErrsCritical :: "ErrorList \<Rightarrow> bool" where
  "isErrsCritical errList = ErrorList_Has errList ErrCritical"

definition numbered_step :: "nat \<Rightarrow> Step \<Rightarrow> Step" where
  "numbered_step i step = step\<lparr>st_Name := ''[step: '' @ pad2 (int i + 1) @ ''] ''
     @ (if st_Name step = [] then ''[autogenerated, please name your step in the test config]'' else st_Name step)\<rparr>"

fun test_steps_loop ::
    "('s, 'm, 'd) test_env \<Rightarrow> nat \<Rightarrow> Step list \<Rightarrow> ErrorList \<Rightarrow> ('s, 'm, 'd) Context \<Rightarrow> (('s, 'm, 'd) Context \<times> ErrorList) option" where
  "test_steps_loop env i [] errList cx = Some (cx, errList)"
| "test_steps_loop env i (step # steps) errList cx = (case ExecuteStep env (numbered_step i step) cx of
      None \<Rightarrow> None
    | Some (cx', stepErrList) \<Rightarrow>
        if \<not> ErrorList_IsEmpty stepErrList
        then (if isErrsCritical stepErrList then Some (cx', ErrorList_Concat errList (Some stepErrList))
              else test_steps_loop env (Suc i) steps (ErrorList_Concat errList (Some stepErrList)) cx')
        else test_steps_loop env (Suc i) steps errList cx')"

definition ExecuteTestSteps ::
    "('s, 'm, 'd) test_env \<Rightarrow> Step list \<Rightarrow> ('s, 'm, 'd) Context \<Rightarrow> (('s, 'm, 'd) Context \<times> ErrorList) option" where
  "ExecuteTestSteps env steps cx = test_steps_loop env 0 steps (NewErrorList []) cx"


subsection \<open>\<open>ExecuteTest\<close>\<close>

definition prepareTestNamespaces ::
    "('s, 'm, 'd) test_env \<Rightarrow> Config \<Rightarrow> ('s, 'm, 'd) Context \<Rightarrow> (('s, 'm, 'd) Context \<times> go_error option) option" where
  "prepareTestNamespaces env conf cx =
     do { (cx1, current, stale, err) \<leftarrow> on_framework (ListAutomanagedNamespaces (te_lib env) (te_MatchString env)) cx;
          (case err of
             Some e \<Rightarrow> Some (cx1, Some (ErrWrap (''automanaged namespaces listing failed: '' @ Error e) [e]))
           | None \<Rightarrow>
               do { existing \<leftarrow> (if 0 < length current then ns_EnableExistingNamespaces (cf_Namespace conf) else Some True);
                    if \<not> existing then Some (cx1, Some (ErrText ''pre-existing automanaged namespaces found''))
                    else do {
                      deleteStaleNS \<leftarrow> ns_DeleteStaleNamespaces (cf_Namespace conf);
                      (cx2, _) \<leftarrow> (if 0 < length stale \<and> deleteStaleNS
                         then do { timeout \<leftarrow> ns_DeleteNamespaceTimeout (cf_Namespace conf);
                                   on_framework (DeleteNamespaces (te_lib env) (te_sched_delete env) stale timeout) cx1 }
                         else Some (cx1, NewErrorList []));
                      enable \<leftarrow> ns_EnableExistingNamespaces (cf_Namespace conf);
                      delete \<leftarrow> ns_DeleteAutomanagedNamespaces (cf_Namespace conf);
                      (cx3, err3) \<leftarrow> on_framework (CreateAutomanagedNamespaces (te_lib env) (ns_Number (cf_Namespace conf)) enable delete) cx2;
                      Some (cx3, case err3 of None \<Rightarrow> None
                        | Some e \<Rightarrow> Some (ErrWrap (''automanaged namespaces creation failed: '' @ Error e) [e])) } }) }"

definition cleanupTestResourcesAndDependencies ::
    "('s, 'm, 'd) test_env \<Rightarrow> Config \<Rightarrow> ('s, 'm, 'd) Context \<Rightarrow> ('s, 'm, 'd) Context option" where
  "cleanupTestResourcesAndDependencies env conf cx =
     (let cx0 = cx\<lparr>cx_manager := manager_Dispose (te_measurement env) (cx_manager cx)\<rparr>
      in do { delete \<leftarrow> ns_DeleteAutomanagedNamespaces (cf_Namespace conf);
              (cx1, errList) \<leftarrow> (if delete
                 then do { timeout \<leftarrow> ns_DeleteNamespaceTimeout (cf_Namespace conf);
                           on_framework (DeleteAutomanagedNamespaces (te_lib env) (te_sched_delete env) timeout) cx0 }
                 else Some (cx0, NewErrorList []));
              if \<not> ErrorList_IsEmpty errList then Some cx1
              else Some (fst (on_dependencies (TeardownDependencies (te_dependency env)) cx1)) })"

fun summaries_loop ::
    "('s, 'm, 'd) test_env \<Rightarrow> Config \<Rightarrow> Summary list \<Rightarrow> ErrorList \<Rightarrow> ('s, 'm, 'd) Context \<Rightarrow> ('s, 'm, 'd) Context \<times> ErrorList" where
  "summaries_loop env conf [] errList cx = (cx, errList)"
| "summaries_loop env conf (summary # summaries) errList cx =
     (if te_ReportDir env = [] then summaries_loop env conf summaries errList cx
      else (let testDistinctor = (if te_Identifier env \<noteq> [] then ''_'' @ te_Identifier env else []);
                fileName = str_join ''_'' [SummaryName summary, cf_Name conf @ testDistinctor, te_FormatRFC3339 env (SummaryTime summary)];
                filePath = te_Join env (te_ReportDir env) (str_join ''.'' [fileName, SummaryExt summary])
            in case te_WriteFile env filePath (SummaryContent summary) of
                 Some err \<Rightarrow> summaries_loop env conf summaries
                   (ErrorList_Append errList [ErrText (''writing to file '' @ filePath @ '' error: '' @ Error err)]) cx
               | None \<Rightarrow> summaries_loop env conf summaries errList
                   (cx\<lparr>cx_files := cx_files cx @ [(filePath, SummaryContent summary)]\<rparr>)))"

definition close_stopCh :: "('s, 'm, 'd) Context \<Rightarrow> ('s, 'm, 'd) Context" where
  "close_stopCh cx = cx\<lparr>cx_stopClosed := True\<rparr>"

text \<open>The body of \<open>ExecuteTest\<close> between the \<open>defer\<close> statement and its return.\<close>

definition test_body ::
    "('s, 'm, 'd) test_env \<Rightarrow> Config \<Rightarrow> ('s, 'm, 'd) Context \<Rightarrow> (('s, 'm, 'd) Context \<times> ErrorList) option" where
  "test_body env conf cx0 =
     (let cx1 = cx0\<lparr>cx_exec := (cx_exec cx0)\<lparr>ex_factory := Factory_Init (ex_factory (cx_exec cx0)) (cf_TuningSets conf)\<rparr>\<rparr>;
          chaos = (cf_ChaosMonkey conf)\<lparr>cm_ExcludedNodes := Some (case cm_ExcludedNodes (cf_ChaosMonkey conf) of None \<Rightarrow> [] | Some ns \<Rightarrow> ns)\<rparr>;
          (monkey, started) = Monkey_Init chaos (cx_monkey cx1);
          cx2 = cx1\<lparr>cx_monkey := monkey\<rparr>
      in case started of
           Inl err \<Rightarrow> Some (close_stopCh cx2, NewErrorList [ErrText (''error while creating chaos monkey: '' @ Error err)])
         | Inr _ \<Rightarrow>
             do { (cx3, err) \<leftarrow> prepareTestNamespaces env conf cx2;
                  (case err of
                     Some e \<Rightarrow> Some (cx3, NewErrorList [ErrWrap (''error while preparing test namespaces: '' @ Error e) [e]])
                   | None \<Rightarrow>
                       (let (cx4, setupErrList) = (if 0 < length (cf_Dependencies conf)
                              then on_dependencies (SetupDependencies (te_dependency env) (cf_Dependencies conf)) cx3
                              else (cx3, NewErrorList []))
                        in if \<not> ErrorList_IsEmpty setupErrList then Some (close_stopCh cx4, setupErrList)
                           else do { (cx5, errList) \<leftarrow> ExecuteTestSteps env (cf_Steps conf) cx4;
                                     Some (summaries_loop env conf (GetSummaries (cx_manager cx5)) errList (close_stopCh cx5)) })) })"

definition ExecuteTest ::
    "('s, 'm, 'd) test_env \<Rightarrow> Config \<Rightarrow> ('s, 'm, 'd) Context \<Rightarrow> (('s, 'm, 'd) Context \<times> ErrorList) option" where
  "ExecuteTest env conf cx =
     (let cx0 = cx\<lparr>cx_framework := SetAutomanagedNamespacePrefix (ns_Prefix (cf_Namespace conf)) (cx_framework cx)\<rparr>
      in do { (cx1, errList) \<leftarrow> test_body env conf cx0;
              cx2 \<leftarrow> cleanupTestResourcesAndDependencies env conf cx1;
              Some (cx2, errList) })"

text \<open>\<open>RunTest\<close> applies the modifier to the compiled configuration once more.\<close>

definition RunTest ::
    "(string \<Rightarrow> string) \<Rightarrow> simpleModifier \<Rightarrow> ('s, 'm, 'd) test_env \<Rightarrow> Config \<Rightarrow> ('s, 'm, 'd) Context
       \<Rightarrow> (('s, 'm, 'd) Context \<times> ErrorList) option" where
  "RunTest strconv m env testConfig cx =
     (let testName = (if te_Identifier env = [] then cf_Name testConfig else te_Identifier env);
          cx0 = cx\<lparr>cx_reporter := SetTestName testName (cx_reporter cx)\<rparr>
      in do { (testConfig', err) \<leftarrow> ChangeTest strconv m testConfig;
              (case err of
                 Some e \<Rightarrow> Some (cx0, NewErrorList [ErrText (''config mutation error: '' @ Error e)])
               | None \<Rightarrow> ExecuteTest env testConfig' cx0) })"

end
