(* ===== verification/Test_Correct.thy ===== *)
theory Test_Correct
  imports Test_Run
begin

text \<open>
  Properties of \<open>Test_Run\<close>: what a step reports under any interleaving, where a test stops, which
  modules are loaded, what the cleanup does, and which configuration a test runs with.
\<close>

subsection \<open>The report of a step\<close>

lemma step_step_rank: "step_rank (fst (step_step env th s)) \<le> step_rank th - 1"
  by (cases "(env, th, s)" rule: step_step.cases) (auto split: prod.split option.split)

interpretation steps: goroutines "step_step env" step_rank for env
  by unfold_locales (rule step_step_rank)

definition result_key :: "substepResult \<Rightarrow> int \<times> string" where
  "result_key r = (ss_id r, ss_name r)"

fun pending_key :: "step_thread \<Rightarrow> (int \<times> string) list" where
  "pending_key (SMeasurement i m) = [(i, substep_name i m)]"
| "pending_key (SMeasured i m _) = [(i, substep_name i m)]"
| "pending_key _ = []"

fun runs_phase :: "step_thread \<Rightarrow> bool" where
  "runs_phase (SPhase _) = True"
| "runs_phase (SPhased _) = True"
| "runs_phase _ = False"

definition step_keys :: "Step \<Rightarrow> (int \<times> string) list" where
  "step_keys step = map (\<lambda>(i, m). (int i, substep_name (int i) m)) (enumerate 0 (st_Measurements step))"

definition step_inv ::
    "Step \<Rightarrow> simpleReporter \<Rightarrow> step_thread list \<Rightarrow> (('s, 'm, 'd) Context \<times> StepResult) option \<Rightarrow> bool" where
  "step_inv step r ths st \<longleftrightarrow> (\<forall>cx sr. st = Some (cx, sr) \<longrightarrow>
     cx_reporter cx = r \<and> sr_name sr = st_Name step
     \<and> mset (map result_key (sr_results sr)) + mset (concat (map pending_key ths)) = mset (step_keys step)
     \<and> (st_Phases step = [] \<longrightarrow> errors (sr_err sr) = [] \<and> (\<forall>th \<in> set ths. \<not> runs_phase th)))"

lemma mset_concat_update:
  "i < length xs \<Longrightarrow> mset (concat (map f (xs[i := x]))) + mset (f (xs ! i)) = mset (concat (map f xs)) + mset (f x)"
  by (induction xs arbitrary: i) (auto split: nat.split simp: ac_simps)

lemma mset_exchange:
  fixes a :: "'a multiset"
  assumes "a' + p' = a + p" and "c' + p = c + p'"
  shows "a' + c' = a + c"
proof -
  have "(a' + c') + (p + p') = (a' + p') + (c' + p)" by (simp add: ac_simps)
  also have "\<dots> = (a + c) + (p + p')" unfolding assms by (simp add: ac_simps)
  finally show ?thesis by simp
qed

lemma step_step_effect:
  assumes "step_step env th (Some (cx, sr)) = (th', Some (cx', sr'))"
  shows "cx_reporter cx' = cx_reporter cx" "sr_name sr' = sr_name sr"
    and "mset (map result_key (sr_results sr')) + mset (pending_key th') = mset (map result_key (sr_results sr)) + mset (pending_key th)"
    and "\<not> runs_phase th \<Longrightarrow> errors (sr_err sr') = errors (sr_err sr) \<and> \<not> runs_phase th'"
  using assms by (cases th; auto simp: AddSubStepResult_def AddStepError_def result_key_def split: prod.splits option.splits)+

lemma step_inv_step:
  assumes "step_inv step r ths st" and i: "i < length ths"
  shows "step_inv step r (ths[i := fst (step_step env (ths ! i) st)]) (snd (step_step env (ths ! i) st))"
  unfolding step_inv_def
proof (intro allI impI)
  fix cx' sr' assume res: "snd (step_step env (ths ! i) st) = Some (cx', sr')"
  obtain cx sr where st: "st = Some (cx, sr)" using res by (cases st) auto
  obtain th' where th': "step_step env (ths ! i) (Some (cx, sr)) = (th', Some (cx', sr'))"
    using res st by (cases "step_step env (ths ! i) (Some (cx, sr))") simp
  note eff = step_step_effect [OF th']
  have old: "cx_reporter cx = r" "sr_name sr = st_Name step"
      "mset (map result_key (sr_results sr)) + mset (concat (map pending_key ths)) = mset (step_keys step)"
      "st_Phases step = [] \<Longrightarrow> errors (sr_err sr) = [] \<and> (\<forall>th \<in> set ths. \<not> runs_phase th)"
    using assms(1) st by (auto simp: step_inv_def)
  have "mset (map result_key (sr_results sr')) + mset (concat (map pending_key (ths[i := th']))) = mset (step_keys step)"
    using mset_exchange [OF eff(3) mset_concat_update [OF i, of pending_key th']] old(3) by simp
  moreover have "errors (sr_err sr') = [] \<and> (\<forall>th \<in> set (ths[i := th']). \<not> runs_phase th)" if "st_Phases step = []"
  proof -
    have "\<not> runs_phase (ths ! i)" using old(4) [OF that] i by simp
    then show ?thesis using eff(4) old(4) [OF that] set_update_subset_insert [of ths i th'] by auto
  qed
  ultimately show "cx_reporter cx' = r \<and> sr_name sr' = st_Name step
     \<and> mset (map result_key (sr_results sr')) + mset (concat (map pending_key (ths[i := fst (step_step env (ths ! i) st)]))) = mset (step_keys step)
     \<and> (st_Phases step = [] \<longrightarrow> errors (sr_err sr') = [] \<and> (\<forall>th \<in> set (ths[i := fst (step_step env (ths ! i) st)]). \<not> runs_phase th))"
    using eff(1,2) old(1,2) by (simp add: st th')
qed

lemma step_inv_init: "step_inv step (cx_reporter cx) (step_threads step) (Some (cx, NewStepResult (st_Name step)))"
proof -
  have "concat (map pending_key (step_threads step)) = step_keys step"
  proof -
    have "concat (map pending_key (map (\<lambda>(i, m). SMeasurement (int i) m) xs)) = map (\<lambda>(i, m). (int i, substep_name (int i) m)) xs" for xs
      by (induction xs) auto
    moreover have "concat (map pending_key (map SPhase ps)) = []" for ps by (induction ps) auto
    ultimately show ?thesis by (simp add: step_threads_def step_keys_def)
  qed
  then show ?thesis by (auto simp: step_inv_def NewStepResult_def step_threads_def)
qed

lemma pending_done: "step_rank th = 0 \<Longrightarrow> pending_key th = []"
  by (cases th) auto

lemma step_results:
  assumes "snd (wait_group (step_step env) step_rank sched (step_threads step) (Some (cx, NewStepResult (st_Name step)))) = Some (cx', sr)"
  shows "cx_reporter cx' = cx_reporter cx" "sr_name sr = st_Name step"
    and "mset (map result_key (sr_results sr)) = mset (step_keys step)"
    and "st_Phases step = [] \<Longrightarrow> errors (sr_err sr) = []"
proof -
  obtain ths where wg: "wait_group (step_step env) step_rank sched (step_threads step) (Some (cx, NewStepResult (st_Name step))) = (ths, Some (cx', sr))"
    using assms by (cases "wait_group (step_step env) step_rank sched (step_threads step) (Some (cx, NewStepResult (st_Name step)))") simp
  have inv: "step_inv step (cx_reporter cx) ths (Some (cx', sr))" and fin: "\<forall>th \<in> set ths. step_rank th = 0"
    using steps.wait_group_result [where P = "step_inv step (cx_reporter cx)", OF wg step_inv_init] by (auto intro: step_inv_step)
  have none: "concat (map pending_key ths) = []" using fin by (auto simp: pending_done)
  show "cx_reporter cx' = cx_reporter cx" "sr_name sr = st_Name step" "st_Phases step = [] \<Longrightarrow> errors (sr_err sr) = []"
    using inv unfolding step_inv_def by blast+
  have "mset (map result_key (sr_results sr)) + mset (concat (map pending_key ths)) = mset (step_keys step)"
    using inv unfolding step_inv_def by blast
  then show "mset (map result_key (sr_results sr)) = mset (step_keys step)" unfolding none by simp
qed


lemma step_keys_sorted: "sorted (map fst (step_keys step))" "inj_on fst (set (step_keys step))" "length (step_keys step) = length (st_Measurements step)"
proof -
  have "map fst (step_keys step) = map int (map fst (enumerate 0 (st_Measurements step)))"
    unfolding step_keys_def map_map by (rule map_cong) auto
  then have "map fst (step_keys step) = map int [0..<length (st_Measurements step)]" by (simp only: map_fst_enumerate add_0)
  then have "sorted (map fst (step_keys step))" "distinct (map fst (step_keys step))"
    by (simp_all add: distinct_map sorted_iff_nth_mono)
  then show "sorted (map fst (step_keys step))" "inj_on fst (set (step_keys step))" by (simp_all add: distinct_map)
qed (simp add: step_keys_def)

lemma sorted_results:
  assumes "mset (map result_key rs) = mset (step_keys step)"
  shows "map result_key (sort_key ss_id rs) = step_keys step"
proof -
  have "map result_key (sort_key ss_id rs) = sort_key fst (map result_key rs)"
  proof -
    have "insort_key fst (result_key r) (map result_key xs) = map result_key (insort_key (fst \<circ> result_key) r xs)" for r xs
      by (induction xs) auto
    then have "sort_key fst (map result_key rs) = map result_key (sort_key (fst \<circ> result_key) rs)" by (induction rs) auto
    then show ?thesis by (simp add: result_key_def comp_def)
  qed
  also have "\<dots> = step_keys step"
    using assms step_keys_sorted [of step] mset_eq_setD [OF assms] by (intro sort_key_inj_key_eq) simp_all
  finally show ?thesis .
qed

lemma GetAllErrors_concat: "errors (GetAllErrors s) = errors (sr_err s) @ concat (map (errors \<circ> ss_err) (sr_results s))"
proof -
  have "errors (foldl (\<lambda>e r. ErrorList_Concat e (Some (ss_err r))) e rs) = errors e @ concat (map (errors \<circ> ss_err) rs)" for e :: ErrorList and rs :: "substepResult list"
    by (induction rs arbitrary: e) auto
  then show ?thesis by (simp add: GetAllErrors_def)
qed


lemma ReportTestStepFinish_effect:
  "rp_stepsSummaries (ReportTestStepFinish d n e r) = rp_stepsSummaries r @
     [\<lparr>sp_ComponentTexts = [rp_SuiteDescription r, rp_testName r @ '': '' @ n], sp_RunTime = d,
       sp_Failure = (if errors e = [] then None else Some (ErrorList_String e))\<rparr>]"
  "rp_NumberOfFailedSpecs (ReportTestStepFinish d n e r) = rp_NumberOfFailedSpecs r + (if errors e = [] then 0 else 1)"
  "rp_SuiteDescription (ReportTestStepFinish d n e r) = rp_SuiteDescription r"
  "rp_testName (ReportTestStepFinish d n e r) = rp_testName r"
  by (simp_all add: ReportTestStepFinish_def handleSummary_def Let_def)

lemma report_fold:
  fixes subs :: "substepResult list"
  defines "rep \<equiv> \<lambda>r sub. ReportTestStepFinish (ss_duration sub) (ss_name sub) (ss_err sub) r"
  shows "map sp_ComponentTexts (rp_stepsSummaries (foldl rep r subs)) = map sp_ComponentTexts (rp_stepsSummaries r)
      @ map (\<lambda>sub. [rp_SuiteDescription r, rp_testName r @ '': '' @ ss_name sub]) subs"
    and "rp_NumberOfFailedSpecs (foldl rep r subs) = rp_NumberOfFailedSpecs r + length (filter (\<lambda>sub. errors (ss_err sub) \<noteq> []) subs)"
  by (induction subs arbitrary: r) (simp_all add: rep_def ReportTestStepFinish_effect)

lemma failed_results:
  "length (filter (\<lambda>sub. errors (ss_err sub) \<noteq> []) (getAllResults since s)) = 0
     \<longleftrightarrow> (if sr_results s = [] then errors (sr_err s) = [] else \<forall>r \<in> set (sr_results s). errors (ss_err r) = [])"
  by (auto simp: getAllResults_def filter_empty_conv GetAllErrors_concat)

text \<open>
  C5. Whatever the order in which the goroutines of a step run and finish, the report lists every
  measurement of the step once, in the order of the configuration, and one entry for a step without
  measurements. For a step that has no phases next to measurements, it counts a failure exactly when the step returns errors.
\<close>

theorem ExecuteStep_reports_in_order:
  assumes "ExecuteStep env step cx = Some (cx', errs)"
  shows "map sp_ComponentTexts (rp_stepsSummaries (cx_reporter cx')) = map sp_ComponentTexts (rp_stepsSummaries (cx_reporter cx))
      @ map (\<lambda>n. [rp_SuiteDescription (cx_reporter cx), rp_testName (cx_reporter cx) @ '': '' @ n])
          (if st_Measurements step = [] then [st_Name step]
           else map (\<lambda>(i, m). st_Name step @ '' '' @ substep_name (int i) m) (enumerate 0 (st_Measurements step)))
    \<and> (st_Measurements step = [] \<or> st_Phases step = [] \<longrightarrow>
        (rp_NumberOfFailedSpecs (cx_reporter cx') = rp_NumberOfFailedSpecs (cx_reporter cx) \<longleftrightarrow> errors errs = []))"
proof -
  obtain cx1 sr where wg: "snd (wait_group (step_step env) step_rank (te_sched_step env step) (step_threads step)
        (Some (cx, NewStepResult (st_Name step)))) = Some (cx1, sr)"
      and cx': "cx' = cx1\<lparr>cx_reporter := ReportTestStep (te_Since env (st_Name step)) sr (cx_reporter cx1)\<rparr>" and errs: "errs = GetAllErrors sr"
    using assms by (auto simp: ExecuteStep_def bind_eq_Some_conv)
  note res = step_results [OF wg]
  have sorted: "map result_key (sort_key ss_id (sr_results sr)) = step_keys step" by (rule sorted_results [OF res(3)])
  have len: "length (sr_results sr) = length (st_Measurements step)"
    using arg_cong [OF sorted, of length] by (simp add: step_keys_sorted(3))
  have "map ss_name (sort_key ss_id (sr_results sr)) = map snd (step_keys step)"
    using arg_cong [OF sorted, of "map snd"] by (simp add: comp_def result_key_def)
  then have "map (\<lambda>r. sr_name sr @ '' '' @ ss_name r) (sort_key ss_id (sr_results sr)) = map (\<lambda>n. sr_name sr @ '' '' @ n) (map snd (step_keys step))"
    by (metis (mono_tags, lifting) list.map_comp comp_apply map_cong)
  then have names: "map ss_name (getAllResults (te_Since env (st_Name step)) sr) = (if st_Measurements step = [] then [st_Name step]
       else map (\<lambda>(i, m). st_Name step @ '' '' @ substep_name (int i) m) (enumerate 0 (st_Measurements step)))"
    using len by (simp add: getAllResults_def res(2) step_keys_def comp_def case_prod_unfold)
  have "map sp_ComponentTexts (rp_stepsSummaries (cx_reporter cx')) = map sp_ComponentTexts (rp_stepsSummaries (cx_reporter cx))
      @ map (\<lambda>n. [rp_SuiteDescription (cx_reporter cx), rp_testName (cx_reporter cx) @ '': '' @ n])
          (map ss_name (getAllResults (te_Since env (st_Name step)) sr))"
    by (simp add: cx' ReportTestStep_def report_fold(1) res(1) comp_def)
  moreover have "rp_NumberOfFailedSpecs (cx_reporter cx') = rp_NumberOfFailedSpecs (cx_reporter cx) \<longleftrightarrow> errors errs = []"
    if "st_Measurements step = [] \<or> st_Phases step = []"
  proof -
    have "rp_NumberOfFailedSpecs (cx_reporter cx') = rp_NumberOfFailedSpecs (cx_reporter cx)
        \<longleftrightarrow> (if sr_results sr = [] then errors (sr_err sr) = [] else \<forall>r \<in> set (sr_results sr). errors (ss_err r) = [])"
      unfolding cx' failed_results [symmetric, where since = "te_Since env (st_Name step)"] by (simp add: ReportTestStep_def report_fold(2) res(1))
    then show ?thesis using that res(4) len by (auto simp: errs GetAllErrors_concat)
  qed
  ultimately show ?thesis unfolding names by blast
qed


subsection \<open>Modules\<close>

lemma flatten_Nil: "flattenModuleSteps g env D mp [] s = Some (s, Inr [])"
  by (subst flattenModuleSteps.simps) simp

lemma flatten_step:
  "\<not> IsModule st \<Longrightarrow> flattenModuleSteps g env D mp (st # rest) s =
     Option.bind (flattenModuleSteps g env D mp rest s) (\<lambda>(s3, r3). Some (s3, map_sum id (\<lambda>ps. st # ps) r3))"
  by (subst flattenModuleSteps.simps) simp

lemma flatten_module:
  "IsModule st \<Longrightarrow> flattenModuleSteps g env D mp (st # rest) s = (case loadModule g env D mp (st_Module st) s of
      (s1, Inl err) \<Rightarrow> Some (s1, Inl err)
    | (s1, Inr md) \<Rightarrow> Option.bind (flattenModuleSteps g env D mp (mod_Steps md) s1) (\<lambda>(s2, r2). case r2 of
        Inl err \<Rightarrow> Some (s2, Inl err)
      | Inr qs \<Rightarrow> Option.bind (flattenModuleSteps g env D mp rest s2) (\<lambda>(s3, r3). Some (s3, map_sum id (\<lambda>ps. qs @ ps) r3))))"
  by (subst flattenModuleSteps.simps) (simp split: prod.split sum.split)

text \<open>What the compilation of the steps returns: an error, or steps that are no modules.\<close>

definition flattened :: "(('t, 'w) provider \<Rightarrow> bool) \<Rightarrow> (('t, 'w) provider \<times> Step list result) option \<Rightarrow> bool" where
  "flattened I r \<longleftrightarrow> (\<exists>s x. r = Some (s, x) \<and> I s \<and> (\<forall>ps. x = Inr ps \<longrightarrow> (\<forall>st \<in> set ps. \<not> IsModule st)))"

lemma flattened_bind:
  assumes "flattened I r" and "\<forall>st \<in> set qs. \<not> IsModule st"
  shows "flattened I (Option.bind r (\<lambda>(s3, r3). Some (s3, map_sum id (\<lambda>ps. qs @ ps) r3)))"
proof -
  obtain s3 r3 where "r = Some (s3, r3)" "I s3" "\<forall>ps. r3 = Inr ps \<longrightarrow> (\<forall>st \<in> set ps. \<not> IsModule st)"
    using assms(1) by (auto simp: flattened_def)
  then show ?thesis using assms(2) by (cases r3) (auto simp: flattened_def)
qed

lemma flatten_rank:
  assumes keeps: "\<And>r s s' x. I s \<Longrightarrow> loadModule g env D mp r s = (s', x) \<Longrightarrow> I s'"
    and rank: "\<And>r s s' md st. I s \<Longrightarrow> loadModule g env D mp r s = (s', Inr md) \<Longrightarrow> st \<in> set (mod_Steps md) \<Longrightarrow> IsModule st
      \<Longrightarrow> rank (mr_Path (st_Module st)) < (rank (mr_Path r) :: nat)"
  shows "\<forall>st \<in> set steps. IsModule st \<longrightarrow> rank (mr_Path (st_Module st)) < n \<Longrightarrow> I s
    \<Longrightarrow> flattened I (flattenModuleSteps g env D mp steps s)"
proof (induction n arbitrary: steps s rule: less_induct)
  case (less n)
  from less.prems show ?case
  proof (induction steps arbitrary: s)
    case Nil
    then show ?case by (simp add: flatten_Nil flattened_def)
  next
    case (Cons st rest)
    have rest: "flattened I (flattenModuleSteps g env D mp rest s')" if "I s'" for s' using Cons that by simp
    show ?case
    proof (cases "IsModule st")
      case False
      then show ?thesis using flattened_bind [OF rest [of s], of "[st]"] Cons.prems by (simp add: flatten_step)
    next
      case True
      obtain s1 r1 where Pair: "loadModule g env D mp (st_Module st) s = (s1, r1)" by fastforce
      have s1: "I s1" by (rule keeps [OF Cons.prems(2) Pair])
      show ?thesis
      proof (cases r1)
        case (Inl err)
        then show ?thesis using Pair True s1 by (simp add: flatten_module flattened_def)
      next
        case (Inr md)
        have "\<forall>x \<in> set (mod_Steps md). IsModule x \<longrightarrow> rank (mr_Path (st_Module x)) < rank (mr_Path (st_Module st))"
          using rank [OF Cons.prems(2) Pair [unfolded Inr]] by blast
        moreover have "rank (mr_Path (st_Module st)) < n" using Cons.prems True by simp
        ultimately have "flattened I (flattenModuleSteps g env D mp (mod_Steps md) s1)" using less.IH s1 by blast
        then obtain s2 r2 where m: "flattenModuleSteps g env D mp (mod_Steps md) s1 = Some (s2, r2)" "I s2"
            "\<forall>ps. r2 = Inr ps \<longrightarrow> (\<forall>st \<in> set ps. \<not> IsModule st)"
          by (auto simp: flattened_def)
        show ?thesis
        proof (cases r2)
          case (Inl err)
          then show ?thesis using Pair Inr True m by (simp add: flatten_module flattened_def)
        next
          case (Inr qs)
          then show ?thesis using flattened_bind [OF rest [OF m(2)], of qs] Pair \<open>r1 = Inr md\<close> True m by (simp add: flatten_module)
        qed
      qed
    qed
  qed
qed

text \<open>The caches of a provider hold what the files \<open>files\<close> contain.\<close>

definition caches_ok :: "(string \<rightharpoonup> string) \<Rightarrow> ('t, 'w) provider_env \<Rightarrow> ('t, 'w) provider \<Rightarrow> bool" where
  "caches_ok files env s \<longleftrightarrow> (\<forall>path bin. map_of (binCache (fst s)) path = Some bin \<longrightarrow> files path = Some bin)
     \<and> (\<forall>path t. map_of (templateCache (fst s)) path = Some t \<longrightarrow> (\<exists>bin. files path = Some bin \<and> p_Parse env bin = Inr t))"

definition reads_files :: "(string \<rightharpoonup> string) \<Rightarrow> ('t, 'w) provider_env \<Rightarrow> bool" where
  "reads_files files env \<longleftrightarrow> (\<forall>path w w' bin. p_ReadFile env path w = (w', Inr bin) \<longrightarrow> files path = Some bin)"

lemma getRaw_files:
  assumes "reads_files files env" and "caches_ok files env s" and "getRaw env path s = (s', r)"
  shows "caches_ok files env s' \<and> (\<forall>bin. r = Inr bin \<longrightarrow> files path = Some bin) \<and> templateCache (fst s') = templateCache (fst s)"
  using assms unfolding getRaw_def reads_files_def
  by (cases s) (auto simp: caches_ok_def Let_def update_Some_unfold split: option.splits prod.splits sum.splits if_splits)

lemma getRawTemplate_files:
  assumes "reads_files files env" and "caches_ok files env s" and "getRawTemplate env path s = (s', r)"
  shows "caches_ok files env s' \<and> (\<forall>t. r = Inr t \<longrightarrow> (\<exists>bin. files path = Some bin \<and> p_Parse env bin = Inr t))"
proof (cases "map_of (templateCache (fst s)) path")
  case (Some t)
  then show ?thesis using assms(2,3) unfolding getRawTemplate_def caches_ok_def by auto
next
  case None
  obtain s1 r1 where g: "getRaw env path s = (s1, r1)" by fastforce
  note raw = getRaw_files [OF assms(1,2) g]
  show ?thesis
  proof (cases r1)
    case (Inl err)
    then show ?thesis using assms(3) None g raw by (auto simp: getRawTemplate_def)
  next
    case (Inr bin)
    then have "files path = Some bin" using raw by simp
    then show ?thesis using assms(3) None g raw Inr
      by (auto simp: getRawTemplate_def caches_ok_def update_Some_unfold split: sum.splits if_splits)
  qed
qed

lemma loadModule_files:
  assumes "reads_files files env" and "caches_ok files env s" and "loadModule g env D mp r s = (s', x)"
  shows "caches_ok files env s' \<and> (\<forall>md. x = Inr md \<longrightarrow> (\<exists>bin t m b. files (mr_Path r) = Some bin \<and> p_Parse env bin = Inr t
    \<and> p_Execute env t m = Inr b \<and> D b = Inr md))"
proof (cases "mr_Path r = []")
  case True
  then show ?thesis using assms(2,3) by (auto simp: loadModule_def)
next
  case False
  obtain s1 r1 where g: "getRawTemplate env (mr_Path r) s = (s1, r1)" by fastforce
  note raw = getRawTemplate_files [OF assms(1,2) g]
  show ?thesis
    using assms(3) False raw
    by (fastforce simp: loadModule_def TemplateInto_def getMappedTemplate_def g decodeInto_def Let_def split: sum.splits)
qed

text \<open>
  C7. Compiling the steps of a test ends, with an error or with steps none of which is a module, when
  the module files are not nested in a cycle: there is a rank of the files that decreases from a file
  to the modules that the steps in it use, whatever parameters the file's template is filled with.
\<close>

theorem flattenModuleSteps_terminates:
  assumes "reads_files files env" and "caches_ok files env s"
    and "\<forall>path bin t m b md. files path = Some bin \<and> p_Parse env bin = Inr t \<and> p_Execute env t m = Inr b \<and> D b = Inr md \<longrightarrow>
      (\<forall>st \<in> set (mod_Steps md). IsModule st \<longrightarrow> rank (mr_Path (st_Module st)) < (rank path :: nat))"
  shows "\<exists>s' r. flattenModuleSteps g env D mp steps s = Some (s', r) \<and> (\<forall>ps. r = Inr ps \<longrightarrow> (\<forall>st \<in> set ps. \<not> IsModule st))"
proof -
  have keeps: "caches_ok files env s2" if "caches_ok files env s1" "loadModule g env D mp r s1 = (s2, x)" for r s1 s2 x
    using loadModule_files [OF assms(1) that] by simp
  have rank: "rank (mr_Path (st_Module st)) < rank (mr_Path r)"
    if "caches_ok files env s1" "loadModule g env D mp r s1 = (s2, Inr md)" "st \<in> set (mod_Steps md)" "IsModule st" for r s1 s2 md st
    using loadModule_files [OF assms(1) that(1,2)] assms(3) that(3,4) by blast
  have "\<forall>st \<in> set steps. IsModule st \<longrightarrow> rank (mr_Path (st_Module st)) < Suc (Max (insert 0 ((\<lambda>st. rank (mr_Path (st_Module st))) ` set steps)))"
    by (auto simp: less_Suc_eq_le)
  then have "flattened (caches_ok files env) (flattenModuleSteps g env D mp steps s)"
    by (rule flatten_rank [where I = "caches_ok files env" and rank = rank, rotated 2])
      (rule assms(2), erule (1) keeps, erule (3) rank)
  then show ?thesis by (auto simp: flattened_def)
qed

text \<open>A module that starts with itself makes the compilation recurse without end.\<close>

lemma flatten_cycle_aux:
  assumes "flattenModuleSteps g env D mp steps s = Some y"
  shows "(\<forall>s. \<exists>s' md. loadModule g env D mp r s = (s', Inr md) \<and> mod_Steps md \<noteq> [] \<and> st_Module (hd (mod_Steps md)) = r)
    \<longrightarrow> mr_Path r \<noteq> [] \<longrightarrow> steps \<noteq> [] \<longrightarrow> st_Module (hd steps) \<noteq> r"
  using _ assms
proof (rule flattenModuleSteps.raw_induct
    [where P = "\<lambda>g env D mp steps s y. (\<forall>s. \<exists>s' md. loadModule g env D mp r s = (s', Inr md) \<and> mod_Steps md \<noteq> [] \<and> st_Module (hd (mod_Steps md)) = r)
      \<longrightarrow> mr_Path r \<noteq> [] \<longrightarrow> steps \<noteq> [] \<longrightarrow> st_Module (hd steps) \<noteq> r"], goal_cases)
  case (1 flatten g env D mp steps s y)
  show ?case
  proof (intro impI notI)
    assume cyc: "\<forall>s. \<exists>s' md. loadModule g env D mp r s = (s', Inr md) \<and> mod_Steps md \<noteq> [] \<and> st_Module (hd (mod_Steps md)) = r"
      and r: "mr_Path r \<noteq> []" and ne: "steps \<noteq> []" and hd: "st_Module (hd steps) = r"
    obtain st rest where steps: "steps = st # rest" using ne by (cases steps) auto
    obtain s' md where md: "loadModule g env D mp r s = (s', Inr md)" "mod_Steps md \<noteq> []" "st_Module (hd (mod_Steps md)) = r"
      using cyc by blast
    have "IsModule st" "st_Module st = r" using hd r steps by (simp_all add: IsModule_def)
    then obtain y' where "flatten g env D mp (mod_Steps md) s' = Some y'"
      using 1(2) md(1) steps by (auto simp: bind_eq_Some_conv)
    then show False using 1(1) cyc r md(2,3) by blast
  qed
qed

lemma flatten_cycle_diverges:
  assumes "\<And>s. \<exists>s' md. loadModule g env D mp r s = (s', Inr md) \<and> mod_Steps md \<noteq> [] \<and> st_Module (hd (mod_Steps md)) = r"
    and "mr_Path r \<noteq> []" and "st_Module st = r"
  shows "flattenModuleSteps g env D mp (st # steps) s = None"
proof (cases "flattenModuleSteps g env D mp (st # steps) s")
  case (Some y)
  have "st_Module (hd (st # steps)) \<noteq> r"
    by (rule flatten_cycle_aux [OF Some, rule_format]) (use assms in auto)
  then show ?thesis using assms(3) by simp
qed


subsection \<open>The steps of a test\<close>

fun run_steps ::
    "('s, 'm, 'd) test_env \<Rightarrow> nat \<Rightarrow> Step list \<Rightarrow> ('s, 'm, 'd) Context \<Rightarrow> (('s, 'm, 'd) Context \<times> ErrorList list) option" where
  "run_steps env i [] cx = Some (cx, [])"
| "run_steps env i (step # steps) cx = (case ExecuteStep env (numbered_step i step) cx of
      None \<Rightarrow> None
    | Some (cx', e) \<Rightarrow> map_option (\<lambda>(cx'', es). (cx'', e # es)) (run_steps env (Suc i) steps cx'))"

lemma not_critical_empty: "errors e = [] \<Longrightarrow> \<not> isErrsCritical e"
  by (simp add: isErrsCritical_def ErrorList_Has_iff)

definition stops_at_critical ::
    "('s, 'm, 'd) test_env \<Rightarrow> nat \<Rightarrow> Step list \<Rightarrow> ('s, 'm, 'd) Context \<Rightarrow> go_error list \<Rightarrow> ('s, 'm, 'd) Context \<Rightarrow> bool" where
  "stops_at_critical env i steps cx errs cx' \<longleftrightarrow> (\<exists>es. length es \<le> length steps
     \<and> run_steps env i (take (length es) steps) cx = Some (cx', es) \<and> errs = concat (map errors es)
     \<and> (\<forall>e \<in> set (butlast es). \<not> isErrsCritical e)
     \<and> (length es < length steps \<longrightarrow> es \<noteq> [] \<and> isErrsCritical (last es)))"

lemma stops_at_critical_Cons:
  assumes "ExecuteStep env (numbered_step i step) cx = Some (cx1, e)" and "\<not> isErrsCritical e"
    and "stops_at_critical env (Suc i) steps cx1 errs cx'"
  shows "stops_at_critical env i (step # steps) cx (errors e @ errs) cx'"
proof -
  obtain es where es: "length es \<le> length steps" "run_steps env (Suc i) (take (length es) steps) cx1 = Some (cx', es)"
      "errs = concat (map errors es)" "\<forall>e \<in> set (butlast es). \<not> isErrsCritical e"
      "length es < length steps \<longrightarrow> es \<noteq> [] \<and> isErrsCritical (last es)"
    using assms(3) unfolding stops_at_critical_def by (elim exE conjE)
  then show ?thesis using assms(1,2) unfolding stops_at_critical_def by (intro exI [of _ "e # es"]) auto
qed

lemma test_steps_loop_prefix:
  "test_steps_loop env i steps errList cx = Some (cx', errs) \<Longrightarrow>
     \<exists>new. errors errs = errors errList @ new \<and> stops_at_critical env i steps cx new cx'"
proof (induction steps arbitrary: i errList cx)
  case Nil
  then show ?case by (simp add: stops_at_critical_def)
next
  case (Cons step steps)
  obtain cx1 e where e: "ExecuteStep env (numbered_step i step) cx = Some (cx1, e)"
    using Cons.prems by (auto split: option.splits)
  show ?case
  proof (cases "isErrsCritical e")
    case True
    then have "cx' = cx1" "errors errs = errors errList @ errors e"
      using Cons.prems e not_critical_empty [of e] by (auto split: if_splits)
    then show ?thesis using True e unfolding stops_at_critical_def by (intro exI [of _ "errors e"] conjI exI [of _ "[e]"]) auto
  next
    case False
    then have "test_steps_loop env (Suc i) steps (if errors e = [] then errList else ErrorList_Concat errList (Some e)) cx1 = Some (cx', errs)"
      using Cons.prems e by auto
    from Cons.IH [OF this] obtain new where "errors errs = errors errList @ errors e @ new" "stops_at_critical env (Suc i) steps cx1 new cx'"
      by (auto split: if_splits)
    then show ?thesis using stops_at_critical_Cons [OF e False] by (intro exI [of _ "errors e @ new"]) simp
  qed
qed

text \<open>
  C6. A test runs its steps in order, each under its number, up to and including the first one that
  reports a critical error, and all of them when there is none; it returns the errors of the steps it ran, in order.
\<close>

theorem ExecuteTestSteps_stops_at_critical:
  assumes "ExecuteTestSteps env steps cx = Some (cx', errs)"
  shows "\<exists>es. length es \<le> length steps \<and> run_steps env 0 (take (length es) steps) cx = Some (cx', es)
    \<and> errors errs = concat (map errors es) \<and> (\<forall>e \<in> set (butlast es). \<not> isErrsCritical e)
    \<and> (length es < length steps \<longrightarrow> es \<noteq> [] \<and> isErrsCritical (last es))"
proof -
  have "stops_at_critical env 0 steps cx (errors errs) cx'"
    using test_steps_loop_prefix [OF assms [unfolded ExecuteTestSteps_def]] by auto
  then show ?thesis unfolding stops_at_critical_def .
qed

subsection \<open>The cleanup\<close>

lemma teardown_log:
  "dm_log (cx_dependencies (fst (on_dependencies (TeardownDependencies (te_dependency env)) c))) =
    dm_log (cx_dependencies c) @ map TeardownCall
      (torn_down (te_dependency env) (rev (dm_setupDependencies (cx_dependencies c))) (snd (ex_cluster (cx_exec c))))"
  by (simp add: on_dependencies_def TeardownDependencies_def split_beta teardown_loop_torn)

text \<open>
  C8. The cleanup of a test calls \<open>Teardown\<close> for the dependencies that were set up, last first, but
  only when the deletion of the automanaged namespaces reports no error: after an error none of them
  is torn down. A dependency for which the API server does not report its version when its turn
  comes is skipped, and the others are torn down all the same; none is skipped when the server always
  reports it.
\<close>

theorem cleanup_teardown:
  assumes "cleanupTestResourcesAndDependencies env conf cx = Some cx'"
  shows "\<exists>delete failed w. ns_DeleteAutomanagedNamespaces (cf_Namespace conf) = Some delete
    \<and> (if delete
        then \<exists>timeout f errs. ns_DeleteNamespaceTimeout (cf_Namespace conf) = Some timeout
          \<and> DeleteAutomanagedNamespaces (te_lib env) (te_sched_delete env) timeout (cx_framework cx, snd (ex_cluster (cx_exec cx))) = Some ((f, w), errs)
          \<and> failed = (errors errs \<noteq> [])
        else \<not> failed \<and> w = snd (ex_cluster (cx_exec cx)))
    \<and> dm_log (cx_dependencies cx') = dm_log (cx_dependencies cx) @
        (if failed then []
         else map TeardownCall (torn_down (te_dependency env) (rev (dm_setupDependencies (cx_dependencies cx))) w))
    \<and> subseq (torn_down (te_dependency env) (rev (dm_setupDependencies (cx_dependencies cx))) w)
        (rev (map fst (dm_setupDependencies (cx_dependencies cx))))
    \<and> ((\<forall>w. \<exists>w' v. d_ServerVersion (te_dependency env) w = (w', Inr v)) \<longrightarrow>
        torn_down (te_dependency env) (rev (dm_setupDependencies (cx_dependencies cx))) w
          = rev (map fst (dm_setupDependencies (cx_dependencies cx))))"
proof -
  let ?log = "\<lambda>c. dm_log (cx_dependencies c)" let ?dis = "rev (dm_setupDependencies (cx_dependencies cx))"
  let ?cx0 = "cx\<lparr>cx_manager := manager_Dispose (te_measurement env) (cx_manager cx)\<rparr>"
  let ?w = "(cx_framework cx, snd (ex_cluster (cx_exec cx)))"
  have torn: "subseq (torn_down (te_dependency env) ?dis w) (rev (map fst (dm_setupDependencies (cx_dependencies cx))))"
      "(\<forall>w. \<exists>w' v. d_ServerVersion (te_dependency env) w = (w', Inr v)) \<longrightarrow>
        torn_down (te_dependency env) ?dis w = rev (map fst (dm_setupDependencies (cx_dependencies cx)))" for w
    using torn_down_subseq [of "te_dependency env" ?dis w] torn_down_all [of "te_dependency env" ?dis w] by (simp_all add: rev_map)
  obtain delete where d: "ns_DeleteAutomanagedNamespaces (cf_Namespace conf) = Some delete"
    using assms unfolding cleanupTestResourcesAndDependencies_def Let_def
    by (cases "ns_DeleteAutomanagedNamespaces (cf_Namespace conf)") simp_all
  show ?thesis
  proof (cases delete)
    case False
    have "cx' = fst (on_dependencies (TeardownDependencies (te_dependency env)) ?cx0)"
      using assms d False unfolding cleanupTestResourcesAndDependencies_def Let_def by simp
    then have "?log cx' = ?log cx @ map TeardownCall (torn_down (te_dependency env) ?dis (snd ?w))"
      by (simp add: teardown_log)
    then show ?thesis using d False torn [of "snd ?w"]
      by (intro exI [of _ delete] exI [of _ False] exI [of _ "snd ?w"]) simp
  next
    case True
    obtain timeout where t: "ns_DeleteNamespaceTimeout (cf_Namespace conf) = Some timeout"
      using assms d True unfolding cleanupTestResourcesAndDependencies_def Let_def
      by (cases "ns_DeleteNamespaceTimeout (cf_Namespace conf)") simp_all
    obtain f s errs where del: "DeleteAutomanagedNamespaces (te_lib env) (te_sched_delete env) timeout ?w = Some ((f, s), errs)"
      using assms d True t unfolding cleanupTestResourcesAndDependencies_def Let_def on_framework_def
      by (cases "DeleteAutomanagedNamespaces (te_lib env) (te_sched_delete env) timeout ?w") auto
    let ?cx1 = "?cx0\<lparr>cx_framework := f, cx_exec := (cx_exec cx)\<lparr>ex_cluster := (fst (ex_cluster (cx_exec cx)), s)\<rparr>\<rparr>"
    have "cx' = (if errors errs \<noteq> [] then ?cx1 else fst (on_dependencies (TeardownDependencies (te_dependency env)) ?cx1))"
      using assms d True t del unfolding cleanupTestResourcesAndDependencies_def Let_def on_framework_def by (simp split: if_splits)
    then have "?log cx' = ?log cx @ (if errors errs \<noteq> [] then [] else map TeardownCall (torn_down (te_dependency env) ?dis s))"
      by (simp add: teardown_log)
    then show ?thesis using d True t del torn [of s]
      by (intro exI [of _ delete] exI [of _ "errors errs \<noteq> []"] exI [of _ s]) simp
  qed
qed


subsection \<open>The configuration a test runs with\<close>

lemma overwrite_number:
  "ChangeTest se \<lparr>overwriteTestConfig = [''Namespace.Number=0''], skipSteps = []\<rparr> c =
     Some (c\<lparr>cf_Namespace := (cf_Namespace c)\<lparr>ns_Number := 0\<rparr>\<rparr>, None)"
proof -
  let ?m = "\<lparr>overwriteTestConfig = [''Namespace.Number=0''], skipSteps = []\<rparr>"
  have skip: "modifySkipSteps ?m c = c" by (simp add: modifySkipSteps_def skip_loop_filter)
  have "parse_int 32 ''0'' = Some 0" by code_simp
  then have "modifyOverwrite se [''Namespace.Number=0''] (config_view c) =
      Some (config_view (c\<lparr>cf_Namespace := (cf_Namespace c)\<lparr>ns_Number := 0\<rparr>\<rparr>), None)"
    by (simp add: config_view_def namespace_view_def)
  then show ?thesis using skip by (simp add: ChangeTest_def)
qed

text \<open>
  C9. The flags are applied twice, when a test is compiled and again when it runs, so a value that the
  defaults corrected, and the validator saw corrected, is overwritten again: with \<open>Namespace.Number=0\<close> the compiled
  configuration asks for at least one namespace, and the test runs with none.
\<close>

theorem RunTest_undoes_defaults:
  assumes "CompileTestConfig cenv scenario s = Some (s', Some conf, errs)"
    and "ce_modifier cenv = \<lparr>overwriteTestConfig = [''Namespace.Number=0''], skipSteps = []\<rparr>"
  shows "1 \<le> ns_Number (cf_Namespace conf) \<and>
    RunTest se (ce_modifier cenv) env conf cx =
      ExecuteTest env (conf\<lparr>cf_Namespace := (cf_Namespace conf)\<lparr>ns_Number := 0\<rparr>\<rparr>)
        (cx\<lparr>cx_reporter := SetTestName (if te_Identifier env = [] then cf_Name conf else te_Identifier env) (cx_reporter cx)\<rparr>)"
proof -
  let ?n = "\<lambda>tc. tc\<lparr>cf_Namespace := (cf_Namespace tc)\<lparr>ns_Number := 0\<rparr>\<rparr>"
  obtain s1 tc where tc: "TemplateToConfig (ce_provider cenv) (ce_DecodeConfig cenv) (ce_Base cenv (ts_ConfigPath scenario)) (CloneMap (ce_mapping cenv)) s = (s1, Inr tc)"
    using assms(1) unfolding CompileTestConfig_def by (auto split: prod.splits sum.splits)
  let ?flat = "flattenModuleSteps (ce_goSyntax cenv) (ce_provider cenv) (ce_DecodeModule cenv) (ce_mapping cenv) (cf_Steps (?n tc)) s1"
  obtain s2 r where r: "?flat = Some (s2, r)"
    using assms(1) unfolding CompileTestConfig_def assms(2) tc overwrite_number by (cases ?flat) auto
  then obtain steps where steps: "?flat = Some (s2, Inr steps)"
    using assms(1) unfolding CompileTestConfig_def assms(2) tc overwrite_number by (cases r) auto
  obtain c where c: "conf = Config_SetDefaults (ce_draw cenv) c" "ns_Number (cf_Namespace c) = 0"
  proof
    show "conf = Config_SetDefaults (ce_draw cenv) (deprecated_defaults cenv ((?n tc)\<lparr>cf_Steps := steps\<rparr>))"
      using assms(1) unfolding CompileTestConfig_def assms(2) tc overwrite_number
      by (simp add: steps [simplified] Let_def split: option.splits)
    show "ns_Number (cf_Namespace (deprecated_defaults cenv ((?n tc)\<lparr>cf_Steps := steps\<rparr>))) = 0"
      by (simp add: deprecated_defaults_def Let_def)
  qed
  then have "1 \<le> ns_Number (cf_Namespace conf)" by (simp add: Config_SetDefaults_Number)
  then show ?thesis unfolding RunTest_def assms(2) overwrite_number by simp
qed


subsection \<open>A concrete test\<close>

text \<open>
  A server that refuses to delete namespaces, a framework with one namespace to delete, and a
  dependency that was set up. The measurement \<open>boom\<close> returns a critical error.
\<close>

definition refusing_server :: "string list clientset" where
  "refusing_server =
     \<lparr>pods_List = (\<lambda>_ _ s. (s, Inr [])), nodes_List = (\<lambda>_ s. (s, Inr [])), namespaces_List = (\<lambda>s. (s, Inr [])),
      namespaces_Create = (\<lambda>_ s. (s, None)), namespaces_Delete = (\<lambda>_ s. (s, Some (ErrText ''forbidden''))),
      namespaces_Get = (\<lambda>_ s. (s, None)), events_List = (\<lambda>_ _ s. (s, Inr [])), storageclasses_Delete = (\<lambda>_ s. (s, None))\<rparr>"

definition sample_context :: "(string list, nat, unit) Context" where
  "sample_context = \<lparr>cx_framework = \<lparr>automanagedNamespacePrefix = ''t'', automanagedNamespaces = [(''t-1'', True)],
       clientSets = \<lparr>mc_clients = [refusing_server], mc_current = 0\<rparr>, dynamicClients = \<lparr>mc_clients = [], mc_current = 0\<rparr>\<rparr>,
     cx_exec = \<lparr>ex_namespaces = newNamespacesState, ex_heap = [], ex_factory = NewFactory, ex_cluster = (0, [''a''])\<rparr>,
     cx_manager = CreateManager,
     cx_dependencies = \<lparr>dm_dependencies = [(''D'', ())], dm_setupDependencies = [(sample_dependency ''a'' 0, ())], dm_world = [''a''], dm_log = []\<rparr>,
     cx_monkey = NewMonkey False ''kind'', cx_stopClosed = False, cx_reporter = CreateSimpleReporter ''suite'', cx_files = []\<rparr>"

definition sample_test_env :: "(string list, nat, unit) test_env" where
  "sample_test_env = \<lparr>te_lib = sample_lib, te_MatchString = (\<lambda>_ _. Inr True),
     te_phase = \<lparr>RawToObject = (\<lambda>_. Inl (ErrText [])), TemplateToObject = (\<lambda>_ _. Inl (ErrText [])), TemplateMapping = [], NamespacePrefix = [],
       fw_CreateObject = (\<lambda>_ _ _ c. (c, None)), fw_PatchObject = (\<lambda>_ _ _ c. (c, None)), fw_DeleteObject = (\<lambda>_ _ _ c. (c, None)),
       LabelSelectorAsSelector = Inr, NumObjectsMatchingSelector = (\<lambda>_ _ _ _. Inr 0)\<rparr>,
     te_tuning = sample_tuning_env,
     te_measurement = sample_measurement_env\<lparr>m_Execute := (\<lambda>_ ident _ n.
       (n + 1, [], if ident = ''boom'' then Some (NewErrCritical (ErrText ''x'')) else None))\<rparr>,
     te_dependency = sample_dependency_env, te_ReportDir = [], te_Identifier = [], te_FormatRFC3339 = (\<lambda>_. []), te_Join = (\<lambda>d f. d @ f),
     te_WriteFile = (\<lambda>_ _. None), te_Since = (\<lambda>_. 7), te_sched_step = (\<lambda>_. [1, 1, 0, 0]), te_sched_measurement = (\<lambda>_. []),
     te_sched_phase = (\<lambda>_. []), te_sched_delete = []\<rparr>"

definition timer_step :: "string \<Rightarrow> string list \<Rightarrow> Step" where
  "timer_step name ids = \<lparr>st_Phases = [], st_Measurements = map (\<lambda>i. \<lparr>ms_Method = ''Timer'', ms_Params = [], ms_Identifier = i, ms_Instances = []\<rparr>) ids,
     st_Module = \<lparr>mr_Path = [], mr_Params = None\<rparr>, st_Name = name\<rparr>"

lemma timer_step_simps [simp]:
  "st_Name (timer_step n ids) = n" "st_Phases (timer_step n ids) = []" "st_Measurements (timer_step n []) = []"
  "map ms_Identifier (st_Measurements (timer_step n ids)) = ids"
  by (simp_all add: timer_step_def comp_def)

theorem ExecuteStep_reports_in_order_witness:
  "\<exists>cx' errs. ExecuteStep sample_test_env (timer_step ''s'' [''a'', ''b'']) sample_context = Some (cx', errs)
    \<and> map sp_ComponentTexts (rp_stepsSummaries (cx_reporter cx')) = [[''suite'', '': s [00] - a''], [''suite'', '': s [01] - b'']]"
proof -
  have "map_option snd (ExecuteStep sample_test_env (timer_step ''s'' [''a'', ''b'']) sample_context) = Some (NewErrorList [])"
    by code_simp
  then obtain cx' where r: "ExecuteStep sample_test_env (timer_step ''s'' [''a'', ''b'']) sample_context = Some (cx', NewErrorList [])" by auto
  have pads: "pad2 0 = ''00''" "pad2 1 = ''01''" by code_simp+
  have "substep_name 0 m = ''[00] - '' @ ms_Identifier m" "substep_name 1 m = ''[01] - '' @ ms_Identifier m" for m
    using pads by (simp_all add: substep_name_def)
  then show ?thesis using ExecuteStep_reports_in_order [OF r] r
    by (simp add: sample_context_def CreateSimpleReporter_def timer_step_def)
qed

theorem ExecuteTestSteps_stops_at_critical_witness:
  "\<exists>cx' errs es. ExecuteTestSteps sample_test_env [timer_step ''s'' [''boom''], timer_step ''t'' [''b'']] sample_context = Some (cx', errs)
    \<and> length es = 1 \<and> errors errs = concat (map errors es) \<and> isErrsCritical (last es)"
proof -
  let ?steps = "[timer_step ''s'' [''boom''], timer_step ''t'' [''b'']]"
  let ?run = "ExecuteTestSteps sample_test_env ?steps sample_context"
  have "map_option (\<lambda>(cx, errs). (length (errors errs), length (rp_stepsSummaries (cx_reporter cx)))) ?run = Some (1, 1)" by code_simp
  then obtain cx' errs where r: "?run = Some (cx', errs)" "length (errors errs) = 1" "length (rp_stepsSummaries (cx_reporter cx')) = 1" by auto
  have all: "map_option (\<lambda>(cx, es). length (rp_stepsSummaries (cx_reporter cx))) (run_steps sample_test_env 0 ?steps sample_context) = Some 2"
    by code_simp
  obtain es where es: "length es \<le> length ?steps" "run_steps sample_test_env 0 (take (length es) ?steps) sample_context = Some (cx', es)"
      "errors errs = concat (map errors es)" "length es < length ?steps \<longrightarrow> es \<noteq> [] \<and> isErrsCritical (last es)"
    using ExecuteTestSteps_stops_at_critical [OF r(1)] by (elim exE conjE)
  have "length es \<noteq> 2" using es(2) all r(3) by auto
  moreover have "length es \<noteq> 0" using es(3) r(2) by auto
  moreover have "length es \<le> 2" using es(1) by simp
  ultimately have "length es = 1" by linarith
  then show ?thesis using r(1) es(3,4) by (intro exI [of _ cx'] exI [of _ errs] exI [of _ es] conjI) simp_all
qed

lemma refused_deletion:
  "DeleteAutomanagedNamespaces sample_lib [] 60 (cx_framework sample_context, s) =
     Some ((cx_framework sample_context, s), NewErrorList [ErrText ''forbidden''])"
proof -
  have 6: "checks 6 cond s = (case cond s of (s', ok, err) \<Rightarrow> if err \<noteq> None \<or> ok then (s', err) else checks 5 cond s')"
    for cond and s :: "string list call_state" using checks.simps(2) [of 5 cond s] by simp
  have codes: "\<not> transient sample_lib [Allow (IsNotFound sample_lib)] (ErrText ''forbidden'')"
      "\<not> allowed [Allow (IsNotFound sample_lib)] (ErrText ''forbidden'')"
    by (simp_all add: allowed_def transient_def Allow_def IsRetryableAPIError_def isResourceQuotaConflictError_def IsRetryableNetError_def
        http2ClientConnectionLostErr_def sample_lib_def)
  have del: "DeleteNamespace sample_lib refusing_server ns s = (s, Some (ErrText ''forbidden''))" for ns and s :: "string list"
    by (simp add: DeleteNamespace_def RetryWithExponentialBackOff_checks [OF backoff_doc_sample] 6 RetryFunction_cases plain_call_def
        refusing_server_def codes)
  let ?f = "cx_framework sample_context"
  have client: "get_clientset (?f, s) = Some (refusing_server, ?f, s)"
    by (simp add: get_clientset_def GetClient_def sample_context_def)
  have "map (\<lambda>(ns, del). DeleteRequest ns) (filter (\<lambda>(ns, del). del) (getAutomanagedNamespaces ?f)) = [DeleteRequest ''t-1'' :: string list delete_thread]"
    by (simp add: getAutomanagedNamespaces_def sample_context_def)
  then show ?thesis
    by (simp add: DeleteAutomanagedNamespaces_def wait_group_def finishing_schedule_def client del numeral_2_eq_2 NewErrorList_def ErrorList_Append_def)
qed

definition sample_namespace :: NamespaceConfig where
  "sample_namespace = \<lparr>ns_Number = 1, ns_Prefix = ''t'', ns_DeleteStaleNamespaces = Some True, ns_DeleteAutomanagedNamespaces = Some True,
     ns_EnableExistingNamespaces = Some True, ns_DeleteNamespaceTimeout = Some 60\<rparr>"

theorem cleanup_teardown_witness:
  "\<exists>cx'. cleanupTestResourcesAndDependencies sample_test_env (sample_modifier_config\<lparr>cf_Namespace := sample_namespace\<rparr>) sample_context = Some cx'
    \<and> dm_setupDependencies (cx_dependencies sample_context) \<noteq> [] \<and> dm_log (cx_dependencies cx') = []"
proof -
  let ?conf = "sample_modifier_config\<lparr>cf_Namespace := sample_namespace\<rparr>"
  have env: "te_lib sample_test_env = sample_lib" "te_sched_delete sample_test_env = []" "te_dependency sample_test_env = sample_dependency_env"
    by (simp_all add: sample_test_env_def)
  have ns: "ns_DeleteAutomanagedNamespaces sample_namespace = Some True" "ns_DeleteNamespaceTimeout sample_namespace = Some 60"
    by (simp_all add: sample_namespace_def)
  obtain cx' where r: "cleanupTestResourcesAndDependencies sample_test_env ?conf sample_context = Some cx'"
    by (simp add: cleanupTestResourcesAndDependencies_def env ns on_framework_def refused_deletion)
  from cleanup_teardown [OF r] have "dm_log (cx_dependencies cx') = dm_log (cx_dependencies sample_context)"
    by (auto simp: env ns refused_deletion)
  then show ?thesis using r by (intro exI [of _ cx'] conjI) (simp_all add: sample_context_def)
qed

text \<open>A file that uses another one; a template is its text.\<close>

definition sample_files :: "string \<rightharpoonup> string" where
  "sample_files = [''a.yaml'' \<mapsto> ''a'', ''b.yaml'' \<mapsto> ''b'']"

definition sample_provider_env :: "(string, unit) provider_env" where
  "sample_provider_env = \<lparr>p_ReadFile = (\<lambda>path w. (w, case sample_files path of None \<Rightarrow> Inl (ErrText ''no file'') | Some b \<Rightarrow> Inr b)),
     p_Parse = Inr, p_Execute = (\<lambda>t _. Inr t), p_Decode = (\<lambda>_. Inl (ErrText []))\<rparr>"

definition module_step :: "string \<Rightarrow> Step" where
  "module_step path = (timer_step [] [])\<lparr>st_Module := \<lparr>mr_Path = path, mr_Params = None\<rparr>\<rparr>"

definition sample_modules :: "string \<Rightarrow> Module result" where
  "sample_modules b = Inr \<lparr>mod_Steps = (if b = ''a'' then [timer_step ''first'' [], module_step ''b.yaml''] else [timer_step ''second'' []])\<rparr>"

theorem flattenModuleSteps_terminates_witness:
  "\<exists>s' r. flattenModuleSteps mr_Path sample_provider_env sample_modules [] [module_step ''a.yaml''] (NewTemplateProvider, ()) = Some (s', r)
    \<and> (\<forall>ps. r = Inr ps \<longrightarrow> (\<forall>st \<in> set ps. \<not> IsModule st))"
proof (rule flattenModuleSteps_terminates [where files = sample_files and rank = "\<lambda>path. if path = ''a.yaml'' then 1 else 0"])
  show "reads_files sample_files sample_provider_env"
    by (simp add: reads_files_def sample_provider_env_def split: option.splits)
  show "caches_ok sample_files sample_provider_env (NewTemplateProvider, ())" by (simp add: caches_ok_def NewTemplateProvider_def)
qed (auto simp: sample_files_def sample_provider_env_def sample_modules_def module_step_def timer_step_def IsModule_def split: if_splits)

definition sample_compile_env :: "(string, unit) compile_env" where
  "sample_compile_env = \<lparr>ce_goSyntax = mr_Path, ce_provider = sample_provider_env, ce_DecodeConfig = (\<lambda>_. Inr sample_modifier_config),
     ce_DecodeModule = sample_modules, ce_mapping = [], ce_strconv = id,
     ce_modifier = \<lparr>overwriteTestConfig = [''Namespace.Number=0''], skipSteps = []\<rparr>,
     ce_Base = (\<lambda>_. ''a.yaml''), ce_Dir = (\<lambda>_. []), ce_DeleteStaleNamespaces = False, ce_DeleteAutomanagedNamespaces = True,
     ce_draw = (\<lambda>_. 0), ce_asError = (\<lambda>_. ErrText ''invalid''), ce_validation = sample_validation_env\<rparr>"

definition sample_scenario :: TestScenario where
  "sample_scenario = \<lparr>ts_Identifier = [], ts_ConfigPath = ''a.yaml'', ts_OverridePaths = []\<rparr>"

theorem RunTest_undoes_defaults_witness:
  "\<exists>s' conf errs. CompileTestConfig sample_compile_env sample_scenario (NewTemplateProvider, ()) = Some (s', Some conf, errs)
    \<and> 1 \<le> ns_Number (cf_Namespace conf)
    \<and> RunTest id (ce_modifier sample_compile_env) sample_test_env conf sample_context =
        ExecuteTest sample_test_env (conf\<lparr>cf_Namespace := (cf_Namespace conf)\<lparr>ns_Number := 0\<rparr>\<rparr>)
          (sample_context\<lparr>cx_reporter := SetTestName (cf_Name conf) (cx_reporter sample_context)\<rparr>)"
proof -
  let ?mod = "\<lparr>overwriteTestConfig = [''Namespace.Number=0''], skipSteps = []\<rparr>"
  let ?s = "(NewTemplateProvider, ())"
  have mod: "ce_modifier sample_compile_env = ?mod" by (simp add: sample_compile_env_def)
  obtain s1 where conf: "TemplateToConfig (ce_provider sample_compile_env) (ce_DecodeConfig sample_compile_env)
      (ce_Base sample_compile_env (ts_ConfigPath sample_scenario)) (CloneMap (ce_mapping sample_compile_env)) ?s = (s1, Inr sample_modifier_config)"
    by (simp add: sample_compile_env_def sample_provider_env_def sample_files_def TemplateToConfig_def TemplateInto_def getMappedTemplate_def
        getRawTemplate_def getRaw_def NewTemplateProvider_def decodeInto_def)
  have plain: "flattenModuleSteps g env D mp (cf_Steps sample_modifier_config) s = Some (s, Inr (cf_Steps sample_modifier_config))" for g env D mp s
    by (simp add: sample_modifier_config_def flatten_step flatten_Nil IsModule_def)
  have "\<exists>s' conf errs. CompileTestConfig sample_compile_env sample_scenario ?s = Some (s', Some conf, errs)"
    unfolding CompileTestConfig_def mod conf overwrite_number by (cases s1) (simp add: plain Let_def split: option.split)
  then obtain s' conf errs where r: "CompileTestConfig sample_compile_env sample_scenario ?s = Some (s', Some conf, errs)" by (elim exE)
  from RunTest_undoes_defaults [OF r mod, of id sample_test_env sample_context] r show ?thesis
    by (intro exI [of _ s'] exI [of _ conf] exI [of _ errs] conjI) (simp_all add: sample_test_env_def)
qed

end
