(* ===== verification/Informer.thy ===== *)
theory Informer
  imports Framework_Objects
begin

text \<open>
  Package \<open>pkg/measurement/util/informer\<close>: the event handler that turns the notifications of an
  informer into calls of one function on the old and the new object, and \<open>StartAndSync\<close>.

  The informer is library code: \<open>informed\<close> states what it delivers, and the locale
  \<open>informer_client\<close> carries an invariant between its store and the state of a handler through
  every sequence of notifications.
\<close>

datatype 'o notice = OnAdd 'o | OnUpdate 'o 'o | OnDelete 'o | OnDeleteUnknown string 'o

fun addEventHandler :: "('o option \<Rightarrow> 'o option \<Rightarrow> 's \<Rightarrow> 's) \<Rightarrow> 'o notice \<Rightarrow> 's \<Rightarrow> 's" where
  "addEventHandler handleObj (OnAdd obj) s = handleObj None (Some obj) s"
| "addEventHandler handleObj (OnUpdate oldObj newObj) s = handleObj (Some oldObj) (Some newObj) s"
| "addEventHandler handleObj (OnDelete obj) s = handleObj (Some obj) None s"
| "addEventHandler handleObj (OnDeleteUnknown key obj) s = handleObj (Some obj) None s"

definition StartAndSync :: "(duration \<Rightarrow> bool) \<Rightarrow> duration \<Rightarrow> go_error option" where
  "StartAndSync WaitForCacheSync timeout =
     (if \<not> WaitForCacheSync timeout then Some (ErrText ''timed out waiting for caches to sync'') else None)"

text \<open>
  The documented behaviour of an informer: it adds an object it does not have, updates one it has,
  and deletes one it has; the object of a deletion is a state of the one in the store (\<open>agrees\<close>).
  \<open>ok\<close> restricts the objects it watches.
\<close>

inductive informed ::
    "('o \<Rightarrow> 'k) \<Rightarrow> ('o \<Rightarrow> 'o \<Rightarrow> bool) \<Rightarrow> ('o \<Rightarrow> bool) \<Rightarrow> ('k \<rightharpoonup> 'o) \<Rightarrow> 'o notice list \<Rightarrow> ('k \<rightharpoonup> 'o) \<Rightarrow> bool"
  for key agrees ok where
  informed_nil: "informed key agrees ok st [] st"
| informed_add: "ok obj \<Longrightarrow> st (key obj) = None \<Longrightarrow> informed key agrees ok (st(key obj \<mapsto> obj)) es st'
    \<Longrightarrow> informed key agrees ok st (OnAdd obj # es) st'"
| informed_update: "ok new \<Longrightarrow> key new = key old \<Longrightarrow> st (key old) = Some old \<Longrightarrow> informed key agrees ok (st(key old \<mapsto> new)) es st'
    \<Longrightarrow> informed key agrees ok st (OnUpdate old new # es) st'"
| informed_delete: "ok obj \<Longrightarrow> st (key obj) = Some cur \<Longrightarrow> agrees cur obj \<Longrightarrow> informed key agrees ok (st(key obj := None)) es st'
    \<Longrightarrow> informed key agrees ok st (OnDelete obj # es) st'"
| informed_unknown: "ok obj \<Longrightarrow> st (key obj) = Some cur \<Longrightarrow> agrees cur obj \<Longrightarrow> informed key agrees ok (st(key obj := None)) es st'
    \<Longrightarrow> informed key agrees ok st (OnDeleteUnknown name obj # es) st'"

inductive_simps informed_simps:
  "informed key agrees ok st [] st'"
  "informed key agrees ok st (OnAdd obj # es) st'"
  "informed key agrees ok st (OnUpdate old new # es) st'"
  "informed key agrees ok st (OnDelete obj # es) st'"
  "informed key agrees ok st (OnDeleteUnknown name obj # es) st'"

lemma informed_append:
  "informed key agrees ok st (es @ fs) st2 \<longleftrightarrow> (\<exists>st1. informed key agrees ok st es st1 \<and> informed key agrees ok st1 fs st2)"
proof (induction es arbitrary: st)
  case (Cons e es)
  show ?case by (cases e) (auto simp: Cons.IH informed_simps simp del: fun_upd_apply)
qed (simp add: informed_simps)

lemma informed_mono:
  assumes "informed key agrees ok st es st'" and "\<And>obj. ok obj \<Longrightarrow> ok' obj" and "\<And>cur obj. agrees cur obj \<Longrightarrow> agrees' cur obj"
  shows "informed key agrees' ok' st es st'"
  using assms(1) by (induction rule: informed.induct) (blast intro: informed.intros assms(2,3))+

text \<open>A handler with an invariant that relates its state to the store of the informer.\<close>

locale informer_client =
  fixes key :: "'o \<Rightarrow> 'k" and agrees :: "'o \<Rightarrow> 'o \<Rightarrow> bool" and ok :: "'o \<Rightarrow> bool"
    and handleObj :: "'o option \<Rightarrow> 'o option \<Rightarrow> 's \<Rightarrow> 's" and Inv :: "('k \<rightharpoonup> 'o) \<Rightarrow> 's \<Rightarrow> bool"
  assumes on_add: "Inv st s \<Longrightarrow> ok obj \<Longrightarrow> st (key obj) = None \<Longrightarrow> Inv (st(key obj \<mapsto> obj)) (handleObj None (Some obj) s)"
    and on_update: "Inv st s \<Longrightarrow> ok new \<Longrightarrow> key new = key old \<Longrightarrow> st (key old) = Some old
      \<Longrightarrow> Inv (st(key old \<mapsto> new)) (handleObj (Some old) (Some new) s)"
    and on_delete: "Inv st s \<Longrightarrow> ok obj \<Longrightarrow> st (key obj) = Some cur \<Longrightarrow> agrees cur obj
      \<Longrightarrow> Inv (st(key obj := None)) (handleObj (Some obj) None s)"
begin

lemma handles_notices:
  "informed key agrees ok st es st' \<Longrightarrow> Inv st s \<Longrightarrow> Inv st' (fold (addEventHandler handleObj) es s)"
  by (induction arbitrary: s rule: informed.induct) (auto intro: on_add on_update on_delete)

end

end
