(* ===== verification/Runtime_Objects.thy ===== *)
theory Runtime_Objects
  imports Informer Config
begin

text \<open>
  Package \<open>pkg/measurement/util/runtimeobjects\<close>: the spec, the resource version and the number of
  replicas of a controlling object, and the watchers of that number (\<open>replicaswatcher.go\<close>). An
  object is unstructured, as an informer of a dynamic client delivers it, or one of the typed
  objects of the Kubernetes API with the fields the code reads.

  \<open>rt_lib\<close> holds the functions of the Kubernetes libraries. An accessor of unstructured content
  returns an error, nothing, or the value; a panic is \<open>None\<close>.
\<close>

record object_meta =
  om_Namespace :: string
  om_Name :: string
  om_ResourceVersion :: string

record Toleration =
  to_Key :: string
  to_Operator :: string
  to_Value :: string
  to_Effect :: string

record Affinity =
  af_NodeAffinity :: "params option option"

record PodSpec =
  pd_NodeSelector :: "(string, string) go_map"
  pd_Affinity :: "Affinity option"
  pd_Tolerations :: "Toleration list"
  pd_HostNetwork :: bool

record typed_spec =
  ty_Replicas :: "int option"
  ty_Template :: PodSpec
  ty_Rest :: params

datatype runtime_object =
    RUnstructured Unstructured
  | RReplicationController typed_spec
  | RReplicaSet typed_spec
  | RDeployment typed_spec
  | RStatefulSet typed_spec
  | RDaemonSet typed_spec
  | RJob typed_spec
  | ROther string

text \<open>A spec is nil, the map of an unstructured object or a value of one of the typed specs.\<close>

datatype spec_value = NilSpec | MapSpec params | TypedSpec string typed_spec

record rt_lib =
  rl_Accessor :: "runtime_object \<Rightarrow> object_meta result"
  rl_KeyFunc :: "runtime_object \<Rightarrow> string result"
  rl_NestedMap :: "params \<Rightarrow> string \<Rightarrow> params option result"
  rl_NestedInt64 :: "params \<Rightarrow> string \<Rightarrow> int option result"
  rl_NestedStringMap :: "params \<Rightarrow> string \<Rightarrow> (string, string) go_map option result"
  rl_NestedSlice :: "params \<Rightarrow> string \<Rightarrow> gval list option result"
  rl_ToAffinity :: "params \<Rightarrow> Affinity \<times> go_error option"
  rl_ToToleration :: "params \<Rightarrow> Toleration result"
  rl_ToPodTemplate :: "params \<Rightarrow> PodSpec result"
  rl_MatchToleration :: "Toleration \<Rightarrow> Toleration \<Rightarrow> bool"
  rl_LabelSelectorAsSelector :: "(string, string) go_map \<Rightarrow> string result"
  rl_MatchNodeSelectorTerms :: "Node \<Rightarrow> params \<Rightarrow> bool \<times> go_error option"
  rl_HasUntoleratedTaint :: "(string \<times> string) list \<Rightarrow> Toleration list \<Rightarrow> (string \<times> string \<Rightarrow> bool) \<Rightarrow> bool"
  rl_DeepEqual :: "spec_value \<Rightarrow> spec_value \<Rightarrow> bool"
  rl_DeepDerivative :: "PodSpec \<Rightarrow> Pod \<Rightarrow> bool"
  rl_SpecDiff :: "PodSpec \<Rightarrow> Pod \<Rightarrow> string"
  rl_fmt_object :: "runtime_object \<Rightarrow> string"

subsection \<open>Listing and accessors\<close>

fun captured_objects :: "captured \<Rightarrow> Unstructured list" where
  "captured_objects (ObjectItems objs) = objs" | "captured_objects _ = []"

definition ListRuntimeObjectsForKind ::
    "'s client_lib \<Rightarrow> 's dynamic_client \<Rightarrow> GroupVersionResource \<Rightarrow> string \<Rightarrow> string \<Rightarrow> 's \<Rightarrow> 's \<times> runtime_object list result" where
  "ListRuntimeObjectsForKind lib d gvr labelSelector fieldSelector s =
     (let listOpts = \<lparr>lo_LabelSelector = labelSelector, lo_FieldSelector = fieldSelector\<rparr>
      in case RetryWithExponentialBackOff lib (RetryFunction lib (list_call (dyn_List d gvr [] listOpts) ObjectItems) []) (s, NoCapture) of
           ((s', cap), Some err) \<Rightarrow> (s', Inl err)
         | ((s', cap), None) \<Rightarrow> (s', Inr (map RUnstructured (captured_objects cap))))"

definition GetNumObjectsMatchingSelector ::
    "'s client_lib \<Rightarrow> 's dynamic_client \<Rightarrow> string \<Rightarrow> GroupVersionResource \<Rightarrow> string \<Rightarrow> 's \<Rightarrow> 's \<times> int \<times> go_error option" where
  "GetNumObjectsMatchingSelector lib c namespace resource labelSelector s =
     (let opts = \<lparr>lo_LabelSelector = labelSelector, lo_FieldSelector = []\<rparr>;
          ((s', cap), err) = RetryWithExponentialBackOff lib (RetryFunction lib (list_call (dyn_List c resource namespace opts) ObjectItems) []) (s, NoCapture)
      in (s', int (length (captured_objects cap)), err))"

definition GetResourceVersionFromRuntimeObject :: "rt_lib \<Rightarrow> runtime_object \<Rightarrow> uint64 result" where
  "GetResourceVersionFromRuntimeObject lib obj = (case rl_Accessor lib obj of
      Inl err \<Rightarrow> Inl (ErrText (''accessor error: '' @ Error err))
    | Inr accessor \<Rightarrow>
        (let version = om_ResourceVersion accessor
         in if length version = 0 then Inr 0
            else case parse_uint64 version of
                   None \<Rightarrow> Inl (ErrText (''strconv.ParseUint: parsing '' @ fmt_q version
                     @ (if atou version = None then '': invalid syntax'' else '': value out of range'')))
                 | Some v \<Rightarrow> Inr v))"

definition getIsPodUpdatedPodPredicateFromUnstructured :: "rt_lib \<Rightarrow> Unstructured \<Rightarrow> (Pod \<Rightarrow> go_error option) result" where
  "getIsPodUpdatedPodPredicateFromUnstructured lib obj =
     (let nested = (case rl_NestedMap lib (un_Object obj) ''spec'' of
            Inl err \<Rightarrow> Inl err | Inr None \<Rightarrow> Inr None | Inr (Some spec) \<Rightarrow> rl_NestedMap lib spec ''template'')
      in case nested of
           Inl err \<Rightarrow> Inl (ErrText (''failed to get pod template: '' @ Error err))
         | Inr None \<Rightarrow> Inl (ErrText (''spec.template is not set in object '' @ rl_fmt_object lib (RUnstructured obj)))
         | Inr (Some templateMap) \<Rightarrow>
             (case rl_ToPodTemplate lib templateMap of
                Inl err \<Rightarrow> Inl (ErrText ''failed to parse spec.teemplate as v1.PodTemplateSpec'')
              | Inr template \<Rightarrow> Inr (\<lambda>pod. if \<not> rl_DeepDerivative lib template pod
                    then Some (ErrText (''Not matching templates, diff: '' @ rl_SpecDiff lib template pod)) else None)))"

fun GetIsPodUpdatedPredicateFromRuntimeObject :: "rt_lib \<Rightarrow> runtime_object \<Rightarrow> (Pod \<Rightarrow> go_error option) result" where
  "GetIsPodUpdatedPredicateFromRuntimeObject lib (RUnstructured typed) = getIsPodUpdatedPodPredicateFromUnstructured lib typed"
| "GetIsPodUpdatedPredicateFromRuntimeObject lib obj =
     Inl (ErrText (''unsupported kind when getting updated pod predicate: '' @ rl_fmt_object lib obj))"

definition getSpecFromUnstrutured :: "rt_lib \<Rightarrow> Unstructured \<Rightarrow> params result" where
  "getSpecFromUnstrutured lib obj = (case rl_NestedMap lib (un_Object obj) ''spec'' of
      Inl err \<Rightarrow> Inl (ErrText (''try to acquire spec failed, '' @ Error err))
    | Inr None \<Rightarrow> Inl (ErrText (''try to acquire spec failed, no field spec for obj ''
        @ (case rl_Accessor lib (RUnstructured obj) of Inl _ \<Rightarrow> [] | Inr m \<Rightarrow> om_Name m)))
    | Inr (Some spec) \<Rightarrow> Inr spec)"

fun GetSpecFromRuntimeObject :: "rt_lib \<Rightarrow> runtime_object option \<Rightarrow> spec_value result" where
  "GetSpecFromRuntimeObject lib None = Inr NilSpec"
| "GetSpecFromRuntimeObject lib (Some (RUnstructured typed)) = map_sum id MapSpec (getSpecFromUnstrutured lib typed)"
| "GetSpecFromRuntimeObject lib (Some (RReplicationController typed)) = Inr (TypedSpec ''ReplicationControllerSpec'' typed)"
| "GetSpecFromRuntimeObject lib (Some (RReplicaSet typed)) = Inr (TypedSpec ''ReplicaSetSpec'' typed)"
| "GetSpecFromRuntimeObject lib (Some (RDeployment typed)) = Inr (TypedSpec ''DeploymentSpec'' typed)"
| "GetSpecFromRuntimeObject lib (Some (RStatefulSet typed)) = Inr (TypedSpec ''StatefulSetSpec'' typed)"
| "GetSpecFromRuntimeObject lib (Some (RDaemonSet typed)) = Inr (TypedSpec ''DaemonSetSpec'' typed)"
| "GetSpecFromRuntimeObject lib (Some (RJob typed)) = Inr (TypedSpec ''JobSpec'' typed)"
| "GetSpecFromRuntimeObject lib (Some obj) = Inl (ErrText (''unsupported kind when getting spec: '' @ rl_fmt_object lib obj))"

definition IsEqualRuntimeObjectsSpec :: "rt_lib \<Rightarrow> runtime_object option \<Rightarrow> runtime_object option \<Rightarrow> bool result" where
  "IsEqualRuntimeObjectsSpec lib runtimeObj1 runtimeObj2 = (case GetSpecFromRuntimeObject lib runtimeObj1 of
      Inl err \<Rightarrow> Inl err
    | Inr spec1 \<Rightarrow> (case GetSpecFromRuntimeObject lib runtimeObj2 of
        Inl err \<Rightarrow> Inl err | Inr spec2 \<Rightarrow> Inr (rl_DeepEqual lib spec1 spec2)))"

subsection \<open>Watchers of the number of replicas\<close>

record NodeCounter =
  nc_nodeSelector :: string
  nc_affinity :: "Affinity option"
  nc_replicas :: int
  nc_tolerations :: "Toleration list"

datatype ReplicasWatcher = ConstReplicas int | WNodeCounter NodeCounter

definition NewNodeCounter :: "string \<Rightarrow> Affinity option \<Rightarrow> Toleration list \<Rightarrow> NodeCounter" where
  "NewNodeCounter nodeSelector affinity tolerations =
     \<lparr>nc_nodeSelector = nodeSelector, nc_affinity = affinity, nc_replicas = 0, nc_tolerations = tolerations\<rparr>"

definition podMatchesNodeAffinity :: "rt_lib \<Rightarrow> Affinity option \<Rightarrow> Node \<Rightarrow> bool \<times> go_error option" where
  "podMatchesNodeAffinity lib affinity node = (case affinity of
      None \<Rightarrow> (True, None)
    | Some a \<Rightarrow> (case af_NodeAffinity a of
        None \<Rightarrow> (True, None)
      | Some None \<Rightarrow> (True, None)
      | Some (Some required) \<Rightarrow> rl_MatchNodeSelectorTerms lib node required))"

datatype watched = WNode Node | WUnexpected string

fun shouldRun :: "rt_lib \<Rightarrow> NodeCounter \<Rightarrow> watched option \<Rightarrow> bool \<times> go_error option" where
  "shouldRun lib n None = (False, None)"
| "shouldRun lib n (Some (WUnexpected obj)) = (False, Some (ErrText (''unexpected type of obj: '' @ obj)))"
| "shouldRun lib n (Some (WNode node)) =
     (let (matched, err) = podMatchesNodeAffinity lib (nc_affinity n) node;
          hasUntoleratedTaint = rl_HasUntoleratedTaint lib (node_Taints node) (nc_tolerations n)
            (\<lambda>(key, effect). effect = ''NoExecute'' \<or> effect = ''NoSchedule'')
      in (\<not> hasUntoleratedTaint \<and> matched, err))"

definition NodeCounter_handleObject ::
    "rt_lib \<Rightarrow> watched option \<Rightarrow> watched option \<Rightarrow> NodeCounter \<Rightarrow> NodeCounter \<times> go_error option" where
  "NodeCounter_handleObject lib oldObj newObj n = (case shouldRun lib n oldObj of
      (oldO, Some err) \<Rightarrow> (n, Some err)
    | (oldO, None) \<Rightarrow> (case shouldRun lib n newObj of
        (newO, Some err) \<Rightarrow> (n, Some err)
      | (newO, None) \<Rightarrow>
          if newO = oldO then (n, None)
          else if newO \<and> \<not> oldO then (n\<lparr>nc_replicas := nc_replicas n + 1\<rparr>, None)
          else (n\<lparr>nc_replicas := nc_replicas n - 1\<rparr>, None)))"

definition NodeCounter_handler :: "rt_lib \<Rightarrow> watched option \<Rightarrow> watched option \<Rightarrow> NodeCounter \<Rightarrow> NodeCounter" where
  "NodeCounter_handler lib oldObj newObj n = fst (NodeCounter_handleObject lib oldObj newObj n)"

fun watcher_Replicas :: "ReplicasWatcher \<Rightarrow> int" where
  "watcher_Replicas (ConstReplicas c) = c"
| "watcher_Replicas (WNodeCounter n) = nc_replicas n"

text \<open>
  Starting a watcher. The list and watch requests for the nodes carry the selector of the counter;
  \<open>served\<close> gives the notices that an informer with these options delivers before it has synced.
\<close>

definition node_options :: "NodeCounter \<Rightarrow> ListOptions" where
  "node_options n = \<lparr>lo_LabelSelector = nc_nodeSelector n, lo_FieldSelector = []\<rparr>"

fun watcher_Start ::
    "rt_lib \<Rightarrow> (duration \<Rightarrow> bool) \<Rightarrow> (ListOptions \<Rightarrow> watched notice list) \<Rightarrow> ReplicasWatcher \<Rightarrow> ReplicasWatcher \<times> go_error option" where
  "watcher_Start lib sync served (ConstReplicas c) = (ConstReplicas c, None)"
| "watcher_Start lib sync served (WNodeCounter n) =
     (WNodeCounter (fold (addEventHandler (NodeCounter_handler lib)) (served (node_options n)) n), StartAndSync sync (60 * second))"

definition GetReplicasOnce ::
    "rt_lib \<Rightarrow> (duration \<Rightarrow> bool) \<Rightarrow> (ListOptions \<Rightarrow> watched notice list) \<Rightarrow> ReplicasWatcher \<Rightarrow> int result" where
  "GetReplicasOnce lib sync served rw = (case watcher_Start lib sync served rw of
      (rw', Some err) \<Rightarrow> Inl err | (rw', None) \<Rightarrow> Inr (watcher_Replicas rw'))"

subsection \<open>The number of replicas of an object\<close>

definition getDaemonSetNumSchedulableNodes :: "rt_lib \<Rightarrow> PodSpec \<Rightarrow> ReplicasWatcher result" where
  "getDaemonSetNumSchedulableNodes lib podSpec = (case rl_LabelSelectorAsSelector lib (pd_NodeSelector podSpec) of
      Inl err \<Rightarrow> Inl err
    | Inr selector \<Rightarrow> Inr (WNodeCounter (NewNodeCounter selector (pd_Affinity podSpec) (pd_Tolerations podSpec))))"

text \<open>The parser of a DaemonSet is the content of its pod spec, an empty map when there is none.\<close>

definition newDaemonSetPodSpecParser :: "rt_lib \<Rightarrow> params \<Rightarrow> params result" where
  "newDaemonSetPodSpecParser lib spec = (case rl_NestedMap lib spec ''template'' of
      Inl err \<Rightarrow> Inl err
    | Inr None \<Rightarrow> Inr []
    | Inr (Some template) \<Rightarrow> (case rl_NestedMap lib template ''spec'' of
        Inl err \<Rightarrow> Inl err | Inr None \<Rightarrow> Inr [] | Inr (Some podSpec) \<Rightarrow> Inr podSpec))"

definition getDaemonSetNodeSelectorFromUnstructuredSpec :: "rt_lib \<Rightarrow> params \<Rightarrow> PodSpec \<Rightarrow> PodSpec \<times> go_error option" where
  "getDaemonSetNodeSelectorFromUnstructuredSpec lib p spec = (case rl_NestedStringMap lib p ''nodeSelector'' of
      Inl err \<Rightarrow> (spec\<lparr>pd_NodeSelector := []\<rparr>, Some err)
    | Inr None \<Rightarrow> (spec\<lparr>pd_NodeSelector := []\<rparr>, None)
    | Inr (Some nodeSelector) \<Rightarrow> (spec\<lparr>pd_NodeSelector := nodeSelector\<rparr>, None))"

definition getDaemonSetAffinityFromUnstructuredSpec :: "rt_lib \<Rightarrow> params \<Rightarrow> PodSpec \<Rightarrow> PodSpec \<times> go_error option" where
  "getDaemonSetAffinityFromUnstructuredSpec lib p spec = (case rl_NestedMap lib p ''affinity'' of
      Inl err \<Rightarrow> (spec, Some err)
    | Inr None \<Rightarrow> (spec, None)
    | Inr (Some m) \<Rightarrow> (let (affinity, err) = rl_ToAffinity lib m in (spec\<lparr>pd_Affinity := Some affinity\<rparr>, err)))"

fun toleration_loop :: "rt_lib \<Rightarrow> Toleration \<Rightarrow> Toleration list \<Rightarrow> Toleration list \<times> bool" where
  "toleration_loop lib toleration [] = ([], False)"
| "toleration_loop lib toleration (t # ts) = (let (rest, updated) = toleration_loop lib toleration ts
     in if rl_MatchToleration lib toleration t then (toleration # rest, True) else (t # rest, updated))"

definition addOrUpdateTolerationInPodSpec :: "rt_lib \<Rightarrow> Toleration \<Rightarrow> PodSpec \<Rightarrow> PodSpec" where
  "addOrUpdateTolerationInPodSpec lib toleration spec =
     (let (newTolerations, updated) = toleration_loop lib toleration (pd_Tolerations spec)
      in spec\<lparr>pd_Tolerations := (if \<not> updated then newTolerations @ [toleration] else newTolerations)\<rparr>)"

definition exists_toleration :: "string \<Rightarrow> string \<Rightarrow> Toleration" where
  "exists_toleration key effect = \<lparr>to_Key = key, to_Operator = ''Exists'', to_Value = [], to_Effect = effect\<rparr>"

definition addOrUpdateDaemonPodTolerations :: "rt_lib \<Rightarrow> PodSpec \<Rightarrow> PodSpec" where
  "addOrUpdateDaemonPodTolerations lib spec = fold (addOrUpdateTolerationInPodSpec lib)
     ([exists_toleration ''node.kubernetes.io/not-ready'' ''NoExecute'',
       exists_toleration ''node.kubernetes.io/disk-pressure'' ''NoSchedule'',
       exists_toleration ''node.kubernetes.io/memory-pressure'' ''NoSchedule'',
       exists_toleration ''node.kubernetes.io/pid-pressure'' ''NoSchedule'',
       exists_toleration ''node.kubernetes.io/unschedulable'' ''NoSchedule'']
      @ (if pd_HostNetwork spec then [exists_toleration ''node.kubernetes.io/network-unavailable'' ''NoSchedule''] else [])) spec"

text \<open>The type assertion of an element that is not a map panics.\<close>

fun spec_tolerations_loop :: "rt_lib \<Rightarrow> gval list \<Rightarrow> PodSpec \<Rightarrow> (PodSpec \<times> go_error option) option" where
  "spec_tolerations_loop lib [] spec = Some (spec, None)"
| "spec_tolerations_loop lib (VMap m # vs) spec = (case rl_ToToleration lib m of
      Inl err \<Rightarrow> Some (spec, Some err)
    | Inr toleration \<Rightarrow> spec_tolerations_loop lib vs (addOrUpdateTolerationInPodSpec lib toleration spec))"
| "spec_tolerations_loop lib (v # vs) spec = None"

definition getDaemonSetTolerationsFromUnstructuredSpec :: "rt_lib \<Rightarrow> params \<Rightarrow> PodSpec \<Rightarrow> (PodSpec \<times> go_error option) option" where
  "getDaemonSetTolerationsFromUnstructuredSpec lib p spec0 =
     (let spec = addOrUpdateDaemonPodTolerations lib spec0
      in case rl_NestedSlice lib p ''tolerations'' of
           Inl err \<Rightarrow> Some (spec, Some err)
         | Inr None \<Rightarrow> Some (spec, None)
         | Inr (Some vs) \<Rightarrow> spec_tolerations_loop lib vs spec)"

definition zero_PodSpec :: PodSpec where
  "zero_PodSpec = \<lparr>pd_NodeSelector = [], pd_Affinity = None, pd_Tolerations = [], pd_HostNetwork = False\<rparr>"

definition tryAcquireReplicasFromUnstructuredSpec :: "rt_lib \<Rightarrow> params \<Rightarrow> string \<Rightarrow> ReplicasWatcher result option" where
  "tryAcquireReplicasFromUnstructuredSpec lib spec kind =
     (if kind = ''DaemonSet'' then
        (case newDaemonSetPodSpecParser lib spec of
           Inl err \<Rightarrow> Some (Inl err)
         | Inr parser \<Rightarrow> (case getDaemonSetNodeSelectorFromUnstructuredSpec lib parser zero_PodSpec of
             (spec1, Some err) \<Rightarrow> Some (Inl err)
           | (spec1, None) \<Rightarrow> (case getDaemonSetAffinityFromUnstructuredSpec lib parser spec1 of
               (spec2, Some err) \<Rightarrow> Some (Inl err)
             | (spec2, None) \<Rightarrow> (case getDaemonSetTolerationsFromUnstructuredSpec lib parser spec2 of
                 None \<Rightarrow> None
               | Some (spec3, Some err) \<Rightarrow> Some (Inl err)
               | Some (spec3, None) \<Rightarrow> Some (getDaemonSetNumSchedulableNodes lib spec3)))))
      else if kind = ''Job'' then
        (case rl_NestedInt64 lib spec ''parallelism'' of
           Inl err \<Rightarrow> Some (Inl (ErrText (''try to acquire job parallelism failed, '' @ Error err)))
         | Inr None \<Rightarrow> Some (Inr (ConstReplicas 0))
         | Inr (Some replicas) \<Rightarrow> Some (Inr (ConstReplicas replicas)))
      else
        (case rl_NestedInt64 lib spec ''replicas'' of
           Inl err \<Rightarrow> Some (Inl (ErrText (''try to acquire replicas failed, '' @ Error err)))
         | Inr None \<Rightarrow> Some (Inr (ConstReplicas 0))
         | Inr (Some replicas) \<Rightarrow> Some (Inr (ConstReplicas replicas))))"

definition getReplicasFromUnstrutured :: "rt_lib \<Rightarrow> Unstructured \<Rightarrow> ReplicasWatcher result option" where
  "getReplicasFromUnstrutured lib obj = (case getSpecFromUnstrutured lib obj of
      Inl err \<Rightarrow> Some (Inl err)
    | Inr spec \<Rightarrow> tryAcquireReplicasFromUnstructuredSpec lib spec (gvk_Kind (un_GroupVersionKind obj)))"

definition typed_replicas :: "typed_spec \<Rightarrow> ReplicasWatcher result option" where
  "typed_replicas spec = Some (Inr (ConstReplicas (case ty_Replicas spec of Some n \<Rightarrow> n | None \<Rightarrow> 0)))"

fun GetReplicasFromRuntimeObject :: "rt_lib \<Rightarrow> runtime_object option \<Rightarrow> ReplicasWatcher result option" where
  "GetReplicasFromRuntimeObject lib None = Some (Inr (ConstReplicas 0))"
| "GetReplicasFromRuntimeObject lib (Some (RUnstructured typed)) = getReplicasFromUnstrutured lib typed"
| "GetReplicasFromRuntimeObject lib (Some (RReplicationController typed)) = typed_replicas typed"
| "GetReplicasFromRuntimeObject lib (Some (RReplicaSet typed)) = typed_replicas typed"
| "GetReplicasFromRuntimeObject lib (Some (RDeployment typed)) = typed_replicas typed"
| "GetReplicasFromRuntimeObject lib (Some (RStatefulSet typed)) = typed_replicas typed"
| "GetReplicasFromRuntimeObject lib (Some (RDaemonSet typed)) = Some (getDaemonSetNumSchedulableNodes lib (ty_Template typed))"
| "GetReplicasFromRuntimeObject lib (Some (RJob typed)) = typed_replicas typed"
| "GetReplicasFromRuntimeObject lib (Some obj) =
     Some (Inl (ErrText (''unsupported kind when getting number of replicas: '' @ rl_fmt_object lib obj)))"

subsection \<open>Counting nodes\<close>

fun watched_name :: "watched \<Rightarrow> string" where
  "watched_name (WNode node) = node_Name node" | "watched_name (WUnexpected obj) = obj"

definition runs_on :: "rt_lib \<Rightarrow> NodeCounter \<Rightarrow> watched \<Rightarrow> bool" where
  "runs_on lib n obj = fst (shouldRun lib n (Some obj))"

definition counts_nodes :: "rt_lib \<Rightarrow> NodeCounter \<Rightarrow> (string \<rightharpoonup> watched) \<Rightarrow> NodeCounter \<Rightarrow> bool" where
  "counts_nodes lib n0 st n \<longleftrightarrow> n = n0\<lparr>nc_replicas := int (card {k. \<exists>obj. st k = Some obj \<and> runs_on lib n0 obj})\<rparr>
     \<and> finite (dom st) \<and> (\<forall>obj \<in> ran st. snd (shouldRun lib n0 (Some obj)) = None)"

lemma shouldRun_config:
  "shouldRun lib (n0\<lparr>nc_replicas := c\<rparr>) obj = shouldRun lib n0 obj"
  by (cases "(lib, n0, obj)" rule: shouldRun.cases) simp_all

lemma running_keys_upd:
  fixes st :: "string \<rightharpoonup> watched"
  assumes "finite (dom st)"
  shows "finite {k. \<exists>obj. st k = Some obj \<and> P obj}"
    "int (card {k. \<exists>obj. (st(x := y)) k = Some obj \<and> P obj}) =
       int (card {k. \<exists>obj. st k = Some obj \<and> P obj}) - (if \<exists>obj. st x = Some obj \<and> P obj then 1 else 0)
         + (if \<exists>obj. y = Some obj \<and> P obj then 1 else 0)"
proof -
  let ?A = "{k. \<exists>obj. st k = Some obj \<and> P obj}" and ?B = "{k. \<exists>obj. (st(x := y)) k = Some obj \<and> P obj}"
  show fin: "finite ?A" by (rule finite_subset [OF _ assms]) auto
  have B: "?B = (?A - {x}) \<union> (if \<exists>obj. y = Some obj \<and> P obj then {x} else {})" by auto
  have "x \<in> ?A \<longleftrightarrow> (\<exists>obj. st x = Some obj \<and> P obj)" by simp
  then have "int (card (?A - {x})) = int (card ?A) - (if \<exists>obj. st x = Some obj \<and> P obj then 1 else 0)"
    using card_Suc_Diff1 [OF fin, of x] by (cases "x \<in> ?A") auto
  moreover have "int (card (D \<union> (if c then {x} else {}))) = int (card D) + (if c then 1 else 0)" if "finite D" "x \<notin> D" for D c
    using that by simp
  then have "int (card ?B) = int (card (?A - {x})) + (if \<exists>obj. y = Some obj \<and> P obj then 1 else 0)"
    unfolding B using fin by blast
  ultimately show "int (card ?B) = int (card ?A) - (if \<exists>obj. st x = Some obj \<and> P obj then 1 else 0)
      + (if \<exists>obj. y = Some obj \<and> P obj then 1 else 0)" by simp
qed

lemma counts_nodes_change:
  assumes "counts_nodes lib n0 st n" and "snd (shouldRun lib n0 old) = None" and "snd (shouldRun lib n0 new) = None"
    and "(\<exists>obj. st x = Some obj \<and> runs_on lib n0 obj) \<longleftrightarrow> fst (shouldRun lib n0 old)"
    and "(\<exists>obj. new = Some obj \<and> runs_on lib n0 obj) \<longleftrightarrow> fst (shouldRun lib n0 new)"
  shows "counts_nodes lib n0 (st(x := new)) (NodeCounter_handler lib old new n)"
proof -
  let ?c = "card {k. \<exists>obj. st k = Some obj \<and> runs_on lib n0 obj}"
  have n: "n = n0\<lparr>nc_replicas := int ?c\<rparr>" and fin: "finite (dom st)" and ok: "\<forall>obj \<in> ran st. snd (shouldRun lib n0 (Some obj)) = None"
    using assms(1) by (simp_all add: counts_nodes_def)
  have "NodeCounter_handler lib old new n = n0\<lparr>nc_replicas := int ?c - (if fst (shouldRun lib n0 old) then 1 else 0) + (if fst (shouldRun lib n0 new) then 1 else 0)\<rparr>"
    using assms(2,3) unfolding NodeCounter_handler_def NodeCounter_handleObject_def n shouldRun_config
    by (cases "shouldRun lib n0 old"; cases "shouldRun lib n0 new") auto
  moreover have "\<forall>obj \<in> ran (st(x := new)). snd (shouldRun lib n0 (Some obj)) = None"
    using ok assms(3) by (auto simp: ran_def split: if_splits)
  ultimately show ?thesis
    using fin unfolding counts_nodes_def running_keys_upd(2) [OF fin] assms(4,5) by simp
qed

interpretation node_counter: informer_client watched_name "\<lambda>cur obj. runs_on lib n0 cur = runs_on lib n0 obj"
    "\<lambda>obj. snd (shouldRun lib n0 (Some obj)) = None" "NodeCounter_handler lib" "counts_nodes lib n0" for lib n0
proof
  fix st n obj
  assume "counts_nodes lib n0 st n" "snd (shouldRun lib n0 (Some obj)) = None" "st (watched_name obj) = None"
  then show "counts_nodes lib n0 (st(watched_name obj \<mapsto> obj)) (NodeCounter_handler lib None (Some obj) n)"
    by (intro counts_nodes_change) (simp_all add: runs_on_def)
next
  fix st n new old
  assume *: "counts_nodes lib n0 st n" "snd (shouldRun lib n0 (Some new)) = None" "watched_name new = watched_name old"
    "st (watched_name old) = Some old"
  then have "snd (shouldRun lib n0 (Some old)) = None" by (auto simp: counts_nodes_def ran_def)
  then show "counts_nodes lib n0 (st(watched_name old \<mapsto> new)) (NodeCounter_handler lib (Some old) (Some new) n)"
    using * by (intro counts_nodes_change) (simp_all add: runs_on_def)
next
  fix st n obj cur
  assume "counts_nodes lib n0 st n" "snd (shouldRun lib n0 (Some obj)) = None" "st (watched_name obj) = Some cur"
    "runs_on lib n0 cur = runs_on lib n0 obj"
  then show "counts_nodes lib n0 (st(watched_name obj := None)) (NodeCounter_handler lib (Some obj) None n)"
    by (intro counts_nodes_change) (simp_all add: runs_on_def)
qed

text \<open>
  The nodes on which a pod may run by its required affinity and its tolerations, and those its node
  selector asks for.
\<close>

definition may_run :: "rt_lib \<Rightarrow> PodSpec \<Rightarrow> Node \<Rightarrow> bool" where
  "may_run lib podSpec node \<longleftrightarrow> fst (podMatchesNodeAffinity lib (pd_Affinity podSpec) node)
     \<and> \<not> rl_HasUntoleratedTaint lib (node_Taints node) (pd_Tolerations podSpec) (\<lambda>(key, effect). effect = ''NoExecute'' \<or> effect = ''NoSchedule'')"

definition has_labels :: "(string, string) go_map \<Rightarrow> Node \<Rightarrow> bool" where
  "has_labels required node \<longleftrightarrow> list_all (\<lambda>(key, v). map_of (node_Labels node) key = Some v) required"

text \<open>
  The documented behaviour of an informer of nodes whose requests carry a label selector: it delivers
  the nodes of the cluster that the selector selects. The affinity of every node can be evaluated,
  and the object of a deletion is a state of the node in which the pod may run just as before.
\<close>

definition serves_nodes ::
    "rt_lib \<Rightarrow> PodSpec \<Rightarrow> (string \<Rightarrow> (string, string) go_map \<Rightarrow> bool) \<Rightarrow> (ListOptions \<Rightarrow> watched notice list) \<Rightarrow> (string \<rightharpoonup> Node) \<Rightarrow> bool" where
  "serves_nodes lib podSpec selects served cluster \<longleftrightarrow> (\<forall>sel.
     informed watched_name
       (\<lambda>cur obj. \<exists>a b. cur = WNode a \<and> obj = WNode b \<and> may_run lib podSpec a = may_run lib podSpec b)
       (\<lambda>obj. \<exists>node. obj = WNode node \<and> snd (podMatchesNodeAffinity lib (pd_Affinity podSpec) node) = None)
       Map.empty (served \<lparr>lo_LabelSelector = sel, lo_FieldSelector = []\<rparr>)
       (\<lambda>k. case cluster k of None \<Rightarrow> None | Some node \<Rightarrow> if selects sel (node_Labels node) then Some (WNode node) else None))"

lemma runs_on_NewNodeCounter:
  "runs_on lib (NewNodeCounter sel (pd_Affinity podSpec) (pd_Tolerations podSpec)) obj \<longleftrightarrow> (\<exists>node. obj = WNode node \<and> may_run lib podSpec node)"
  by (cases obj) (auto simp: runs_on_def NewNodeCounter_def may_run_def split_beta)

lemma shouldRun_NewNodeCounter:
  "snd (shouldRun lib (NewNodeCounter sel a ts) (Some (WNode node))) = snd (podMatchesNodeAffinity lib a node)"
  by (simp add: NewNodeCounter_def split_beta)

text \<open>
  C15. However the nodes of the cluster are added, changed and deleted, the counter for the pods of a
  DaemonSet gives the number of the nodes that have the labels its node selector asks for, match its
  required affinity and have no taint left untolerated by the tolerations of the pod spec it was
  given. The counter asks the API server for the nodes of its selector; that the server and the
  informer deliver those nodes, and that the selector made of the labels selects the nodes with these
  labels, are hypotheses.
\<close>

theorem NodeCounter_counts_schedulable_nodes:
  assumes "getDaemonSetNumSchedulableNodes lib podSpec = Inr rw"
    and "\<And>sel node. rl_LabelSelectorAsSelector lib (pd_NodeSelector podSpec) = Inr sel \<Longrightarrow>
      selects sel (node_Labels node) \<longleftrightarrow> has_labels (pd_NodeSelector podSpec) node"
    and "serves_nodes lib podSpec selects served cluster" and "sync (60 * second)"
  shows "GetReplicasOnce lib sync served rw =
    Inr (int (card {k. \<exists>node. cluster k = Some node \<and> has_labels (pd_NodeSelector podSpec) node \<and> may_run lib podSpec node}))"
proof -
  obtain sel where sel: "rl_LabelSelectorAsSelector lib (pd_NodeSelector podSpec) = Inr sel"
      and rw: "rw = WNodeCounter (NewNodeCounter sel (pd_Affinity podSpec) (pd_Tolerations podSpec))"
    using assms(1) by (auto simp: getDaemonSetNumSchedulableNodes_def split: sum.splits)
  let ?n = "NewNodeCounter sel (pd_Affinity podSpec) (pd_Tolerations podSpec)"
  let ?st = "\<lambda>k. case cluster k of None \<Rightarrow> None | Some node \<Rightarrow> if selects sel (node_Labels node) then Some (WNode node) else None"
  have opts: "node_options ?n = \<lparr>lo_LabelSelector = sel, lo_FieldSelector = []\<rparr>" by (simp add: node_options_def NewNodeCounter_def)
  have "informed watched_name (\<lambda>cur obj. runs_on lib ?n cur = runs_on lib ?n obj) (\<lambda>obj. snd (shouldRun lib ?n (Some obj)) = None)
      Map.empty (served (node_options ?n)) ?st"
    by (rule informed_mono [OF assms(3) [unfolded serves_nodes_def, rule_format, of sel, folded opts]])
      (auto simp: runs_on_NewNodeCounter shouldRun_NewNodeCounter simp del: shouldRun.simps)
  moreover have "counts_nodes lib ?n Map.empty ?n" by (simp add: counts_nodes_def NewNodeCounter_def)
  ultimately have "nc_replicas (fold (addEventHandler (NodeCounter_handler lib)) (served (node_options ?n)) ?n) =
      int (card {k. \<exists>obj. ?st k = Some obj \<and> runs_on lib ?n obj})"
    using node_counter.handles_notices by (fastforce simp: counts_nodes_def)
  moreover have "{k. \<exists>obj. ?st k = Some obj \<and> runs_on lib ?n obj} =
      {k. \<exists>node. cluster k = Some node \<and> has_labels (pd_NodeSelector podSpec) node \<and> may_run lib podSpec node}"
    using assms(2) [OF sel] by (auto simp: runs_on_NewNodeCounter split: option.splits if_splits)
  ultimately show ?thesis using assms(4) by (simp add: GetReplicasOnce_def StartAndSync_def rw)
qed

text \<open>A library in which a selector is the text of its labels.\<close>

definition sample_rt_lib :: rt_lib where
  "sample_rt_lib = \<lparr>
     rl_Accessor = (\<lambda>obj. case obj of
       RUnstructured u \<Rightarrow> (case (map_of (un_Object u) ''name'', map_of (un_Object u) ''version'') of
         (Some (VString n), Some (VString v)) \<Rightarrow> Inr \<lparr>om_Namespace = ''ns'', om_Name = n, om_ResourceVersion = v\<rparr>
       | _ \<Rightarrow> Inl (ErrText ''no metadata''))
     | _ \<Rightarrow> Inl (ErrText ''no metadata'')),
     rl_KeyFunc = (\<lambda>obj. case obj of
       RUnstructured u \<Rightarrow> (case map_of (un_Object u) ''name'' of Some (VString n) \<Rightarrow> Inr (''ns/'' @ n) | _ \<Rightarrow> Inl (ErrText ''no metadata''))
     | _ \<Rightarrow> Inl (ErrText ''no metadata'')),
     rl_NestedMap = (\<lambda>m key. case map_of m key of None \<Rightarrow> Inr None | Some (VMap v) \<Rightarrow> Inr (Some v) | Some _ \<Rightarrow> Inl (ErrText ''not a map'')),
     rl_NestedInt64 = (\<lambda>m key. case map_of m key of None \<Rightarrow> Inr None | Some (VInt64 v) \<Rightarrow> Inr (Some v) | Some _ \<Rightarrow> Inl (ErrText ''not an int'')),
     rl_NestedStringMap = (\<lambda>_ _. Inr None), rl_NestedSlice = (\<lambda>_ _. Inr None),
     rl_ToAffinity = (\<lambda>_. (\<lparr>af_NodeAffinity = None\<rparr>, None)), rl_ToToleration = (\<lambda>_. Inl (ErrText ''no toleration'')),
     rl_ToPodTemplate = (\<lambda>_. Inr zero_PodSpec), rl_MatchToleration = (=), rl_LabelSelectorAsSelector = (\<lambda>m. Inr (concat (map (\<lambda>(k, v). k @ ''='' @ v) m))),
     rl_MatchNodeSelectorTerms = (\<lambda>_ _. (True, None)),
     rl_HasUntoleratedTaint = (\<lambda>taints ts P. \<exists>(k, e) \<in> set taints. P (k, e) \<and> (\<forall>t \<in> set ts. \<not> (to_Key t = k \<and> to_Effect t = e))),
     rl_DeepEqual = (=), rl_DeepDerivative = (\<lambda>_ _. True), rl_SpecDiff = (\<lambda>_ _. []), rl_fmt_object = (\<lambda>_. [])\<rparr>"

definition plain_node :: "string \<Rightarrow> (string, string) go_map \<Rightarrow> (string \<times> string) list \<Rightarrow> Node" where
  "plain_node name labels taints = \<lparr>node_Name = name, node_Labels = labels, node_Unschedulable = False, node_Taints = taints,
     node_Conditions = [], node_Addresses = []\<rparr>"

definition ssd_spec :: PodSpec where
  "ssd_spec = zero_PodSpec\<lparr>pd_NodeSelector := [(''disk'', ''ssd'')]\<rparr>"

definition sample_selects :: "string \<Rightarrow> (string, string) go_map \<Rightarrow> bool" where
  "sample_selects sel labels \<longleftrightarrow> sel = ''disk=ssd'' \<longrightarrow> map_of labels ''disk'' = Some ''ssd''"

text \<open>
  Four nodes: one with the label, one without it, one with it that is tainted later, and one with it
  that is deleted. A server that honours the selector does not deliver the second one.
\<close>

definition sample_served :: "ListOptions \<Rightarrow> watched notice list" where
  "sample_served opts =
     [OnAdd (WNode (plain_node ''a'' [(''disk'', ''ssd'')] []))]
     @ (if lo_LabelSelector opts = ''disk=ssd'' then [] else [OnAdd (WNode (plain_node ''b'' [] []))])
     @ [OnAdd (WNode (plain_node ''c'' [(''disk'', ''ssd'')] [])),
        OnUpdate (WNode (plain_node ''c'' [(''disk'', ''ssd'')] [])) (WNode (plain_node ''c'' [(''disk'', ''ssd'')] [(''gpu'', ''NoSchedule'')])),
        OnAdd (WNode (plain_node ''d'' [(''disk'', ''ssd'')] [])),
        OnDelete (WNode (plain_node ''d'' [(''disk'', ''ssd'')] []))]"

definition sample_nodes :: "string \<rightharpoonup> Node" where
  "sample_nodes = [''a'' \<mapsto> plain_node ''a'' [(''disk'', ''ssd'')] [], ''b'' \<mapsto> plain_node ''b'' [] [],
     ''c'' \<mapsto> plain_node ''c'' [(''disk'', ''ssd'')] [(''gpu'', ''NoSchedule'')]]"

lemma sample_serves_nodes: "serves_nodes sample_rt_lib ssd_spec sample_selects sample_served sample_nodes"
  unfolding serves_nodes_def
proof
  fix sel
  let ?st = "\<lambda>k. case sample_nodes k of None \<Rightarrow> None | Some node \<Rightarrow> if sample_selects sel (node_Labels node) then Some (WNode node) else None"
  have "?st = [''a'' \<mapsto> WNode (plain_node ''a'' [(''disk'', ''ssd'')] []), ''c'' \<mapsto> WNode (plain_node ''c'' [(''disk'', ''ssd'')] [(''gpu'', ''NoSchedule'')])]
      ++ (if sel = ''disk=ssd'' then Map.empty else [''b'' \<mapsto> WNode (plain_node ''b'' [] [])])"
    by (rule ext) (auto simp: sample_nodes_def sample_selects_def plain_node_def map_add_def)
  then show "informed watched_name
      (\<lambda>cur obj. \<exists>a b. cur = WNode a \<and> obj = WNode b \<and> may_run sample_rt_lib ssd_spec a = may_run sample_rt_lib ssd_spec b)
      (\<lambda>obj. \<exists>node. obj = WNode node \<and> snd (podMatchesNodeAffinity sample_rt_lib (pd_Affinity ssd_spec) node) = None)
      Map.empty (sample_served \<lparr>lo_LabelSelector = sel, lo_FieldSelector = []\<rparr>) ?st"
    by (auto simp: sample_served_def informed_simps plain_node_def ssd_spec_def zero_PodSpec_def podMatchesNodeAffinity_def map_add_def fun_upd_twist)
qed

theorem NodeCounter_counts_schedulable_nodes_witness:
  "GetReplicasOnce sample_rt_lib (\<lambda>_. True) sample_served (WNodeCounter (NewNodeCounter ''disk=ssd'' None [])) = Inr 1"
proof -
  have sel: "rl_LabelSelectorAsSelector sample_rt_lib (pd_NodeSelector ssd_spec) = Inr ''disk=ssd''"
    by (simp add: sample_rt_lib_def ssd_spec_def)
  then have "getDaemonSetNumSchedulableNodes sample_rt_lib ssd_spec = Inr (WNodeCounter (NewNodeCounter ''disk=ssd'' None []))"
    by (simp add: getDaemonSetNumSchedulableNodes_def) (simp add: ssd_spec_def zero_PodSpec_def)
  then have "GetReplicasOnce sample_rt_lib (\<lambda>_. True) sample_served (WNodeCounter (NewNodeCounter ''disk=ssd'' None [])) =
      Inr (int (card {k. \<exists>node. sample_nodes k = Some node \<and> has_labels (pd_NodeSelector ssd_spec) node \<and> may_run sample_rt_lib ssd_spec node}))"
    by (rule NodeCounter_counts_schedulable_nodes [OF _ _ sample_serves_nodes])
      (use sel in \<open>auto simp: sample_selects_def has_labels_def ssd_spec_def\<close>)
  also have "{k. \<exists>node. sample_nodes k = Some node \<and> has_labels (pd_NodeSelector ssd_spec) node \<and> may_run sample_rt_lib ssd_spec node} = {''a''}"
    by (auto simp: sample_nodes_def plain_node_def has_labels_def may_run_def ssd_spec_def zero_PodSpec_def podMatchesNodeAffinity_def
        sample_rt_lib_def split: if_splits)
  finally show ?thesis by simp
qed

subsection \<open>The tolerations of a DaemonSet\<close>

lemma toleration_loop_set:
  assumes "\<forall>a b. rl_MatchToleration lib a b \<longleftrightarrow> a = b"
  shows "toleration_loop lib t ts = (ts, t \<in> set ts)"
  using assms by (induction ts) auto

lemma addOrUpdateTolerationInPodSpec_set:
  assumes "\<forall>a b. rl_MatchToleration lib a b \<longleftrightarrow> a = b"
  shows "set (pd_Tolerations (addOrUpdateTolerationInPodSpec lib t spec)) = insert t (set (pd_Tolerations spec))"
  by (auto simp: addOrUpdateTolerationInPodSpec_def toleration_loop_set [OF assms])

text \<open>
  The tolerations that the controller adds to the pods of a DaemonSet: a host network is not read from
  an unstructured DaemonSet, so the toleration of a missing network is never among them.
\<close>

lemma unstructured_DaemonSet_tolerations:
  assumes "\<forall>a b. rl_MatchToleration lib a b \<longleftrightarrow> a = b"
    and "tryAcquireReplicasFromUnstructuredSpec lib spec ''DaemonSet'' = Some (Inr (WNodeCounter n))"
    and "\<forall>p. rl_NestedSlice lib p ''tolerations'' = Inr None"
  shows "exists_toleration ''node.kubernetes.io/unschedulable'' ''NoSchedule'' \<in> set (nc_tolerations n)
    \<and> exists_toleration ''node.kubernetes.io/network-unavailable'' ''NoSchedule'' \<notin> set (nc_tolerations n)"
proof -
  have daemon: "set (pd_Tolerations (addOrUpdateDaemonPodTolerations lib s)) = set (pd_Tolerations s)
      \<union> {exists_toleration ''node.kubernetes.io/not-ready'' ''NoExecute'', exists_toleration ''node.kubernetes.io/disk-pressure'' ''NoSchedule'',
         exists_toleration ''node.kubernetes.io/memory-pressure'' ''NoSchedule'', exists_toleration ''node.kubernetes.io/pid-pressure'' ''NoSchedule'',
         exists_toleration ''node.kubernetes.io/unschedulable'' ''NoSchedule''}" if "\<not> pd_HostNetwork s" for s
    using that by (auto simp: addOrUpdateDaemonPodTolerations_def addOrUpdateTolerationInPodSpec_set [OF assms(1)])
  have "\<exists>s. nc_tolerations n = pd_Tolerations (addOrUpdateDaemonPodTolerations lib s) \<and> \<not> pd_HostNetwork s \<and> pd_Tolerations s = []"
    using assms(2,3)
    by (auto simp: tryAcquireReplicasFromUnstructuredSpec_def getDaemonSetNodeSelectorFromUnstructuredSpec_def
        getDaemonSetAffinityFromUnstructuredSpec_def getDaemonSetTolerationsFromUnstructuredSpec_def getDaemonSetNumSchedulableNodes_def
        NewNodeCounter_def zero_PodSpec_def Let_def split: sum.splits option.splits prod.splits)
  then obtain s where "nc_tolerations n = pd_Tolerations (addOrUpdateDaemonPodTolerations lib s)" "\<not> pd_HostNetwork s" "pd_Tolerations s = []"
    by (elim exE conjE)
  then show ?thesis by (simp add: daemon exists_toleration_def)
qed

end
