(* ===== verification/Controlled_Pods.thy ===== *)
theory Controlled_Pods
  imports Runtime_Objects Measurements
begin

text \<open>
  \<open>pkg/measurement/common/wait_for_controlled_pods.go\<close>, with the checker map and the worker queue it
  uses (\<open>util/checker\<close>, \<open>util/workerqueue\<close>). The measurement watches controlling objects; for every change of
  a spec it starts a checker, a goroutine that waits for the pods of the object, and \<open>gather\<close>
  waits for the checkers of all objects and counts how they ended.

  Checkers are shared by pointer: \<open>w_checkers\<close> is the heap and \<open>w_checkerMap\<close> holds indices into it.
  The informer, the single worker of the queue and the goroutines of the checkers run concurrently;
  \<open>cp_step\<close> is one atomic step of one of them, and a sequence of \<open>cp_action\<close> an interleaving.
\<close>

subsection \<open>Checkers\<close>

datatype objectStatus = st_unknown | st_running | st_deleted | st_failed | st_timeout | st_deleteTimeout

record checker_task =
  ct_obj :: runtime_object
  ct_replicas :: ReplicasWatcher
  ct_store :: string
  ct_isPodUpdated :: "(Pod \<Rightarrow> go_error option) option"
  ct_isDeleted :: bool

text \<open>\<open>oc_task\<close> is what the goroutine of the checker has captured, \<open>oc_done\<close> says that it has returned.\<close>

record objectChecker =
  oc_status :: objectStatus
  oc_err :: "go_error option"
  oc_key :: string
  oc_cancelled :: bool
  oc_duration :: duration
  oc_failedPods :: "PodsStatus option"
  oc_task :: checker_task
  oc_done :: bool

definition newObjectChecker :: "string \<Rightarrow> checker_task \<Rightarrow> objectChecker" where
  "newObjectChecker key task = \<lparr>oc_status = st_unknown, oc_err = None, oc_key = key, oc_cancelled = False, oc_duration = 0,
     oc_failedPods = None, oc_task = task, oc_done = False\<rparr>"

definition checker_Stop :: "objectChecker \<Rightarrow> objectChecker" where
  "checker_Stop c = c\<lparr>oc_cancelled := True\<rparr>"

definition getStatus :: "objectChecker \<Rightarrow> objectStatus \<times> go_error option" where
  "getStatus c = (oc_status c, oc_err c)"

type_synonym checkers = "(string, nat) go_map \<times> objectChecker list"

definition stop_at :: "nat \<Rightarrow> objectChecker list \<Rightarrow> objectChecker list" where
  "stop_at p heap = heap[p := checker_Stop (heap ! p)]"

text \<open>\<open>Dispose\<close> assigns an empty map to its receiver, which the caller does not see.\<close>

definition Map_Dispose :: "checkers \<Rightarrow> checkers" where
  "Map_Dispose cm = (fst cm, fold (\<lambda>(k, p). stop_at p) (fst cm) (snd cm))"

definition Map_Add :: "string \<Rightarrow> nat \<Rightarrow> checkers \<Rightarrow> checkers" where
  "Map_Add key c cm = (AList.update key c (fst cm), case map_of (fst cm) key of Some old \<Rightarrow> stop_at old (snd cm) | None \<Rightarrow> snd cm)"

definition DeleteAndStop :: "string \<Rightarrow> checkers \<Rightarrow> checkers \<times> bool" where
  "DeleteAndStop key cm = (case map_of (fst cm) key of
      Some old \<Rightarrow> ((AList.delete key (fst cm), stop_at old (snd cm)), True) | None \<Rightarrow> (cm, False))"

subsection \<open>The measurement\<close>

text \<open>\<open>w_watching\<close>: an informer of the measurement runs, until the stop channel is closed.\<close>

datatype handled = HObject runtime_object | HUncastable string

record waitForControlledPods =
  w_apiVersion :: string
  w_kind :: string
  w_selector :: ObjectSelector
  w_operationTimeout :: duration
  w_countErrorMargin :: int
  w_watching :: bool
  w_isRunning :: bool
  w_queue :: "(handled option \<times> handled option) list"
  w_queueOpen :: bool
  w_objectKeys :: "string set"
  w_opResourceVersion :: uint64
  w_gvr :: GroupVersionResource
  w_checkerMap :: "(string, nat) go_map"
  w_checkers :: "objectChecker list"
  w_checkIfPodsAreUpdated :: bool

definition createWaitForControlledPodsRunningMeasurement :: waitForControlledPods where
  "createWaitForControlledPodsRunningMeasurement = \<lparr>w_apiVersion = [], w_kind = [], w_selector = NewObjectSelector, w_operationTimeout = 0,
     w_countErrorMargin = 0, w_watching = False, w_isRunning = False, w_queue = [], w_queueOpen = True, w_objectKeys = {},
     w_opResourceVersion = 0, w_gvr = \<lparr>gvr_Group = [], gvr_Version = [], gvr_Resource = []\<rparr>, w_checkerMap = [], w_checkers = [],
     w_checkIfPodsAreUpdated = False\<rparr>"

definition waitForControlledPodsRunningName :: string where
  "waitForControlledPodsRunningName = ''WaitForControlledPodsRunning''"

definition on_checkers :: "(checkers \<Rightarrow> checkers) \<Rightarrow> waitForControlledPods \<Rightarrow> waitForControlledPods" where
  "on_checkers f w = (let (m, heap) = f (w_checkerMap w, w_checkers w) in w\<lparr>w_checkerMap := m, w_checkers := heap\<rparr>)"

subsection \<open>Handling an object\<close>

definition updateOpResourceVersionLocked ::
    "rt_lib \<Rightarrow> runtime_object \<Rightarrow> waitForControlledPods \<Rightarrow> waitForControlledPods \<times> go_error option" where
  "updateOpResourceVersionLocked lib runtimeObj w = (case GetResourceVersionFromRuntimeObject lib runtimeObj of
      Inl err \<Rightarrow> (w, Some (ErrText (''retrieving resource version error: '' @ Error err)))
    | Inr version \<Rightarrow> (if version > w_opResourceVersion w then w\<lparr>w_opResourceVersion := version\<rparr> else w, None))"

definition key_error :: "go_error \<Rightarrow> go_error" where
  "key_error err = ErrText (waitForControlledPodsRunningName @ '': retrieving key error: '' @ Error err)"

text \<open>One half of \<open>updateCacheLocked\<close>: \<open>change\<close> removes or inserts the key of the object.\<close>

definition update_cache_for ::
    "rt_lib \<Rightarrow> (string \<Rightarrow> string set \<Rightarrow> string set) \<Rightarrow> runtime_object option \<Rightarrow> waitForControlledPods \<times> ErrorList \<Rightarrow> waitForControlledPods \<times> ErrorList" where
  "update_cache_for lib change objOpt we = (case objOpt of
      None \<Rightarrow> we
    | Some obj \<Rightarrow>
        (let (w1, e1) = (case rl_KeyFunc lib obj of
               Inl err \<Rightarrow> (fst we, ErrorList_Append (snd we) [key_error err])
             | Inr key \<Rightarrow> ((fst we)\<lparr>w_objectKeys := change key (w_objectKeys (fst we))\<rparr>, snd we));
             (w2, err) = updateOpResourceVersionLocked lib obj w1
         in (w2, case err of Some e \<Rightarrow> ErrorList_Append e1 [e] | None \<Rightarrow> e1)))"

definition updateCacheLocked ::
    "rt_lib \<Rightarrow> runtime_object option \<Rightarrow> runtime_object option \<Rightarrow> waitForControlledPods \<Rightarrow> waitForControlledPods \<times> ErrorList option" where
  "updateCacheLocked lib oldObj newObj w =
     (let (w', errList) = update_cache_for lib insert newObj (update_cache_for lib (\<lambda>key keys. keys - {key}) oldObj (w, NewErrorList []))
      in (w', if ErrorList_IsEmpty errList then None else Some errList))"

definition NewOwnerReferenceBasedPodStore :: "rt_lib \<Rightarrow> runtime_object \<Rightarrow> string result" where
  "NewOwnerReferenceBasedPodStore lib owner = (case rl_Accessor lib owner of
      Inl err \<Rightarrow> Inl (ErrWrap (''object has no meta: '' @ Error err) [err])
    | Inr m \<Rightarrow> Inr (''namespace('' @ om_Namespace m @ ''), controlledBy('' @ om_Name m @ '')''))"

text \<open>A new checker, whose goroutine is started; \<open>None\<close> is a panic.\<close>

definition waitForRuntimeObject ::
    "rt_lib \<Rightarrow> runtime_object \<Rightarrow> bool \<Rightarrow> waitForControlledPods \<Rightarrow> objectChecker result option" where
  "waitForRuntimeObject lib obj isDeleted w = (case GetReplicasFromRuntimeObject lib (Some obj) of
      None \<Rightarrow> None
    | Some (Inl err) \<Rightarrow> Some (Inl err)
    | Some (Inr replicas) \<Rightarrow>
        (case (if w_checkIfPodsAreUpdated w then map_sum id Some (GetIsPodUpdatedPredicateFromRuntimeObject lib obj) else Inr None) of
           Inl err \<Rightarrow> Some (Inl err)
         | Inr isPodUpdated \<Rightarrow>
             (case rl_KeyFunc lib obj of
                Inl err \<Rightarrow> Some (Inl (ErrText (''meta key creation error: '' @ Error err)))
              | Inr key \<Rightarrow>
                  (case NewOwnerReferenceBasedPodStore lib obj of
                     Inl err \<Rightarrow> Some (Inl (ErrWrap (''failed to create pod store: '' @ Error err) [err]))
                   | Inr podStore \<Rightarrow> Some (Inr (newObjectChecker key
                       \<lparr>ct_obj = obj, ct_replicas = (if isDeleted then ConstReplicas 0 else replicas), ct_store = podStore,
                        ct_isPodUpdated = isPodUpdated, ct_isDeleted = isDeleted\<rparr>))))))"

definition handleObjectLocked ::
    "rt_lib \<Rightarrow> runtime_object option \<Rightarrow> runtime_object option \<Rightarrow> waitForControlledPods \<Rightarrow> (waitForControlledPods \<times> go_error option) option" where
  "handleObjectLocked lib oldObj newObj w =
     (let isObjDeleted = (newObj = None); handledObj = (if isObjDeleted then oldObj else newObj)
      in case handledObj of
           None \<Rightarrow> Some (w, Some (ErrText ''meta key creation error: object has no meta''))
         | Some obj \<Rightarrow>
             (case rl_KeyFunc lib obj of
                Inl err \<Rightarrow> Some (w, Some (ErrText (''meta key creation error: '' @ Error err)))
              | Inr key \<Rightarrow>
                  (case waitForRuntimeObject lib obj isObjDeleted w of
                     None \<Rightarrow> None
                   | Some (Inl err) \<Rightarrow> Some (w, Some (ErrText (''waiting for '' @ key @ '' error: '' @ Error err)))
                   | Some (Inr checker) \<Rightarrow>
                       Some (on_checkers (Map_Add key (length (w_checkers w))) (w\<lparr>w_checkers := w_checkers w @ [checker]\<rparr>), None))))"

definition deleteObjectLocked ::
    "rt_lib \<Rightarrow> runtime_object option \<Rightarrow> waitForControlledPods \<Rightarrow> waitForControlledPods \<times> go_error option" where
  "deleteObjectLocked lib objOpt w = (case objOpt of
      None \<Rightarrow> (w, None)
    | Some obj \<Rightarrow> (case rl_KeyFunc lib obj of
        Inl err \<Rightarrow> (w, Some (ErrText (''meta key creation error: '' @ Error err)))
      | Inr key \<Rightarrow> (on_checkers (\<lambda>cm. fst (DeleteAndStop key cm)) w, None)))"

fun castable :: "handled option \<Rightarrow> bool" where
  "castable (Some (HUncastable _)) = False" | "castable _ = True"

fun cast_object :: "handled option \<Rightarrow> runtime_object option" where
  "cast_object (Some (HObject obj)) = Some obj" | "cast_object _ = None"

definition handleObject :: "rt_lib \<Rightarrow> handled option \<Rightarrow> handled option \<Rightarrow> waitForControlledPods \<Rightarrow> waitForControlledPods option" where
  "handleObject lib oldObj newObj w =
     (if \<not> castable oldObj \<or> \<not> castable newObj then Some w
      else (let oldRuntimeObj = cast_object oldObj; newRuntimeObj = cast_object newObj;
                updateCache = (\<lambda>w. fst (updateCacheLocked lib oldRuntimeObj newRuntimeObj w))
            in case IsEqualRuntimeObjectsSpec lib oldRuntimeObj newRuntimeObj of
                 Inl err \<Rightarrow> Some (updateCache w)
               | Inr isEqual \<Rightarrow>
                   if isEqual then Some (updateCache w)
                   else if \<not> w_isRunning w then Some (updateCache w)
                   else (case handleObjectLocked lib oldRuntimeObj newRuntimeObj (fst (deleteObjectLocked lib oldRuntimeObj w)) of
                           None \<Rightarrow> None
                         | Some (w', err) \<Rightarrow> Some (updateCache w'))))"

subsection \<open>The goroutine of a checker\<close>

text \<open>
  What the goroutine meets: the nodes' informer and its sync, the results of the lists, the clock and
  the state of its context.
\<close>

record check_run =
  cr_sync :: "duration \<Rightarrow> bool"
  cr_served :: "ListOptions \<Rightarrow> watched notice list"
  cr_listed :: "Pod list result"
  cr_events :: "wait_event list"
  cr_since :: duration
  cr_expired :: bool

text \<open>The count in an event is the value of \<open>Replicas()\<close>, which is constant unless nodes are counted.\<close>

fun counted :: "ReplicasWatcher \<Rightarrow> wait_event \<Rightarrow> wait_event" where
  "counted (ConstReplicas c) (CtxDone deadline err _) = CtxDone deadline err c"
| "counted (ConstReplicas c) (Tick _ listed) = Tick c listed"
| "counted (WNodeCounter n) ev = ev"

definition check_options :: "int \<Rightarrow> checker_task \<Rightarrow> WaitForPodOptions" where
  "check_options margin t = \<lparr>CountErrorMargin = margin, IsPodUpdated = ct_isPodUpdated t\<rparr>"

text \<open>
  The whole run of the goroutine, as the one step it makes when it returns: until then it only reads.
  It has not returned while \<open>WaitForPods\<close> has not.
\<close>

definition checker_run :: "rt_lib \<Rightarrow> int \<Rightarrow> check_run \<Rightarrow> objectChecker \<Rightarrow> objectChecker" where
  "checker_run lib margin cr o1 =
     (let t = oc_task o1; returned = o1\<lparr>oc_done := True, oc_cancelled := True\<rparr>
      in if oc_done o1 then o1
         else case watcher_Start lib (cr_sync cr) (cr_served cr) (ct_replicas t) of
           (replicas, Some err) \<Rightarrow> returned\<lparr>oc_err := Some (ErrText (''failed to start runtimeObjectReplicas: '' @ Error err))\<rparr>
         | (replicas, None) \<Rightarrow>
             (case WaitForPods (ct_store t) (check_options margin t) (cr_listed cr) (map (counted replicas) (cr_events cr)) of
                None \<Rightarrow> o1
              | Some (failedPods, Some err) \<Rightarrow>
                  returned\<lparr>oc_duration := cr_since cr,
                    oc_status := (if cr_expired cr then (if ct_isDeleted t then st_deleteTimeout else st_timeout) else st_failed),
                    oc_err := Some (ErrText (oc_key o1 @ '': '' @ Error err)), oc_failedPods := failedPods\<rparr>
              | Some (failedPods, None) \<Rightarrow>
                  returned\<lparr>oc_duration := cr_since cr, oc_status := (if ct_isDeleted t then st_deleted else st_running)\<rparr>))"

subsection \<open>Interleaving\<close>

datatype cp_action = Notify "handled notice" | Work | Check nat check_run

definition queue_Add :: "handled option \<Rightarrow> handled option \<Rightarrow> waitForControlledPods \<Rightarrow> waitForControlledPods" where
  "queue_Add oldObj newObj w = (if w_queueOpen w then w\<lparr>w_queue := w_queue w @ [(oldObj, newObj)]\<rparr> else w)"

fun cp_step :: "rt_lib \<Rightarrow> cp_action \<Rightarrow> waitForControlledPods \<Rightarrow> waitForControlledPods option" where
  "cp_step lib (Notify notice) w = Some (if w_watching w then addEventHandler queue_Add notice w else w)"
| "cp_step lib Work w = (case w_queue w of
      [] \<Rightarrow> Some w
    | (oldObj, newObj) # rest \<Rightarrow> handleObject lib oldObj newObj (w\<lparr>w_queue := rest\<rparr>))"
| "cp_step lib (Check p cr) w = Some (if p < length (w_checkers w)
      then w\<lparr>w_checkers := (w_checkers w)[p := checker_run lib (w_countErrorMargin w) cr (w_checkers w ! p)]\<rparr> else w)"

fun cp_steps :: "rt_lib \<Rightarrow> cp_action list \<Rightarrow> waitForControlledPods \<Rightarrow> waitForControlledPods option" where
  "cp_steps lib [] w = Some w"
| "cp_steps lib (a # acts) w = (case cp_step lib a w of None \<Rightarrow> None | Some w' \<Rightarrow> cp_steps lib acts w')"

text \<open>Stopping the queue: what is queued is still handled, nothing more is accepted.\<close>

definition queue_Stop :: "rt_lib \<Rightarrow> waitForControlledPods \<Rightarrow> waitForControlledPods option" where
  "queue_Stop lib w = cp_steps lib (replicate (length (w_queue w)) Work) (w\<lparr>w_queueOpen := False\<rparr>)"

definition Dispose :: "rt_lib \<Rightarrow> waitForControlledPods \<Rightarrow> waitForControlledPods option" where
  "Dispose lib w =
     (if \<not> w_isRunning w then Some w
      else (case queue_Stop lib (w\<lparr>w_isRunning := False, w_watching := False\<rparr>) of
              None \<Rightarrow> None | Some w' \<Rightarrow> Some (on_checkers Map_Dispose w')))"

subsection \<open>Starting\<close>

record failedPod =
  fp_Namespace :: string
  fp_ControlledBy :: string
  fp_Name :: string
  fp_Host :: string
  fp_Status :: string

record 's cp_env =
  cp_rt :: rt_lib
  cp_lib :: "'s client_lib"
  cp_ParseDuration :: "string \<Rightarrow> duration result"
  cp_ParseGroupVersion :: "string \<Rightarrow> (string \<times> string) result"
  cp_NewIndexer :: "go_error option"
  cp_IndexerSync :: bool
  cp_InformerSync :: "duration \<Rightarrow> bool"
  cp_DeleteCollection :: "'s clientset \<Rightarrow> string \<Rightarrow> ListOptions \<Rightarrow> int \<times> string \<Rightarrow> 's \<Rightarrow> 's \<times> go_error option"
  cp_PrettyPrintJSON :: "failedPod list \<Rightarrow> string result"
  cp_Now :: time

text \<open>\<open>podIndexerFactory\<close>: the result of the one call of \<open>start\<close>, once there was one.\<close>

type_synonym sharedPodIndexerFactory = "go_error option option"

definition factory_start :: "'s cp_env \<Rightarrow> go_error option" where
  "factory_start env = (case cp_NewIndexer env of
      Some err \<Rightarrow> Some (ErrWrap (''failed to initialize controlledPodsIndexer: '' @ Error err) [err])
    | None \<Rightarrow> if \<not> cp_IndexerSync env then Some (ErrText ''failed to sync informers'') else None)"

definition PodsIndexer :: "'s cp_env \<Rightarrow> sharedPodIndexerFactory \<Rightarrow> sharedPodIndexerFactory \<times> go_error option" where
  "PodsIndexer env s = (case s of Some err \<Rightarrow> (s, err) | None \<Rightarrow> (Some (factory_start env), factory_start env))"

type_synonym 's cp_state = "waitForControlledPods \<times> sharedPodIndexerFactory \<times> 's fw"

definition cp_start :: "'s cp_env \<Rightarrow> 's cp_state \<Rightarrow> ('s cp_state \<times> go_error option) option" where
  "cp_start env = (\<lambda>(w, pf, f).
     if w_isRunning w then Some ((w, pf, f), None)
     else (case cp_ParseGroupVersion env (w_apiVersion w) of
         Inl err \<Rightarrow> Some ((w, pf, f), Some err)
       | Inr (g, v) \<Rightarrow>
           (let gvk = \<lparr>gvk_Group = g, gvk_Version = v, gvk_Kind = w_kind w\<rparr>;
                w1 = w\<lparr>w_gvr := UnsafeGuessKindToResource (cp_lib env) gvk, w_isRunning := True\<rparr>
            in do { (_, f1) \<leftarrow> get_clientset f;
                    let (pf', indexerErr) = PodsIndexer env pf;
                    (case indexerErr of
                       Some err \<Rightarrow> Some ((w1, pf', f1), Some err)
                     | None \<Rightarrow> do { (_, f2) \<leftarrow> get_dynamic f1;
                                    Some ((w1\<lparr>w_watching := True\<rparr>, pf', f2), StartAndSync (cp_InformerSync env) (60 * second)) }) })))"

subsection \<open>Gathering\<close>

text \<open>A nil \<open>PodsStatus\<close> is dereferenced: \<open>None\<close> is the panic.\<close>

definition toFailedPods :: "PodsStatus option \<Rightarrow> string \<Rightarrow> failedPod list option" where
  "toFailedPods ps controlledBy = (case ps of
      None \<Rightarrow> None
    | Some s \<Rightarrow> Some (map (\<lambda>pod. \<lparr>fp_Namespace = pi_Namespace pod, fp_ControlledBy = controlledBy, fp_Name = pi_Name pod,
        fp_Host = pi_Hostname pod, fp_Status = Status_String (pi_Status pod)\<rparr>) (ps_Info s)))"

definition createSummary :: "'s cp_env \<Rightarrow> failedPod list \<Rightarrow> Summary list" where
  "createSummary env fp =
     (if length fp = 0 then []
      else (let name = waitForControlledPodsRunningName @ ''_'' @ itoa (cp_Now env div second) @ ''_failedpods''
            in case cp_PrettyPrintJSON env fp of
                 Inl err \<Rightarrow> [] | Inr content \<Rightarrow> [CreateSummary (cp_Now env) name ''json'' content]))"

definition cp_listOptions :: "waitForControlledPods \<Rightarrow> ListOptions" where
  "cp_listOptions w = \<lparr>lo_LabelSelector = sel_LabelSelector (w_selector w), lo_FieldSelector = sel_FieldSelector (w_selector w)\<rparr>"

definition forceDeleteOptions :: "int \<times> string" where
  "forceDeleteOptions = (0, ''Background'')"

fun keys_version_loop :: "rt_lib \<Rightarrow> runtime_object list \<Rightarrow> string set \<Rightarrow> uint64 \<Rightarrow> string set \<times> uint64" where
  "keys_version_loop lib [] objectKeys maxResourceVersion = (objectKeys, maxResourceVersion)"
| "keys_version_loop lib (obj # objs) objectKeys maxResourceVersion = (case GetResourceVersionFromRuntimeObject lib obj of
      Inl err \<Rightarrow> keys_version_loop lib objs objectKeys maxResourceVersion
    | Inr version \<Rightarrow> (case rl_KeyFunc lib obj of
        Inl err \<Rightarrow> keys_version_loop lib objs objectKeys maxResourceVersion
      | Inr key \<Rightarrow> keys_version_loop lib objs (insert key objectKeys) (if version > maxResourceVersion then version else maxResourceVersion)))"

definition getObjectKeysAndMaxVersion ::
    "'s cp_env \<Rightarrow> waitForControlledPods \<Rightarrow> 's fw \<Rightarrow> ('s fw \<times> (string set \<times> uint64) result) option" where
  "getObjectKeysAndMaxVersion env w f =
     do { (d, f1) \<leftarrow> get_dynamic f;
          (case ListRuntimeObjectsForKind (cp_lib env) d (w_gvr w) (sel_LabelSelector (w_selector w)) (sel_FieldSelector (w_selector w)) (snd f1) of
             (s, Inl err) \<Rightarrow> Some ((fst f1, s), Inl (ErrText (''listing objects error: '' @ Error err)))
           | (s, Inr objects) \<Rightarrow> Some ((fst f1, s), Inr (keys_version_loop (cp_rt env) objects {} 0))) }"

record tally =
  ta_running :: nat
  ta_timeout :: nat
  ta_failed :: nat
  ta_timedOutObjects :: "string list"
  ta_failedErrList :: ErrorList
  ta_failedPods :: "failedPod list"

definition tally_start :: tally where
  "tally_start = \<lparr>ta_running = 0, ta_timeout = 0, ta_failed = 0, ta_timedOutObjects = [], ta_failedErrList = NewErrorList [], ta_failedPods = []\<rparr>"

definition tally_timeout :: "objectChecker \<Rightarrow> tally \<Rightarrow> tally" where
  "tally_timeout c t = t\<lparr>ta_timedOutObjects := ta_timedOutObjects t @ [oc_key c], ta_timeout := ta_timeout t + 1\<rparr>"

fun gather_loop ::
    "'s cp_env \<Rightarrow> waitForControlledPods \<Rightarrow> objectChecker list \<Rightarrow> tally \<Rightarrow> 's fw \<Rightarrow> ('s fw \<times> tally result) option" where
  "gather_loop env w [] t f = Some (f, Inr t)"
| "gather_loop env w (c # cs) t f =
     (let (status, err) = getStatus c;
          add = (\<lambda>fps t. t\<lparr>ta_failedPods := ta_failedPods t @ fps\<rparr>)
      in case status of
           st_running \<Rightarrow> gather_loop env w cs (t\<lparr>ta_running := ta_running t + 1\<rparr>) f
         | st_deleted \<Rightarrow> gather_loop env w cs t f
         | st_timeout \<Rightarrow> do { fps \<leftarrow> toFailedPods (oc_failedPods c) (oc_key c);
                              gather_loop env w cs (add fps (tally_timeout c t)) f }
         | st_deleteTimeout \<Rightarrow>
             do { (client, f1) \<leftarrow> get_clientset f;
                  let (s, deleteErr) = cp_DeleteCollection env client (sel_Namespace (w_selector w)) (cp_listOptions w) forceDeleteOptions (snd f1);
                  fps \<leftarrow> toFailedPods (oc_failedPods c) (oc_key c);
                  gather_loop env w cs (add fps (tally_timeout c t)) (fst f1, s) }
         | st_failed \<Rightarrow> do { fps \<leftarrow> toFailedPods (oc_failedPods c) (oc_key c);
                             gather_loop env w cs (add fps (t\<lparr>ta_failed := ta_failed t + 1,
                               ta_failedErrList := (case err of Some e \<Rightarrow> ErrorList_Append (ta_failedErrList t) [e] | None \<Rightarrow> ta_failedErrList t)\<rparr>)) f }
         | st_unknown \<Rightarrow> Some (f, Inl (ErrText (''got unknown status for '' @ oc_key c @ '': status=0, err=''
             @ (case err of Some e \<Rightarrow> Error e | None \<Rightarrow> ''<nil>'')))))"

definition gather_result :: "waitForControlledPods \<Rightarrow> string set \<Rightarrow> tally \<Rightarrow> failedPod list \<times> go_error option" where
  "gather_result w objectKeys t =
     (if ta_timeout t > 0
      then (ta_failedPods t, Some (ErrText (utoa (ta_timeout t) @ '' objects timed out: '' @ w_kind w @ ''s: '' @ str_join '', '' (ta_timedOutObjects t))))
      else if card objectKeys \<noteq> ta_running t
      then (ta_failedPods t, Some (ErrText (''incorrect objects number: '' @ utoa (ta_running t) @ ''/'' @ utoa (card objectKeys) @ '' ''
              @ w_kind w @ ''s are running with all pods'')))
      else if ta_failed t > 0
      then (ta_failedPods t, Some (ErrText (''failed objects statuses: '' @ ErrorList_String (ta_failedErrList t))))
      else ([], None))"

definition synced :: "string set \<Rightarrow> uint64 \<Rightarrow> waitForControlledPods \<Rightarrow> bool" where
  "synced objectKeys maxResourceVersion w \<longleftrightarrow> w_opResourceVersion w \<ge> maxResourceVersion \<and> objectKeys = w_objectKeys w"

definition live_checkers :: "waitForControlledPods \<Rightarrow> objectChecker list" where
  "live_checkers w = map (\<lambda>(k, p). w_checkers w ! p) (w_checkerMap w)"

text \<open>
  \<open>polled\<close> is what the other goroutines do while \<open>gather\<close> polls, \<open>awaited\<close> what they do while it waits
  for the checkers, and \<open>raced\<close> what they do between the end of that wait and the lock that \<open>gather\<close>
  takes to read the checkers. The wait does not end while a checker has not returned; a new one may be
  started after it.
\<close>

definition gather ::
    "'s cp_env \<Rightarrow> cp_action list \<Rightarrow> cp_action list \<Rightarrow> cp_action list \<Rightarrow> waitForControlledPods \<Rightarrow> 's fw
       \<Rightarrow> (waitForControlledPods \<times> 's fw \<times> failedPod list \<times> go_error option) option" where
  "gather env polled awaited raced w f =
     (if \<not> w_isRunning w
      then Some (w, f, [], Some (ErrText (''metric '' @ waitForControlledPodsRunningName @ '' has not been started'')))
      else do {
        (f1, listed) \<leftarrow> getObjectKeysAndMaxVersion env w f;
        (case listed of
           Inl err \<Rightarrow> Some (w, f1, [], Some err)
         | Inr (objectKeys, maxResourceVersion) \<Rightarrow> do {
             w1 \<leftarrow> cp_steps (cp_rt env) polled w;
             if \<not> synced objectKeys maxResourceVersion w1
             then Some (w1, f1, [], Some (ErrText (''timed out while waiting for controlled pods: '' @ Error ErrWaitTimeout)))
             else do {
               w2 \<leftarrow> cp_steps (cp_rt env) awaited w1;
               if \<exists>c \<in> set (w_checkers w2). \<not> oc_done c then None
               else do {
                 w3 \<leftarrow> cp_steps (cp_rt env) raced w2;
                 (f2, r) \<leftarrow> gather_loop env w3 (live_checkers w3) tally_start f1;
                 (case r of
                    Inl err \<Rightarrow> Some (w3, f2, [], Some err)
                  | Inr t \<Rightarrow> Some (w3, f2, gather_result w3 objectKeys t)) } } }) })"

subsection \<open>\<open>Execute\<close>\<close>

definition start_params :: "'s cp_env \<Rightarrow> params \<Rightarrow> waitForControlledPods \<Rightarrow> waitForControlledPods \<times> go_error option" where
  "start_params env ps w0 =
     (case getString ps ''apiVersion'' of
        Inl err \<Rightarrow> (w0\<lparr>w_apiVersion := []\<rparr>, Some err)
      | Inr apiVersion \<Rightarrow> let w1 = w0\<lparr>w_apiVersion := apiVersion\<rparr> in
     (case getString ps ''kind'' of
        Inl err \<Rightarrow> (w1\<lparr>w_kind := []\<rparr>, Some err)
      | Inr kind \<Rightarrow> let w2 = w1\<lparr>w_kind := kind\<rparr> in
     (case ObjectSelector_Parse ps (w_selector w2) of
        (sel, Some err) \<Rightarrow> (w2\<lparr>w_selector := sel\<rparr>, Some err)
      | (sel, None) \<Rightarrow> let w3 = w2\<lparr>w_selector := sel\<rparr> in
     (case GetDurationOrDefault (cp_ParseDuration env) ps ''operationTimeout'' (600 * second) of
        Inl err \<Rightarrow> (w3\<lparr>w_operationTimeout := 0\<rparr>, Some err)
      | Inr t \<Rightarrow> let w4 = w3\<lparr>w_operationTimeout := t\<rparr> in
     (case GetBoolOrDefault ps ''checkIfPodsAreUpdated'' True of
        Inl err \<Rightarrow> (w4\<lparr>w_checkIfPodsAreUpdated := False\<rparr>, Some err)
      | Inr b \<Rightarrow> let w5 = w4\<lparr>w_checkIfPodsAreUpdated := b\<rparr> in
     (case GetIntOrDefault ps ''countErrorMargin'' 0 of
        Inl err \<Rightarrow> (w5\<lparr>w_countErrorMargin := 0\<rparr>, Some err)
      | Inr n \<Rightarrow> (w5\<lparr>w_countErrorMargin := n\<rparr>, None)))))))"

definition cp_Execute ::
    "'s cp_env \<Rightarrow> cp_action list \<Rightarrow> cp_action list \<Rightarrow> cp_action list \<Rightarrow> params \<Rightarrow> 's cp_state \<Rightarrow> ('s cp_state \<times> Summary list \<times> go_error option) option" where
  "cp_Execute env polled awaited raced ps = (\<lambda>(w, pf, f).
     case getString ps ''action'' of
       Inl err \<Rightarrow> Some ((w, pf, f), [], Some err)
     | Inr action \<Rightarrow>
         if action = ''start'' then
           (case start_params env ps w of
              (w', Some err) \<Rightarrow> Some ((w', pf, f), [], Some err)
            | (w', None) \<Rightarrow> do { (st, err) \<leftarrow> cp_start env (w', pf, f); Some (st, [], err) })
         else if action = ''gather'' then
           (case GetDurationOrDefault (cp_ParseDuration env) ps ''syncTimeout'' (60 * second) of
              Inl err \<Rightarrow> Some ((w, pf, f), [], Some err)
            | Inr syncTimeout \<Rightarrow> do { (w', f', fps, err) \<leftarrow> gather env polled awaited raced w f;
                                     Some ((w', pf, f'), createSummary env fps, err) })
         else if action = ''stop'' then do { w' \<leftarrow> Dispose (cp_rt env) w; Some ((w', pf, f), [], None) }
         else Some ((w, pf, f), [], Some (ErrText (''unknown action '' @ action))))"

end
