(* ===== verification/Controlled_Pods_Correct.thy ===== *)
theory Controlled_Pods_Correct
  imports Controlled_Pods
begin

text \<open>
  Properties of \<open>Controlled_Pods\<close>: under every interleaving of the informer, the worker and the
  goroutines of the checkers the checker map follows the objects the worker has handled, and what
  the result of \<open>gather\<close> says about them.
\<close>

subsection \<open>Objects and checkers\<close>

fun hkey :: "rt_lib \<Rightarrow> handled \<Rightarrow> string" where
  "hkey lib (HObject r) = (case rl_KeyFunc lib r of Inr k \<Rightarrow> k | Inl _ \<Rightarrow> [])"
| "hkey lib (HUncastable s) = s"

text \<open>What the informer of a dynamic client delivers: objects with a key, a resource version and a spec.\<close>

definition watchable :: "rt_lib \<Rightarrow> handled \<Rightarrow> bool" where
  "watchable lib obj \<longleftrightarrow> (\<exists>r k v spec. obj = HObject r \<and> rl_KeyFunc lib r = Inr k \<and> GetResourceVersionFromRuntimeObject lib r = Inr v
     \<and> GetSpecFromRuntimeObject lib (Some r) = Inr spec \<and> spec \<noteq> NilSpec)"

text \<open>\<open>equality.Semantic.DeepEqual\<close> is an equivalence that separates nil from every spec.\<close>

definition deep_equal_doc :: "rt_lib \<Rightarrow> bool" where
  "deep_equal_doc lib \<longleftrightarrow> (\<forall>a. rl_DeepEqual lib a a) \<and> (\<forall>a b c. rl_DeepEqual lib a b \<longrightarrow> rl_DeepEqual lib b c \<longrightarrow> rl_DeepEqual lib a c)
     \<and> (\<forall>a. a \<noteq> NilSpec \<longrightarrow> \<not> rl_DeepEqual lib a NilSpec \<and> \<not> rl_DeepEqual lib NilSpec a)"

definition same_spec :: "rt_lib \<Rightarrow> runtime_object \<Rightarrow> runtime_object \<Rightarrow> bool" where
  "same_spec lib a b \<longleftrightarrow> IsEqualRuntimeObjectsSpec lib (Some a) (Some b) = Inr True"

text \<open>
  What a checker is for: the number of replicas and the pods of its object, no replicas for a
  deleted one.
\<close>

definition task_for :: "rt_lib \<Rightarrow> checker_task \<Rightarrow> bool" where
  "task_for lib t \<longleftrightarrow> (\<exists>replicas. GetReplicasFromRuntimeObject lib (Some (ct_obj t)) = Some (Inr replicas)
     \<and> ct_replicas t = (if ct_isDeleted t then ConstReplicas 0 else replicas) \<and> NewOwnerReferenceBasedPodStore lib (ct_obj t) = Inr (ct_store t))"

text \<open>
  One of the given actions is a run of the goroutine of checker \<open>p\<close> whose \<open>WaitForPods\<close>, called with
  the task of the checker, returned nil.
\<close>

definition saw_pods :: "rt_lib \<Rightarrow> cp_action set \<Rightarrow> int \<Rightarrow> nat \<Rightarrow> checker_task \<Rightarrow> bool" where
  "saw_pods lib acts margin p t \<longleftrightarrow> (\<exists>cr replicas. Check p cr \<in> acts \<and> watcher_Start lib (cr_sync cr) (cr_served cr) (ct_replicas t) = (replicas, None)
     \<and> WaitForPods (ct_store t) (check_options margin t) (cr_listed cr) (map (counted replicas) (cr_events cr)) = Some (None, None))"

definition checker_ok :: "rt_lib \<Rightarrow> cp_action set \<Rightarrow> int \<Rightarrow> nat \<Rightarrow> objectChecker \<Rightarrow> bool" where
  "checker_ok lib acts margin p c \<longleftrightarrow> task_for lib (oc_task c)
     \<and> (oc_status c = st_running \<longrightarrow> \<not> ct_isDeleted (oc_task c) \<and> saw_pods lib acts margin p (oc_task c))
     \<and> (oc_status c = st_deleted \<longrightarrow> ct_isDeleted (oc_task c) \<and> saw_pods lib acts margin p (oc_task c))"

definition checkers_ok :: "rt_lib \<Rightarrow> cp_action set \<Rightarrow> int \<Rightarrow> (string \<rightharpoonup> handled) \<Rightarrow> checkers \<Rightarrow> bool" where
  "checkers_ok lib acts margin st cm \<longleftrightarrow> distinct (map fst (fst cm)) \<and> (\<forall>p < length (snd cm). checker_ok lib acts margin p (snd cm ! p))
     \<and> (\<forall>k p. map_of (fst cm) k = Some p \<longrightarrow> p < length (snd cm) \<and> oc_key (snd cm ! p) = k
          \<and> (\<not> ct_isDeleted (oc_task (snd cm ! p)) \<longrightarrow> (\<exists>r. st k = Some (HObject r) \<and> same_spec lib (ct_obj (oc_task (snd cm ! p))) r)))"

lemma checkers_ok_entry:
  assumes "checkers_ok lib acts margin st cm" and "map_of (fst cm) k = Some p"
  shows "p < length (snd cm)" "oc_key (snd cm ! p) = k" "checker_ok lib acts margin p (snd cm ! p)"
    "\<not> ct_isDeleted (oc_task (snd cm ! p)) \<Longrightarrow> \<exists>r. st k = Some (HObject r) \<and> same_spec lib (ct_obj (oc_task (snd cm ! p))) r"
  using assms by (auto simp: checkers_ok_def)

text \<open>A change of a checker that keeps its key and its task.\<close>

lemma checkers_ok_touch:
  assumes "checkers_ok lib acts margin st (m, heap)" and "p < length heap \<Longrightarrow> checker_ok lib acts margin p c"
    and "oc_key c = oc_key (heap ! p)" and "oc_task c = oc_task (heap ! p)"
  shows "checkers_ok lib acts margin st (m, heap[p := c])"
proof -
  have "oc_key (heap[p := c] ! q) = oc_key (heap ! q)" "oc_task (heap[p := c] ! q) = oc_task (heap ! q)" if "q < length heap" for q
    using assms(3,4) that by (cases "p < length heap"; simp add: nth_list_update)+
  moreover have "\<forall>q < length heap. checker_ok lib acts margin q (heap[p := c] ! q)"
    using assms(1,2) by (cases "p < length heap") (simp_all add: checkers_ok_def nth_list_update list_update_beyond)
  ultimately show ?thesis using assms(1) unfolding checkers_ok_def by auto
qed

lemma checkers_ok_stop: "checkers_ok lib acts margin st (m, heap) \<Longrightarrow> checkers_ok lib acts margin st (m, stop_at p heap)"
  unfolding stop_at_def by (rule checkers_ok_touch) (auto simp: checker_Stop_def checker_ok_def checkers_ok_def)

lemma checkers_ok_delete:
  assumes "checkers_ok lib acts margin st (m, heap)"
  shows "checkers_ok lib acts margin (st(k := x)) (AList.delete k m, heap)"
  using assms by (auto simp: checkers_ok_def delete_conv' distinct_delete split: if_splits)

lemma checkers_ok_DeleteAndStop:
  assumes "checkers_ok lib acts margin st cm"
  shows "checkers_ok lib acts margin (st(k := x)) (fst (DeleteAndStop k cm))"
proof (cases "map_of (fst cm) k")
  case None
  then show ?thesis using assms by (auto simp: DeleteAndStop_def checkers_ok_def split: if_splits)
next
  case (Some p)
  then show ?thesis
    using checkers_ok_delete [OF checkers_ok_stop [of lib acts margin st "fst cm" "snd cm" p], of k x] assms by (simp add: DeleteAndStop_def)
qed

lemma checkers_ok_Map_Add:
  assumes "checkers_ok lib acts margin st (m, heap)" and "checker_ok lib acts margin (length heap) c" and "oc_key c = k"
    and "\<not> ct_isDeleted (oc_task c) \<Longrightarrow> \<exists>r. st k = Some (HObject r) \<and> same_spec lib (ct_obj (oc_task c)) r"
  shows "checkers_ok lib acts margin st (Map_Add k (length heap) (m, heap @ [c]))"
proof -
  have push: "checkers_ok lib acts margin st (m, heap @ [c])"
    using assms(1,2) unfolding checkers_ok_def by (fastforce simp: nth_append less_Suc_eq)
  have add: "checkers_ok lib acts margin st (AList.update k (length heap) m, heap @ [c])"
    using push assms(2-4) unfolding checkers_ok_def by (auto simp: update_conv' distinct_update split: if_splits)
  show ?thesis
  proof (cases "map_of m k")
    case None
    then show ?thesis using add by (simp add: Map_Add_def)
  next
    case (Some p)
    then show ?thesis using checkers_ok_stop [OF add, of p] by (simp add: Map_Add_def)
  qed
qed

lemma checkers_ok_new: "checkers_ok lib acts margin st cm \<Longrightarrow> st k = None \<Longrightarrow> checkers_ok lib acts margin (st(k := x)) cm"
  unfolding checkers_ok_def by fastforce

lemma same_spec_trans:
  assumes "deep_equal_doc lib" and "same_spec lib a b" and "same_spec lib b c"
  shows "same_spec lib a c"
  using assms unfolding same_spec_def IsEqualRuntimeObjectsSpec_def deep_equal_doc_def
  by (auto split: sum.splits)

lemma checkers_ok_same_spec:
  assumes "deep_equal_doc lib" and "checkers_ok lib acts margin st cm" and "st k = Some (HObject a)" and "same_spec lib a b"
  shows "checkers_ok lib acts margin (st(k \<mapsto> HObject b)) cm"
  using assms(2,3) same_spec_trans [OF assms(1) _ assms(4)] unfolding checkers_ok_def by fastforce

lemma wait_loop_nil: "wait_loop lister options old s evs = Some (fp, None) \<Longrightarrow> fp = None"
  by (induction evs arbitrary: old s rule: list.induct)
    (auto simp: Let_def split: wait_event.splits sum.splits if_splits elim!: wait_loop.elims)

lemma WaitForPods_nil: "WaitForPods lister options listed evs = Some (fp, None) \<Longrightarrow> fp = None"
  by (auto simp: WaitForPods_def split: sum.splits dest: wait_loop_nil)

lemma checker_run_ok:
  assumes "checker_ok lib acts margin p c" and "Check p cr \<in> acts"
  shows "checker_ok lib acts margin p (checker_run lib margin cr c)" "oc_key (checker_run lib margin cr c) = oc_key c"
    "oc_task (checker_run lib margin cr c) = oc_task c"
proof -
  let ?t = "oc_task c"
  obtain rw e where start: "watcher_Start lib (cr_sync cr) (cr_served cr) (ct_replicas ?t) = (rw, e)" by fastforce
  let ?wait = "WaitForPods (ct_store ?t) (check_options margin ?t) (cr_listed cr) (map (counted rw) (cr_events cr))"
  have seen: "saw_pods lib acts margin p ?t" if "?wait = Some (fp, None)" "e = None" for fp
    unfolding saw_pods_def using that WaitForPods_nil [OF that(1)] start assms(2) by (intro exI conjI) simp_all
  show "checker_ok lib acts margin p (checker_run lib margin cr c)"
    using assms(1) seen unfolding checker_run_def start Let_def checker_ok_def by (auto split: option.splits)
  show "oc_key (checker_run lib margin cr c) = oc_key c" "oc_task (checker_run lib margin cr c) = oc_task c"
    unfolding checker_run_def start Let_def by (auto split: option.splits)
qed

subsection \<open>The worker\<close>

text \<open>The state of the measurement when the worker has handled the notices that lead to the objects \<open>st\<close>.\<close>

definition tracks :: "rt_lib \<Rightarrow> cp_action set \<Rightarrow> (string \<rightharpoonup> handled) \<Rightarrow> waitForControlledPods \<Rightarrow> bool" where
  "tracks lib acts st w \<longleftrightarrow> w_isRunning w \<and> w_objectKeys w = dom st \<and> finite (dom st)
     \<and> checkers_ok lib acts (w_countErrorMargin w) st (w_checkerMap w, w_checkers w)
     \<and> (\<forall>k obj. st k = Some obj \<longrightarrow> watchable lib obj \<and> hkey lib obj = k)"

lemma updateOpResourceVersion_frame:
  "\<exists>v. fst (updateOpResourceVersionLocked lib r w) = w\<lparr>w_opResourceVersion := v\<rparr>"
  by (auto simp: updateOpResourceVersionLocked_def split: sum.split intro: exI [of _ "w_opResourceVersion w"])

lemma update_cache_for_Some:
  assumes "rl_KeyFunc lib r = Inr k"
  shows "\<exists>v. fst (update_cache_for lib change (Some r) we) = (fst we)\<lparr>w_objectKeys := change k (w_objectKeys (fst we)), w_opResourceVersion := v\<rparr>"
  using assms updateOpResourceVersion_frame [of lib r "(fst we)\<lparr>w_objectKeys := change k (w_objectKeys (fst we))\<rparr>"]
  by (auto simp: update_cache_for_def split_beta)

lemma updateCacheLocked_frame:
  assumes "\<forall>r. old = Some r \<longrightarrow> rl_KeyFunc lib r = Inr k" and "\<forall>r. new = Some r \<longrightarrow> rl_KeyFunc lib r = Inr k"
  shows "\<exists>v. fst (updateCacheLocked lib old new w) = w\<lparr>w_objectKeys :=
    (if new = None then (if old = None then w_objectKeys w else w_objectKeys w - {k}) else insert k (w_objectKeys w)), w_opResourceVersion := v\<rparr>"
proof -
  obtain v1 where 1: "fst (update_cache_for lib (\<lambda>key keys. keys - {key}) old (w, NewErrorList [])) =
      w\<lparr>w_objectKeys := (if old = None then w_objectKeys w else w_objectKeys w - {k}), w_opResourceVersion := v1\<rparr>"
  proof (cases old)
    case None
    then show ?thesis using that [of "w_opResourceVersion w"] by (simp add: update_cache_for_def)
  next
    case (Some r)
    then show ?thesis using that update_cache_for_Some [of lib r k "\<lambda>key keys. keys - {key}" "(w, NewErrorList [])"] assms(1) by auto
  qed
  show ?thesis
  proof (cases new)
    case None
    then show ?thesis using 1 by (auto simp: updateCacheLocked_def split_beta update_cache_for_def)
  next
    case (Some r)
    then obtain v where "fst (update_cache_for lib insert new (update_cache_for lib (\<lambda>key keys. keys - {key}) old (w, NewErrorList []))) =
        w\<lparr>w_objectKeys := insert k (if old = None then w_objectKeys w else w_objectKeys w - {k}), w_opResourceVersion := v\<rparr>"
      using update_cache_for_Some [of lib r k insert "update_cache_for lib (\<lambda>key keys. keys - {key}) old (w, NewErrorList [])"] assms(2) 1 by auto
    then show ?thesis using Some by (auto simp: updateCacheLocked_def split_beta)
  qed
qed

lemma tracks_updateCache:
  assumes "checkers_ok lib acts (w_countErrorMargin w) (st(k := new)) (w_checkerMap w, w_checkers w)" and "w_isRunning w"
    and "w_objectKeys w = dom st" and "finite (dom st)" and "\<forall>k obj. st k = Some obj \<longrightarrow> watchable lib obj \<and> hkey lib obj = k"
    and "\<forall>obj. old = Some obj \<longrightarrow> watchable lib obj \<and> hkey lib obj = k" and "\<forall>obj. new = Some obj \<longrightarrow> watchable lib obj \<and> hkey lib obj = k"
    and "old = None \<Longrightarrow> new = None \<Longrightarrow> st k = None"
  shows "tracks lib acts (st(k := new)) (fst (updateCacheLocked lib (cast_object old) (cast_object new) w))"
proof -
  have "rl_KeyFunc lib r = Inr k" if "cast_object obj = Some r" "\<forall>o1. obj = Some o1 \<longrightarrow> watchable lib o1 \<and> hkey lib o1 = k" for obj r
    using that by (cases obj rule: cast_object.cases) (auto simp: watchable_def)
  then obtain v where w': "fst (updateCacheLocked lib (cast_object old) (cast_object new) w) = w\<lparr>w_objectKeys :=
      (if cast_object new = None then (if cast_object old = None then w_objectKeys w else w_objectKeys w - {k}) else insert k (w_objectKeys w)), w_opResourceVersion := v\<rparr>"
    using updateCacheLocked_frame [of "cast_object old" lib k "cast_object new" w] assms(6,7) by blast
  have "cast_object obj = None \<longleftrightarrow> obj = None" if "\<forall>o1. obj = Some o1 \<longrightarrow> watchable lib o1 \<and> hkey lib o1 = k" for obj
    using that by (cases obj rule: cast_object.cases) (auto simp: watchable_def)
  then show ?thesis
    unfolding w' tracks_def using assms by (cases old; cases new) auto
qed

lemma handleObjectLocked_ok:
  assumes "checkers_ok lib acts (w_countErrorMargin w) st (w_checkerMap w, w_checkers w)"
    and "handleObjectLocked lib old new w = Some (w', err)" and "\<forall>r. new = Some r \<longrightarrow> st k = Some (HObject r) \<and> same_spec lib r r"
    and "\<forall>r. old = Some r \<longrightarrow> rl_KeyFunc lib r = Inr k" and "\<forall>r. new = Some r \<longrightarrow> rl_KeyFunc lib r = Inr k"
  shows "\<exists>m heap. w' = w\<lparr>w_checkerMap := m, w_checkers := heap\<rparr> \<and> checkers_ok lib acts (w_countErrorMargin w) st (m, heap)"
proof -
  have same: "\<exists>m heap. w = w\<lparr>w_checkerMap := m, w_checkers := heap\<rparr> \<and> checkers_ok lib acts (w_countErrorMargin w) st (m, heap)"
    using assms(1) by (intro exI [of _ "w_checkerMap w"] exI [of _ "w_checkers w"]) simp
  show ?thesis
  proof (cases "if new = None then old else new")
    case None
    then show ?thesis using assms(2) same by (simp add: handleObjectLocked_def)
  next
    case (Some obj)
    then have key: "rl_KeyFunc lib obj = Inr k" using assms(4,5) by (auto split: if_splits)
    show ?thesis
    proof (cases "waitForRuntimeObject lib obj (new = None) w")
      case None
      then show ?thesis using assms(2) Some key by (simp add: handleObjectLocked_def)
    next
      case (Some r)
      note obj = \<open>(if new = None then old else new) = Some obj\<close>
      show ?thesis
      proof (cases r)
        case (Inl e)
        then show ?thesis using assms(2) Some obj key same by (simp add: handleObjectLocked_def)
      next
        case (Inr c)
        then have c: "oc_status c = st_unknown" "oc_key c = k" "ct_obj (oc_task c) = obj" "ct_isDeleted (oc_task c) \<longleftrightarrow> new = None" "task_for lib (oc_task c)"
          using Some key unfolding waitForRuntimeObject_def
          by (auto simp: newObjectChecker_def task_for_def split: option.splits sum.splits if_splits)
        have "checkers_ok lib acts (w_countErrorMargin w) st (Map_Add k (length (w_checkers w)) (w_checkerMap w, w_checkers w @ [c]))"
          using assms(1,3) c obj by (intro checkers_ok_Map_Add) (auto simp: checker_ok_def split: if_splits)
        moreover have "w' = on_checkers (Map_Add k (length (w_checkers w))) (w\<lparr>w_checkers := w_checkers w @ [c]\<rparr>)"
          using assms(2) Some Inr obj key by (simp add: handleObjectLocked_def)
        ultimately show ?thesis
          by (cases "Map_Add k (length (w_checkers w)) (w_checkerMap w, w_checkers w @ [c])") (auto simp: on_checkers_def)
      qed
    qed
  qed
qed

text \<open>One call of the handler, for an object that is added, changed or deleted.\<close>

lemma handleObject_tracks:
  assumes doc: "deep_equal_doc lib" and tracks: "tracks lib acts st w" and handle: "handleObject lib old new w = Some w'"
    and old: "\<forall>obj. old = Some obj \<longrightarrow> watchable lib obj \<and> hkey lib obj = k" and new: "\<forall>obj. new = Some obj \<longrightarrow> watchable lib obj \<and> hkey lib obj = k"
    and some: "old \<noteq> None \<or> new \<noteq> None" and before: "old = None \<Longrightarrow> st k = None" "old \<noteq> None \<Longrightarrow> new \<noteq> None \<Longrightarrow> st k = old"
  shows "tracks lib acts (st(k := new)) w'"
proof -
  let ?o = "cast_object old" and ?n = "cast_object new"
  have wk: "w_isRunning w" "w_objectKeys w = dom st" "finite (dom st)" "\<forall>k obj. st k = Some obj \<longrightarrow> watchable lib obj \<and> hkey lib obj = k"
      and cm: "checkers_ok lib acts (w_countErrorMargin w) st (w_checkerMap w, w_checkers w)"
    using tracks by (simp_all add: tracks_def)
  have cast: "castable obj \<and> map_option HObject (cast_object obj) = obj \<and> (\<forall>r. cast_object obj = Some r \<longrightarrow> rl_KeyFunc lib r = Inr k
      \<and> (\<exists>spec. GetSpecFromRuntimeObject lib (Some r) = Inr spec \<and> spec \<noteq> NilSpec))"
    if "\<forall>o1. obj = Some o1 \<longrightarrow> watchable lib o1 \<and> hkey lib o1 = k" for obj
    using that by (cases obj rule: cast_object.cases) (auto simp: watchable_def)
  note co = cast [OF old] and cn = cast [OF new]
  have nil: "\<forall>a. a \<noteq> NilSpec \<longrightarrow> \<not> rl_DeepEqual lib a NilSpec \<and> \<not> rl_DeepEqual lib NilSpec a" and refl: "\<forall>a. rl_DeepEqual lib a a"
    using doc by (simp_all add: deep_equal_doc_def)
  have update: "tracks lib acts (st(k := new)) (fst (updateCacheLocked lib ?o ?n w1))"
    if "checkers_ok lib acts (w_countErrorMargin w) (st(k := new)) (m, heap)" "w1 = w\<lparr>w_checkerMap := m, w_checkers := heap\<rparr>" for w1 m heap
    using that wk old new before by (intro tracks_updateCache) simp_all
  obtain eq where eq: "IsEqualRuntimeObjectsSpec lib ?o ?n = Inr eq"
    using co cn by (cases ?o; cases ?n) (auto simp: IsEqualRuntimeObjectsSpec_def)
  show ?thesis
  proof (cases eq)
    case True
    have "\<exists>a b. ?o = Some a \<and> ?n = Some b \<and> same_spec lib a b"
      using eq True co cn some nil by (cases ?o; cases ?n) (auto simp: IsEqualRuntimeObjectsSpec_def same_spec_def)
    then obtain a b where ab: "old = Some (HObject a)" "new = Some (HObject b)" "same_spec lib a b" using co cn by auto
    then have "checkers_ok lib acts (w_countErrorMargin w) (st(k := new)) (w_checkerMap w, w_checkers w)"
      using checkers_ok_same_spec [OF doc cm, of k a b] before(2) by simp
    moreover have "w' = fst (updateCacheLocked lib ?o ?n w)" using handle co cn eq True by (simp add: handleObject_def)
    ultimately show ?thesis using update [of "w_checkerMap w" "w_checkers w" w] by simp
  next
    case False
    obtain m heap where del: "fst (deleteObjectLocked lib ?o w) = w\<lparr>w_checkerMap := m, w_checkers := heap\<rparr>"
        "checkers_ok lib acts (w_countErrorMargin w) (st(k := new)) (m, heap)"
    proof (cases ?o)
      case None
      then have "st k = None" using co before(1) by simp
      then show ?thesis using that [of "w_checkers w" "w_checkerMap w"] checkers_ok_new [OF cm] None by (simp add: deleteObjectLocked_def)
    next
      case (Some r)
      then show ?thesis using that co checkers_ok_DeleteAndStop [OF cm, of k new]
        by (cases "DeleteAndStop k (w_checkerMap w, w_checkers w)") (auto simp: deleteObjectLocked_def on_checkers_def)
    qed
    obtain w1 err where locked: "handleObjectLocked lib ?o ?n (w\<lparr>w_checkerMap := m, w_checkers := heap\<rparr>) = Some (w1, err)"
        and w': "w' = fst (updateCacheLocked lib ?o ?n w1)"
    proof (cases "handleObjectLocked lib ?o ?n (w\<lparr>w_checkerMap := m, w_checkers := heap\<rparr>)")
      case None
      then show ?thesis using handle co cn eq False wk(1) by (simp add: handleObject_def del(1))
    next
      case (Some r)
      then show ?thesis using handle co cn eq False wk(1) that by (cases r) (simp add: handleObject_def del(1))
    qed
    have "\<forall>r. ?n = Some r \<longrightarrow> (st(k := new)) k = Some (HObject r) \<and> same_spec lib r r"
      using cn refl by (auto simp: same_spec_def IsEqualRuntimeObjectsSpec_def)
    moreover have "\<forall>r. ?o = Some r \<longrightarrow> rl_KeyFunc lib r = Inr k" "\<forall>r. ?n = Some r \<longrightarrow> rl_KeyFunc lib r = Inr k"
      using co cn by simp_all
    ultimately obtain m2 heap2 where "w1 = w\<lparr>w_checkerMap := m2, w_checkers := heap2\<rparr>" "checkers_ok lib acts (w_countErrorMargin w) (st(k := new)) (m2, heap2)"
      using handleObjectLocked_ok [OF _ locked, of acts "st(k := new)" k] del(2) by (simp add: del: fun_upd_apply) (elim exE conjE, simp)
    then show ?thesis unfolding w' using update by blast
  qed
qed

text \<open>A handler that panicked stays there.\<close>

definition handle_opt :: "rt_lib \<Rightarrow> handled option \<Rightarrow> handled option \<Rightarrow> waitForControlledPods option \<Rightarrow> waitForControlledPods option" where
  "handle_opt lib old new ws = Option.bind ws (handleObject lib old new)"

definition tracks_opt :: "rt_lib \<Rightarrow> cp_action set \<Rightarrow> (string \<rightharpoonup> handled) \<Rightarrow> waitForControlledPods option \<Rightarrow> bool" where
  "tracks_opt lib acts st ws \<longleftrightarrow> (deep_equal_doc lib \<longrightarrow> (\<forall>w. ws = Some w \<longrightarrow> tracks lib acts st w))"

interpretation controlled: informer_client "hkey lib" "\<lambda>_ _. True" "watchable lib" "handle_opt lib" "tracks_opt lib acts" for lib acts
proof
  fix st ws obj
  assume *: "tracks_opt lib acts st ws" "watchable lib obj" "st (hkey lib obj) = None"
  show "tracks_opt lib acts (st(hkey lib obj \<mapsto> obj)) (handle_opt lib None (Some obj) ws)"
    unfolding tracks_opt_def
  proof (intro impI allI)
    fix w' assume doc: "deep_equal_doc lib" and "handle_opt lib None (Some obj) ws = Some w'"
    then obtain w where "tracks lib acts st w" "handleObject lib None (Some obj) w = Some w'"
      using *(1) by (auto simp: handle_opt_def tracks_opt_def bind_eq_Some_conv)
    then show "tracks lib acts (st(hkey lib obj \<mapsto> obj)) w'" using * by (intro handleObject_tracks [OF doc]) auto
  qed
next
  fix st ws new old
  assume *: "tracks_opt lib acts st ws" "watchable lib new" "hkey lib new = hkey lib old" "st (hkey lib old) = Some old"
  show "tracks_opt lib acts (st(hkey lib old \<mapsto> new)) (handle_opt lib (Some old) (Some new) ws)"
    unfolding tracks_opt_def
  proof (intro impI allI)
    fix w' assume doc: "deep_equal_doc lib" and "handle_opt lib (Some old) (Some new) ws = Some w'"
    then obtain w where w: "tracks lib acts st w" "handleObject lib (Some old) (Some new) w = Some w'"
      using *(1) by (auto simp: handle_opt_def tracks_opt_def bind_eq_Some_conv)
    then have "watchable lib old" using *(4) by (simp add: tracks_def)
    then show "tracks lib acts (st(hkey lib old \<mapsto> new)) w'" using * w by (intro handleObject_tracks [OF doc]) auto
  qed
next
  fix st ws obj cur
  assume *: "tracks_opt lib acts st ws" "watchable lib obj" "st (hkey lib obj) = Some cur"
  show "tracks_opt lib acts (st(hkey lib obj := None)) (handle_opt lib (Some obj) None ws)"
    unfolding tracks_opt_def
  proof (intro impI allI)
    fix w' assume doc: "deep_equal_doc lib" and "handle_opt lib (Some obj) None ws = Some w'"
    then obtain w where "tracks lib acts st w" "handleObject lib (Some obj) None w = Some w'"
      using *(1) by (auto simp: handle_opt_def tracks_opt_def bind_eq_Some_conv)
    then show "tracks lib acts (st(hkey lib obj := None)) w'" using * by (intro handleObject_tracks [OF doc]) auto
  qed
qed

subsection \<open>Interleavings\<close>

fun notice_pair :: "'o notice \<Rightarrow> 'o option \<times> 'o option" where
  "notice_pair (OnAdd obj) = (None, Some obj)"
| "notice_pair (OnUpdate old new) = (Some old, Some new)"
| "notice_pair (OnDelete obj) = (Some obj, None)"
| "notice_pair (OnDeleteUnknown key obj) = (Some obj, None)"

lemma addEventHandler_pair: "addEventHandler h e s = h (fst (notice_pair e)) (snd (notice_pair e)) s"
  by (cases e) simp_all

fun notices_of :: "cp_action list \<Rightarrow> handled notice list" where
  "notices_of [] = []"
| "notices_of (Notify n # acts) = n # notices_of acts"
| "notices_of (_ # acts) = notices_of acts"

lemma notices_of_append [simp]: "notices_of (as @ bs) = notices_of as @ notices_of bs"
  by (induction as rule: notices_of.induct) simp_all

lemma cp_steps_append: "cp_steps lib (as @ bs) w = (case cp_steps lib as w of None \<Rightarrow> None | Some w' \<Rightarrow> cp_steps lib bs w')"
  by (induction as arbitrary: w) (auto split: option.splits)

abbreviation delivers :: "rt_lib \<Rightarrow> (string \<rightharpoonup> handled) \<Rightarrow> handled notice list \<Rightarrow> (string \<rightharpoonup> handled) \<Rightarrow> bool" where
  "delivers lib \<equiv> informed (hkey lib) (\<lambda>_ _. True) (watchable lib)"

text \<open>
  The objects the worker has handled after a sequence of actions: the notices not yet handled, in
  order, and the objects that the handled ones lead to.
\<close>

fun apply_notice :: "rt_lib \<Rightarrow> handled notice \<Rightarrow> (string \<rightharpoonup> handled) \<Rightarrow> string \<rightharpoonup> handled" where
  "apply_notice lib (OnAdd obj) st = st(hkey lib obj \<mapsto> obj)"
| "apply_notice lib (OnUpdate old new) st = st(hkey lib old \<mapsto> new)"
| "apply_notice lib (OnDelete obj) st = st(hkey lib obj := None)"
| "apply_notice lib (OnDeleteUnknown key obj) st = st(hkey lib obj := None)"

fun handled_after :: "rt_lib \<Rightarrow> cp_action list \<Rightarrow> handled notice list \<times> (string \<rightharpoonup> handled) \<Rightarrow> handled notice list \<times> (string \<rightharpoonup> handled)" where
  "handled_after lib [] s = s"
| "handled_after lib (Notify n # acts) (q, st) = handled_after lib acts (q @ [n], st)"
| "handled_after lib (Work # acts) ([], st) = handled_after lib acts ([], st)"
| "handled_after lib (Work # acts) (n # q, st) = handled_after lib acts (q, apply_notice lib n st)"
| "handled_after lib (Check p cr # acts) s = handled_after lib acts s"

definition handled_objects :: "rt_lib \<Rightarrow> cp_action list \<Rightarrow> string \<rightharpoonup> handled" where
  "handled_objects lib acts = snd (handled_after lib acts ([], Map.empty))"

lemma delivers_apply: "delivers lib st1 [n] st2 \<Longrightarrow> st2 = apply_notice lib n st1"
  by (cases n) (auto simp: informed_simps)

definition frame :: "waitForControlledPods \<Rightarrow> (handled option \<times> handled option) list \<times> bool \<times> bool \<times> int \<times> bool" where
  "frame w = (w_queue w, w_queueOpen w, w_watching w, w_countErrorMargin w, w_isRunning w)"

lemma handleObject_frame:
  assumes "handleObject lib old new w = Some w'"
  shows "frame w' = frame w"
proof -
  have upd: "frame (fst (update_cache_for lib change obj we)) = frame (fst we)" for change obj we
    by (simp add: update_cache_for_def updateOpResourceVersionLocked_def frame_def split_beta split: option.split sum.split)
  have cache: "frame (fst (updateCacheLocked lib a b x)) = frame x" for a b x
    by (simp add: updateCacheLocked_def split_beta upd)
  have locked: "frame x' = frame x" if "handleObjectLocked lib a b x = Some (x', err)" for a b x x' err
    using that by (auto simp: handleObjectLocked_def on_checkers_def frame_def Let_def split_beta split: option.splits sum.splits if_splits)
  have del: "frame (fst (deleteObjectLocked lib a x)) = frame x" for a x
    by (simp add: deleteObjectLocked_def on_checkers_def frame_def split_beta split: option.split sum.split)
  show ?thesis
    using assms locked del unfolding handleObject_def Let_def
    by (auto simp: cache split: if_splits sum.splits option.splits)
qed

lemma tracks_check:
  assumes "tracks lib acts st w" and "Check p cr \<in> acts"
  shows "tracks lib acts st (if p < length (w_checkers w)
    then w\<lparr>w_checkers := (w_checkers w)[p := checker_run lib (w_countErrorMargin w) cr (w_checkers w ! p)]\<rparr> else w)"
proof (cases "p < length (w_checkers w)")
  case True
  have cm: "checkers_ok lib acts (w_countErrorMargin w) st (w_checkerMap w, w_checkers w)" using assms by (simp add: tracks_def)
  then have "checker_ok lib acts (w_countErrorMargin w) p (w_checkers w ! p)" using True by (simp add: checkers_ok_def)
  note run = checker_run_ok [OF this assms(2)]
  show ?thesis using assms checkers_ok_touch [OF cm run] True by (simp add: tracks_def)
qed (use assms in simp)

text \<open>The measurement while it watches, with the notices \<open>es\<close> queued and the objects \<open>st\<close> handled.\<close>

definition watches :: "rt_lib \<Rightarrow> cp_action set \<Rightarrow> handled notice list \<times> (string \<rightharpoonup> handled) \<Rightarrow> waitForControlledPods \<Rightarrow> bool" where
  "watches lib acts q w \<longleftrightarrow> tracks lib acts (snd q) w \<and> w_watching w \<and> w_queueOpen w \<and> w_queue w = map notice_pair (fst q)"

lemma cp_steps_watches:
  assumes doc: "deep_equal_doc lib"
  shows "watches lib acts (es, st1) w \<Longrightarrow> delivers lib st1 es st2 \<Longrightarrow> delivers lib st2 (notices_of as) st \<Longrightarrow> set as \<subseteq> acts
    \<Longrightarrow> cp_steps lib as w = Some w' \<Longrightarrow> watches lib acts (handled_after lib as (es, st1)) w'
      \<and> delivers lib (snd (handled_after lib as (es, st1))) (fst (handled_after lib as (es, st1))) st"
proof (induction as arbitrary: st1 w es st2)
  case Nil
  then show ?case by (auto simp: informed_simps)
next
  case (Cons a as)
  show ?case
  proof (cases a)
    case (Notify n)
    let ?w = "w\<lparr>w_queue := w_queue w @ [notice_pair n]\<rparr>"
    obtain st3 where "delivers lib st2 [n] st3" "delivers lib st3 (notices_of as) st"
      using Cons.prems(3) Notify informed_append [of "hkey lib" "\<lambda>_ _. True" "watchable lib" st2 "[n]" "notices_of as" st] by auto
    then have "delivers lib st1 (es @ [n]) st3" "delivers lib st3 (notices_of as) st"
      using Cons.prems(2) by (auto simp: informed_append)
    moreover have "cp_steps lib as ?w = Some w'"
      using Cons.prems(1,5) Notify by (simp add: watches_def addEventHandler_pair queue_Add_def)
    moreover have "watches lib acts (es @ [n], st1) ?w" using Cons.prems(1) by (simp add: watches_def tracks_def)
    ultimately show ?thesis using Cons.IH [of "es @ [n]" st1 ?w st3] Cons.prems(4) Notify by simp
  next
    case Work
    show ?thesis
    proof (cases es)
      case Nil
      then show ?thesis using Cons.IH [of es st1 w st2] Cons.prems Work by (simp add: watches_def)
    next
      case (Cons e es')
      let ?w = "w\<lparr>w_queue := map notice_pair es'\<rparr>"
      obtain w1 where w1: "handleObject lib (fst (notice_pair e)) (snd (notice_pair e)) ?w = Some w1" "cp_steps lib as w1 = Some w'"
        using Cons.prems Work Cons by (cases "notice_pair e") (auto simp: watches_def split: option.splits)
      obtain st3 where st3: "delivers lib st1 [e] st3" "delivers lib st3 es' st2"
        using Cons.prems(2) Cons informed_append [of "hkey lib" "\<lambda>_ _. True" "watchable lib" st1 "[e]" es' st2] by auto
      have "tracks_opt lib acts st1 (Some ?w)" using Cons.prems(1) by (simp add: watches_def tracks_opt_def tracks_def)
      from controlled.handles_notices [OF st3(1) this] have "tracks lib acts st3 w1"
        using w1(1) doc by (simp add: addEventHandler_pair handle_opt_def tracks_opt_def)
      moreover have "frame w1 = frame ?w" by (rule handleObject_frame [OF w1(1)])
      ultimately have "watches lib acts (es', st3) w1" using Cons.prems(1) by (simp add: watches_def frame_def)
      then show ?thesis using Cons.IH [of es' st3 w1 st2] Cons.prems(3,4) st3(2) w1(2) Work Cons delivers_apply [OF st3(1)] by simp
    qed
  next
    case (Check p cr)
    let ?w = "if p < length (w_checkers w)
      then w\<lparr>w_checkers := (w_checkers w)[p := checker_run lib (w_countErrorMargin w) cr (w_checkers w ! p)]\<rparr> else w"
    have "tracks lib acts st1 ?w" by (rule tracks_check) (use Cons.prems(1,4) Check in \<open>simp_all add: watches_def\<close>)
    then have "watches lib acts (es, st1) ?w" using Cons.prems(1) by (simp add: watches_def)
    then show ?thesis using Cons.IH [of es st1 ?w st2] Cons.prems(2-5) Check by simp
  qed
qed

subsection \<open>What \<open>gather\<close> says\<close>

lemma gather_loop_counts:
  assumes "gather_loop env w cs t f = Some (f', Inr t')"
  shows "ta_running t' = ta_running t + length (filter (\<lambda>c. oc_status c = st_running) cs)
    \<and> ta_timeout t' = ta_timeout t + length (filter (\<lambda>c. oc_status c \<in> {st_timeout, st_deleteTimeout}) cs)
    \<and> ta_failed t' = ta_failed t + length (filter (\<lambda>c. oc_status c = st_failed) cs) \<and> (\<forall>c \<in> set cs. oc_status c \<noteq> st_unknown)"
  using assms
proof (induction cs arbitrary: t f)
  case (Cons c cs)
  then show ?case
    by (cases "oc_status c") (auto simp: getStatus_def tally_timeout_def bind_eq_Some_conv split_beta Let_def dest!: Cons.IH)
qed simp

lemma gather_loop_settled:
  assumes "\<forall>c \<in> set cs. oc_status c \<in> {st_running, st_deleted}"
  shows "gather_loop env w cs t f = Some (f, Inr (t\<lparr>ta_running := ta_running t + length (filter (\<lambda>c. oc_status c = st_running) cs)\<rparr>))"
  using assms by (induction cs arbitrary: t) (auto simp: getStatus_def)

text \<open>
  An object whose pods were seen: its checker runs for the spec the worker has handled last, and in one
  of the runs of the checker's goroutine \<open>WaitForPods\<close> returned nil for the replicas of the object. A
  checker that saw the pods of a deleted object gone.
\<close>

definition ready :: "rt_lib \<Rightarrow> cp_action set \<Rightarrow> (string \<rightharpoonup> handled) \<Rightarrow> waitForControlledPods \<Rightarrow> string \<Rightarrow> bool" where
  "ready lib acts st w k \<longleftrightarrow> (\<exists>p r. map_of (w_checkerMap w) k = Some p \<and> oc_status (w_checkers w ! p) = st_running \<and> st k = Some (HObject r)
     \<and> same_spec lib (ct_obj (oc_task (w_checkers w ! p))) r \<and> \<not> ct_isDeleted (oc_task (w_checkers w ! p))
     \<and> task_for lib (oc_task (w_checkers w ! p)) \<and> saw_pods lib acts (w_countErrorMargin w) p (oc_task (w_checkers w ! p)))"

definition gone :: "rt_lib \<Rightarrow> cp_action set \<Rightarrow> waitForControlledPods \<Rightarrow> nat \<Rightarrow> bool" where
  "gone lib acts w p \<longleftrightarrow> oc_status (w_checkers w ! p) = st_deleted \<and> ct_isDeleted (oc_task (w_checkers w ! p))
     \<and> task_for lib (oc_task (w_checkers w ! p)) \<and> saw_pods lib acts (w_countErrorMargin w) p (oc_task (w_checkers w ! p))"

lemma running_ready:
  assumes "tracks lib acts st w" and "map_of (w_checkerMap w) k = Some p"
  shows "oc_status (w_checkers w ! p) = st_running \<Longrightarrow> ready lib acts st w k"
    and "oc_status (w_checkers w ! p) = st_deleted \<Longrightarrow> gone lib acts w p"
proof -
  have cm: "checkers_ok lib acts (w_countErrorMargin w) st (w_checkerMap w, w_checkers w)" using assms(1) by (simp add: tracks_def)
  note e = checkers_ok_entry [OF cm, simplified, OF assms(2)]
  show "oc_status (w_checkers w ! p) = st_running \<Longrightarrow> ready lib acts st w k" using e assms(2) by (auto simp: ready_def checker_ok_def)
  show "oc_status (w_checkers w ! p) = st_deleted \<Longrightarrow> gone lib acts w p" using e by (auto simp: gone_def checker_ok_def)
qed

lemma running_keys:
  assumes "tracks lib acts st w"
  shows "length (filter (\<lambda>c. oc_status c = st_running) (live_checkers w)) = card {k. ready lib acts st w k}" "{k. ready lib acts st w k} \<subseteq> dom st"
proof -
  let ?run = "\<lambda>(k, p). oc_status (w_checkers w ! p) = st_running"
  have d: "distinct (map fst (w_checkerMap w))" using assms by (simp add: tracks_def checkers_ok_def)
  have "length (filter (\<lambda>c. oc_status c = st_running) (live_checkers w)) = length (filter ?run (w_checkerMap w))"
    by (simp add: live_checkers_def filter_map comp_def split_def)
  also have "\<dots> = card (fst ` set (filter ?run (w_checkerMap w)))"
    using distinct_card [of "map fst (filter ?run (w_checkerMap w))"] distinct_map_filter [OF d] by simp
  also have "fst ` set (filter ?run (w_checkerMap w)) = {k. ready lib acts st w k}"
  proof (intro set_eqI iffI)
    fix k assume "k \<in> fst ` set (filter ?run (w_checkerMap w))"
    then obtain p where "map_of (w_checkerMap w) k = Some p" "oc_status (w_checkers w ! p) = st_running" using d by auto
    then show "k \<in> {k. ready lib acts st w k}" using running_ready(1) [OF assms] by blast
  next
    fix k assume "k \<in> {k. ready lib acts st w k}"
    then show "k \<in> fst ` set (filter ?run (w_checkerMap w))" by (force simp: ready_def dest: map_of_SomeD)
  qed
  finally show "length (filter (\<lambda>c. oc_status c = st_running) (live_checkers w)) = card {k. ready lib acts st w k}" .
  show "{k. ready lib acts st w k} \<subseteq> dom st" by (auto simp: ready_def)
qed

text \<open>How the checkers stand when nothing is wrong: those of the ready objects, and those that saw the pods of their object gone.\<close>

definition no_trouble :: "rt_lib \<Rightarrow> cp_action set \<Rightarrow> (string \<rightharpoonup> handled) \<Rightarrow> waitForControlledPods \<Rightarrow> bool" where
  "no_trouble lib acts st w \<longleftrightarrow> (\<forall>k p. map_of (w_checkerMap w) k = Some p \<longrightarrow> ready lib acts st w k \<or> gone lib acts w p)"

definition all_settled :: "rt_lib \<Rightarrow> cp_action set \<Rightarrow> string set \<Rightarrow> (string \<rightharpoonup> handled) \<Rightarrow> waitForControlledPods \<Rightarrow> bool" where
  "all_settled lib acts K st w \<longleftrightarrow> (\<forall>k \<in> K. ready lib acts st w k)
     \<and> (\<forall>k p. map_of (w_checkerMap w) k = Some p \<and> k \<notin> K \<longrightarrow> gone lib acts w p)"

lemma settled_statuses:
  assumes tracks: "tracks lib acts st w"
  shows "(\<forall>c \<in> set (live_checkers w). oc_status c \<in> {st_running, st_deleted}) \<longleftrightarrow> no_trouble lib acts st w"
proof
  have d: "distinct (map fst (w_checkerMap w))" using tracks by (simp add: tracks_def checkers_ok_def)
  {
    assume status: "\<forall>c \<in> set (live_checkers w). oc_status c \<in> {st_running, st_deleted}"
    show "no_trouble lib acts st w"
      unfolding no_trouble_def
    proof (intro allI impI)
      fix k p assume kp: "map_of (w_checkerMap w) k = Some p"
      then have "w_checkers w ! p \<in> set (live_checkers w)" using map_of_SomeD [OF kp] by (force simp: live_checkers_def)
      then show "ready lib acts st w k \<or> gone lib acts w p" using status running_ready [OF tracks kp] by blast
    qed
  }
  {
    assume ok: "no_trouble lib acts st w"
    show "\<forall>c \<in> set (live_checkers w). oc_status c \<in> {st_running, st_deleted}"
    proof
      fix c assume "c \<in> set (live_checkers w)"
      then obtain k p where "(k, p) \<in> set (w_checkerMap w)" "c = w_checkers w ! p" by (auto simp: live_checkers_def)
      moreover from this have kp: "map_of (w_checkerMap w) k = Some p" using d by simp
      ultimately show "oc_status c \<in> {st_running, st_deleted}"
        using ok [unfolded no_trouble_def, rule_format, OF kp] by (auto simp: ready_def gone_def)
    qed
  }
qed

lemma gather_result_nil:
  assumes tracks: "tracks lib acts st w" and loop: "gather_loop env w (live_checkers w) tally_start f = Some (f', r)"
  shows "(\<exists>t. r = Inr t \<and> snd (gather_result w K t) = None) \<longleftrightarrow> no_trouble lib acts st w \<and> card K = card {k. ready lib acts st w k}"
proof
  assume "\<exists>t. r = Inr t \<and> snd (gather_result w K t) = None"
  then obtain t where t: "r = Inr t" "snd (gather_result w K t) = None" by blast
  note c = gather_loop_counts [OF loop [unfolded t(1)]]
  have "ta_timeout t = 0" "card K = ta_running t" "ta_failed t = 0"
    using t(2) by (auto simp: gather_result_def split: if_splits)
  then have "\<forall>c \<in> set (live_checkers w). oc_status c \<in> {st_running, st_deleted}" and "card K = card {k. ready lib acts st w k}"
    using c running_keys(1) [OF tracks] by (auto simp: tally_start_def filter_empty_conv intro: objectStatus.exhaust)
  then show "no_trouble lib acts st w \<and> card K = card {k. ready lib acts st w k}" using settled_statuses [OF tracks] by blast
next
  assume settled: "no_trouble lib acts st w \<and> card K = card {k. ready lib acts st w k}"
  then have "r = Inr (tally_start\<lparr>ta_running := ta_running tally_start + card {k. ready lib acts st w k}\<rparr>)"
    using loop gather_loop_settled [of "live_checkers w" env w tally_start f] running_keys(1) [OF tracks] settled_statuses [OF tracks] by auto
  then show "\<exists>t. r = Inr t \<and> snd (gather_result w K t) = None"
    using settled by (simp add: gather_result_def tally_start_def)
qed

lemma all_settled_iff:
  assumes "tracks lib acts st w" and "dom st = K"
  shows "no_trouble lib acts st w \<and> card K = card {k. ready lib acts st w k} \<longleftrightarrow> all_settled lib acts K st w"
proof -
  have fin: "finite K" and sub: "{k. ready lib acts st w k} \<subseteq> K"
    using assms running_keys(2) [OF assms(1)] by (auto simp: tracks_def)
  then have "card K = card {k. ready lib acts st w k} \<longleftrightarrow> {k. ready lib acts st w k} = K" using card_subset_eq [OF fin sub] by auto
  then show ?thesis using sub unfolding no_trouble_def all_settled_def by auto
qed

lemma saw_pods_counts:
  assumes "saw_pods lib acts margin p t" and "ct_replicas t = ConstReplicas n"
  shows "\<exists>cr d pods. Check p cr \<in> acts \<and> Tick d (Inr pods) \<in> set (cr_events cr)
    \<and> (pods_settled (check_options margin t) n pods \<or> pods_within_margin (check_options margin t) n pods)"
proof -
  obtain cr where cr: "Check p cr \<in> acts"
      and w: "WaitForPods (ct_store t) (check_options margin t) (cr_listed cr) (map (counted (ConstReplicas n)) (cr_events cr)) = Some (None, None)"
    using assms by (auto simp: saw_pods_def)
  then obtain old where "wait_loop (ct_store t) (check_options margin t) old zero_status (map (counted (ConstReplicas n)) (cr_events cr)) = Some (None, None)"
    by (auto simp: WaitForPods_def split: sum.splits)
  from wait_loop_success [OF this] obtain pre desired pods post where
      e: "map (counted (ConstReplicas n)) (cr_events cr) = pre @ Tick desired (Inr pods) # post"
        "pods_settled (check_options margin t) desired pods \<or> pods_within_margin (check_options margin t) desired pods" by blast
  have "Tick desired (Inr pods) \<in> counted (ConstReplicas n) ` set (cr_events cr)" using arg_cong [OF e(1), of set] by simp
  then obtain ev where ev: "Tick desired (Inr pods) = counted (ConstReplicas n) ev" "ev \<in> set (cr_events cr)" by auto
  obtain d where "ev = Tick d (Inr pods)" "desired = n" using ev(1) by (cases ev) simp_all
  then show ?thesis using cr e(2) ev(2) by blast
qed

lemma ready_counts:
  assumes "ready lib acts st w k"
  shows "\<exists>p. map_of (w_checkerMap w) k = Some p \<and> (\<forall>n. ct_replicas (oc_task (w_checkers w ! p)) = ConstReplicas n \<longrightarrow>
    (\<exists>cr d pods. Check p cr \<in> acts \<and> Tick d (Inr pods) \<in> set (cr_events cr)
      \<and> (pods_settled (check_options (w_countErrorMargin w) (oc_task (w_checkers w ! p))) n pods
         \<or> pods_within_margin (check_options (w_countErrorMargin w) (oc_task (w_checkers w ! p))) n pods)))"
proof -
  obtain p where p: "map_of (w_checkerMap w) k = Some p" "saw_pods lib acts (w_countErrorMargin w) p (oc_task (w_checkers w ! p))"
    using assms by (auto simp: ready_def)
  then show ?thesis using saw_pods_counts [OF p(2)] by blast
qed

text \<open>The measurement right after it was created and started.\<close>

definition just_started :: "waitForControlledPods \<Rightarrow> bool" where
  "just_started w \<longleftrightarrow> w_isRunning w \<and> w_watching w \<and> w_queueOpen w \<and> w_queue w = [] \<and> w_objectKeys w = {} \<and> w_checkerMap w = [] \<and> w_checkers w = []"

lemma started_watches: "just_started w \<Longrightarrow> watches lib acts ([], Map.empty) w"
  by (simp add: just_started_def watches_def tracks_def checkers_ok_def)

text \<open>After any steps from the start the measurement tracks the objects handled in these steps.\<close>

lemma started_tracks:
  assumes "deep_equal_doc lib" and "just_started w0" and "delivers lib Map.empty (notices_of (as @ bs)) st"
    and "set as \<subseteq> acts" and "cp_steps lib as w0 = Some w"
  shows "tracks lib acts (handled_objects lib as) w"
proof -
  obtain st0 where "delivers lib Map.empty (notices_of as) st0" using assms(3) by (auto simp: informed_append)
  from cp_steps_watches [OF assms(1) started_watches [OF assms(2)] informed_nil this assms(4,5)]
  show ?thesis by (simp add: watches_def handled_objects_def)
qed

text \<open>
  C4. Under every interleaving of the informer, the worker and the goroutines of the checkers, before
  \<open>gather\<close> is called, while it polls, while it waits for the checkers and before it takes the lock to
  read them, consider a gather that gets past its polling. The objects that the worker had handled at
  that point are those that were listed. The gather returns nil exactly when no checker is in
  trouble and as many objects are ready as were listed: an object is ready when its checker is for the
  spec of it that the worker has handled last and the goroutine of that checker returned from
  \<open>WaitForPods\<close> with nil, and a checker is not in trouble when its object is ready, or is deleted and
  its pods were seen gone. Every ready object is one that the worker has handled. So if no object came
  or went after the listing, nil means that exactly the listed objects are ready and every other
  checker saw the pods of its object gone. For a ready object with a constant number of replicas,
  some listing of its pods held that number of pods, all running and updated, or pods within the
  error margin. What the worker has handled is computed from the notices delivered and the steps of
  the worker; a goroutine of a checker is one step, at its end.
\<close>

theorem gather_nil_iff_settled:
  assumes "deep_equal_doc (cp_rt env)" and "just_started w0"
    and "delivers (cp_rt env) Map.empty (notices_of (acts @ polled @ awaited @ raced)) st"
    and "cp_steps (cp_rt env) acts w0 = Some w" and "getObjectKeysAndMaxVersion env w f = Some (f1, Inr (K, v))"
    and "cp_steps (cp_rt env) polled w = Some w1" and "synced K v w1"
    and "gather env polled awaited raced w f = Some (w2, f2, fps, err)"
    and "trace = acts @ polled @ awaited @ raced" and "handled = handled_objects (cp_rt env) trace"
  shows "dom (handled_objects (cp_rt env) (acts @ polled)) = K
    \<and> (err = None \<longleftrightarrow> no_trouble (cp_rt env) (set trace) handled w2 \<and> card K = card {k. ready (cp_rt env) (set trace) handled w2 k})
    \<and> {k. ready (cp_rt env) (set trace) handled w2 k} \<subseteq> dom handled
    \<and> (dom handled = K \<longrightarrow> (err = None \<longleftrightarrow> all_settled (cp_rt env) (set trace) K handled w2))
    \<and> (\<forall>k. ready (cp_rt env) (set trace) handled w2 k \<longrightarrow>
        (\<exists>p. map_of (w_checkerMap w2) k = Some p \<and> (\<forall>n. ct_replicas (oc_task (w_checkers w2 ! p)) = ConstReplicas n \<longrightarrow>
          (\<exists>cr d pods. Check p cr \<in> set trace \<and> Tick d (Inr pods) \<in> set (cr_events cr)
            \<and> (pods_settled (check_options (w_countErrorMargin w2) (oc_task (w_checkers w2 ! p))) n pods
               \<or> pods_within_margin (check_options (w_countErrorMargin w2) (oc_task (w_checkers w2 ! p))) n pods)))))"
proof -
  let ?lib = "cp_rt env" and ?acts = "set trace"
  have steps: "cp_steps ?lib (acts @ polled) w0 = Some w1" using assms(4,6) by (simp add: cp_steps_append)
  have "tracks ?lib ?acts (handled_objects ?lib acts) w" "tracks ?lib ?acts (handled_objects ?lib (acts @ polled)) w1"
    using started_tracks [OF assms(1,2) _ _ assms(4), of "polled @ awaited @ raced" st ?acts]
      started_tracks [OF assms(1,2) _ _ steps, of "awaited @ raced" st ?acts] assms(3,9) by auto
  then have run: "w_isRunning w" and K: "dom (handled_objects ?lib (acts @ polled)) = K"
    using assms(7) by (auto simp: tracks_def synced_def)
  obtain w1' where w1': "cp_steps ?lib awaited w1 = Some w1'" "\<forall>c \<in> set (w_checkers w1'). oc_done c"
    using assms(5-8) run by (auto simp: gather_def bind_eq_Some_conv split: if_splits)
  obtain w2' where w2': "cp_steps ?lib raced w1' = Some w2'"
    using assms(5-8) run w1' by (auto simp: gather_def bind_eq_Some_conv split: if_splits)
  obtain f3 r where loop: "gather_loop env w2' (live_checkers w2') tally_start f1 = Some (f3, r)" and "w2 = w2'"
      and err: "err = (case r of Inl e \<Rightarrow> Some e | Inr t \<Rightarrow> snd (gather_result w2' K t))"
    using assms(5-8) run w1' w2'
    by (cases "gather_loop env w2' (live_checkers w2') tally_start f1") (auto simp: gather_def split: sum.splits)
  have "cp_steps ?lib trace w0 = Some w2" using steps w1'(1) w2' \<open>w2 = w2'\<close> assms(4,6,9) by (simp add: cp_steps_append)
  then have tracks: "tracks ?lib ?acts handled w2"
    using started_tracks [OF assms(1,2), of trace "[]" st ?acts w2] assms(3,9,10) by simp
  have nil: "err = None \<longleftrightarrow> (\<exists>t. r = Inr t \<and> snd (gather_result w2 K t) = None)" using err \<open>w2 = w2'\<close> by (cases r) auto
  have iff: "err = None \<longleftrightarrow> no_trouble ?lib ?acts handled w2 \<and> card K = card {k. ready ?lib ?acts handled w2 k}"
    unfolding nil by (rule gather_result_nil [OF tracks]) (use loop \<open>w2 = w2'\<close> in simp)
  show ?thesis
    using K iff running_keys(2) [OF tracks] all_settled_iff [OF tracks] ready_counts [of ?lib ?acts handled w2] by blast
qed

subsection \<open>A checker that cannot list its pods\<close>

lemma gather_loop_panics:
  assumes "c \<in> set cs" and "oc_status c \<in> {st_failed, st_timeout, st_deleteTimeout}" and "oc_failedPods c = None"
    and "\<forall>d \<in> set cs. oc_status d \<noteq> st_unknown"
  shows "gather_loop env w cs t f = None"
  using assms
proof (induction cs arbitrary: t f)
  case (Cons d ds)
  show ?case
  proof (cases "c = d")
    case True
    then show ?thesis using Cons.prems(2,3) by (auto simp: getStatus_def toFailedPods_def Let_def split_beta bind_eq_None_conv)
  next
    case False
    then have "gather_loop env w ds t' f' = None" for t' f' using Cons by simp
    then show ?thesis using Cons.prems(4) by (cases "oc_status d") (auto simp: getStatus_def Let_def split_beta bind_eq_None_conv)
  qed
qed simp

text \<open>
  C16. When a checker fails to list the pods of its object, \<open>WaitForPods\<close> returns a nil status with its error,
  and \<open>gather\<close> dereferences it: it panics instead of reporting the error, unless it meets a checker of unknown status first.
\<close>

theorem failed_listing_panics_gather:
  assumes "\<not> oc_done c" and "snd (watcher_Start lib (cr_sync cr) (cr_served cr) (ct_replicas (oc_task c))) = None" and "cr_listed cr = Inl e"
    and "checker_run lib (w_countErrorMargin w) cr c \<in> set (live_checkers w)" and "\<forall>d \<in> set (live_checkers w). oc_status d \<noteq> st_unknown"
  shows "oc_err (checker_run lib (w_countErrorMargin w) cr c) = Some (ErrText (oc_key c @ '': failed to list pods: '' @ Error e))
    \<and> gather_loop env w (live_checkers w) t f = None"
proof -
  let ?c = "checker_run lib (w_countErrorMargin w) cr c"
  obtain rw where start: "watcher_Start lib (cr_sync cr) (cr_served cr) (ct_replicas (oc_task c)) = (rw, None)"
    using assms(2) by (cases "watcher_Start lib (cr_sync cr) (cr_served cr) (ct_replicas (oc_task c))") simp
  have c: "oc_failedPods ?c = None" "oc_status ?c \<in> {st_failed, st_timeout, st_deleteTimeout}"
      "oc_err ?c = Some (ErrText (oc_key c @ '': failed to list pods: '' @ Error e))"
    using assms(1,3) start by (simp_all add: checker_run_def Let_def WaitForPods_def list_error_def)
  show ?thesis using gather_loop_panics [OF assms(4) c(2,1) assms(5)] c(3) by simp
qed

subsection \<open>Starting again after a stop\<close>

lemma closed_queue_deaf:
  assumes "cp_steps lib acts w = Some w'" and "\<not> w_queueOpen w" and "w_queue w = []"
  shows "w_objectKeys w' = w_objectKeys w \<and> \<not> w_queueOpen w' \<and> w_queue w' = [] \<and> w_isRunning w' = w_isRunning w"
  using assms
proof (induction acts arbitrary: w)
  case (Cons a acts)
  then obtain w1 where w1: "cp_step lib a w = Some w1" "cp_steps lib acts w1 = Some w'" by (auto split: option.splits)
  have "w_objectKeys w1 = w_objectKeys w \<and> \<not> w_queueOpen w1 \<and> w_queue w1 = [] \<and> w_isRunning w1 = w_isRunning w"
    using w1(1) Cons.prems(2,3) by (cases a) (auto simp: addEventHandler_pair queue_Add_def split: if_splits)
  then show ?case using Cons.IH [OF w1(2)] by auto
qed simp

lemma drained_queue:
  "cp_steps lib (replicate (length q) Work) w = Some w' \<Longrightarrow> w_queue w = q \<Longrightarrow> w_queue w' = [] \<and> w_queueOpen w' = w_queueOpen w \<and> w_isRunning w' = w_isRunning w"
proof (induction q arbitrary: w)
  case (Cons e q)
  obtain old new where e: "e = (old, new)" by fastforce
  then obtain w1 where w1: "handleObject lib old new (w\<lparr>w_queue := q\<rparr>) = Some w1" "cp_steps lib (replicate (length q) Work) w1 = Some w'"
    using Cons.prems by (auto split: option.splits)
  have "frame w1 = frame (w\<lparr>w_queue := q\<rparr>)" by (rule handleObject_frame [OF w1(1)])
  then show ?case using Cons.IH [OF w1(2)] by (simp add: frame_def)
qed simp

text \<open>
  C17. A measurement that was stopped does not work again after a second start: the start reports success, but the
  queue stays shut, no notice is handled any more, and \<open>gather\<close> times out whenever the listed objects are not those that were known at the stop.
\<close>

theorem restart_after_stop_is_deaf:
  assumes "w_isRunning w" and "Dispose (cp_rt env) w = Some w1" and "cp_start env (w1, pf, f) = Some ((w2, pf', f'), None)"
    and "cp_steps (cp_rt env) acts w2 = Some w3" and "getObjectKeysAndMaxVersion env w3 f3 = Some (f4, Inr (K, v))" and "K \<noteq> w_objectKeys w1"
    and "cp_steps (cp_rt env) polled w3 = Some w4"
  shows "gather env polled awaited raced w3 f3 =
    Some (w4, f4, [], Some (ErrText (''timed out while waiting for controlled pods: '' @ Error ErrWaitTimeout)))"
proof -
  obtain w0 where w0: "queue_Stop (cp_rt env) (w\<lparr>w_isRunning := False, w_watching := False\<rparr>) = Some w0" "w1 = on_checkers Map_Dispose w0"
    using assms(1,2) by (auto simp: Dispose_def split: option.splits)
  have "w_queue w0 = [] \<and> \<not> w_queueOpen w0 \<and> \<not> w_isRunning w0" using w0(1) drained_queue [of "cp_rt env" "w_queue w"] by (auto simp: queue_Stop_def)
  then have "w_queue w1 = [] \<and> \<not> w_queueOpen w1 \<and> \<not> w_isRunning w1" by (simp add: w0(2) on_checkers_def Map_Dispose_def)
  then have 2: "w_queue w2 = []" "\<not> w_queueOpen w2" "w_objectKeys w2 = w_objectKeys w1" "w_isRunning w2"
    using assms(3) by (auto simp: cp_start_def Let_def bind_eq_Some_conv split_beta split: sum.splits option.splits)
  note 3 = closed_queue_deaf [OF assms(4) 2(2,1)]
  then have "w_objectKeys w4 = w_objectKeys w1" using closed_queue_deaf [OF assms(7)] 2(3) by simp
  then have "\<not> synced K v w4" using assms(6) by (auto simp: synced_def)
  then show ?thesis using assms(5,7) 2(4) 3 by (simp add: gather_def)
qed

subsection \<open>A concrete run\<close>

text \<open>A deployment with one replica, a server that lists it and a checker that sees its pod running.\<close>

definition sample_deployment :: runtime_object where
  "sample_deployment = RUnstructured \<lparr>un_GroupVersionKind = \<lparr>gvk_Group = ''apps'', gvk_Version = ''v1'', gvk_Kind = ''Deployment''\<rparr>,
     un_Object = [(''name'', VString ''d''), (''version'', VString []), (''spec'', VMap [(''replicas'', VInt64 1), (''template'', VMap [])])]\<rparr>"

definition sample_lister :: "unit dynamic_client" where
  "sample_lister = \<lparr>dyn_Create = (\<lambda>_ _ _ s. (s, None)), dyn_List = (\<lambda>_ _ _ s. (s, Inr (case sample_deployment of RUnstructured u \<Rightarrow> [u] | _ \<Rightarrow> []))),
     dyn_Get = (\<lambda>_ _ _ s. (s, Inl (ErrText ''not found''))), dyn_Patch = (\<lambda>_ _ _ _ s. (s, None)), dyn_Delete = (\<lambda>_ _ _ s. (s, None))\<rparr>"

definition idle_client :: "unit clientset" where
  "idle_client = \<lparr>pods_List = (\<lambda>_ _ s. (s, Inr [])), nodes_List = (\<lambda>_ s. (s, Inr [])), namespaces_List = (\<lambda>s. (s, Inr [])),
     namespaces_Create = (\<lambda>_ s. (s, None)), namespaces_Delete = (\<lambda>_ s. (s, None)), namespaces_Get = (\<lambda>_ s. (s, None)),
     events_List = (\<lambda>_ _ s. (s, Inr [])), storageclasses_Delete = (\<lambda>_ s. (s, None))\<rparr>"

definition sample_clients :: "unit fw" where
  "sample_clients = (\<lparr>automanagedNamespacePrefix = [], automanagedNamespaces = [], clientSets = \<lparr>mc_clients = [idle_client], mc_current = 0\<rparr>,
     dynamicClients = \<lparr>mc_clients = [sample_lister], mc_current = 0\<rparr>\<rparr>, ())"

definition sample_cp_env :: "unit cp_env" where
  "sample_cp_env = \<lparr>cp_rt = sample_rt_lib, cp_lib = sample_lib, cp_ParseDuration = (\<lambda>_. Inl (ErrText [])), cp_ParseGroupVersion = (\<lambda>_. Inr (''apps'', ''v1'')),
     cp_NewIndexer = None, cp_IndexerSync = True, cp_InformerSync = (\<lambda>_. True), cp_DeleteCollection = (\<lambda>_ _ _ _ s. (s, None)),
     cp_PrettyPrintJSON = (\<lambda>_. Inr []), cp_Now = 0\<rparr>"

definition sample_measurement :: waitForControlledPods where
  "sample_measurement = createWaitForControlledPodsRunningMeasurement\<lparr>w_isRunning := True, w_watching := True, w_kind := ''Deployment''\<rparr>"

definition sample_check :: "Pod list result \<Rightarrow> check_run" where
  "sample_check listed = \<lparr>cr_sync = (\<lambda>_. True), cr_served = (\<lambda>_. []), cr_listed = listed, cr_events = [Tick 0 (Inr [ready_pod])], cr_since = 3, cr_expired = False\<rparr>"

definition sample_run :: "cp_action list" where
  "sample_run = [Notify (OnAdd (HObject sample_deployment)), Work, Check 0 (sample_check (Inr []))]"

lemma sample_rt_doc: "deep_equal_doc sample_rt_lib"
  by (simp add: deep_equal_doc_def sample_rt_lib_def)

lemma sample_delivers: "delivers sample_rt_lib Map.empty [OnAdd (HObject sample_deployment)] [''ns/d'' \<mapsto> HObject sample_deployment]"
proof -
  have "hkey sample_rt_lib (HObject sample_deployment) = ''ns/d''" by code_simp
  moreover have "GetResourceVersionFromRuntimeObject sample_rt_lib sample_deployment = Inr 0"
    "GetSpecFromRuntimeObject sample_rt_lib (Some sample_deployment) = Inr (MapSpec [(''replicas'', VInt64 1), (''template'', VMap [])])"
    "rl_KeyFunc sample_rt_lib sample_deployment = Inr ''ns/d''" by code_simp+
  ultimately show ?thesis by (simp add: informed_simps watchable_def)
qed

theorem gather_nil_iff_settled_witness:
  "\<exists>w w2 f2 fps. cp_steps sample_rt_lib sample_run sample_measurement = Some w
    \<and> gather sample_cp_env [] [] [] w sample_clients = Some (w2, f2, fps, None)
    \<and> handled_objects sample_rt_lib sample_run = [''ns/d'' \<mapsto> HObject sample_deployment]
    \<and> all_settled sample_rt_lib (set sample_run) {''ns/d''} (handled_objects sample_rt_lib sample_run) w2"
proof -
  have env: "cp_rt sample_cp_env = sample_rt_lib" by (simp add: sample_cp_env_def)
  have "\<not> Option.is_none (cp_steps sample_rt_lib sample_run sample_measurement)" by code_simp
  then obtain w where w: "cp_steps sample_rt_lib sample_run sample_measurement = Some w" by (auto simp: Option.is_none_def)
  have "map_option (\<lambda>(f1, r). r) (Option.bind (cp_steps sample_rt_lib sample_run sample_measurement) (\<lambda>w. getObjectKeysAndMaxVersion sample_cp_env w sample_clients))
      = Some (Inr ({''ns/d''}, 0))" by code_simp
  then obtain f1 where keys: "getObjectKeysAndMaxVersion sample_cp_env w sample_clients = Some (f1, Inr ({''ns/d''}, 0))" using w by auto
  have "map_option (synced {''ns/d''} 0) (cp_steps sample_rt_lib sample_run sample_measurement) = Some True" by code_simp
  then have sync: "synced {''ns/d''} 0 w" using w by simp
  have "map_option (\<lambda>(w2, f2, fps, err). err) (Option.bind (cp_steps sample_rt_lib sample_run sample_measurement) (\<lambda>w. gather sample_cp_env [] [] [] w sample_clients))
      = Some None" by code_simp
  then obtain w2 f2 fps where g: "gather sample_cp_env [] [] [] w sample_clients = Some (w2, f2, fps, None)" using w by auto
  have started: "just_started sample_measurement"
    by (simp add: just_started_def sample_measurement_def createWaitForControlledPodsRunningMeasurement_def)
  have notices: "delivers sample_rt_lib Map.empty (notices_of (sample_run @ [] @ [] @ [])) [''ns/d'' \<mapsto> HObject sample_deployment]"
    using sample_delivers by (simp add: sample_run_def)
  have "hkey sample_rt_lib (HObject sample_deployment) = ''ns/d''" by code_simp
  then have handled: "handled_objects sample_rt_lib sample_run = [''ns/d'' \<mapsto> HObject sample_deployment]"
    by (simp add: handled_objects_def sample_run_def)
  have "cp_steps sample_rt_lib [] w = Some w" by simp
  note settled = gather_nil_iff_settled [of sample_cp_env sample_measurement sample_run "[]" "[]" "[]", unfolded env,
      OF sample_rt_doc started notices w keys this sync g, of sample_run, unfolded handled, simplified]
  then have "all_settled sample_rt_lib (set sample_run) {''ns/d''} (handled_objects sample_rt_lib sample_run) w2"
    unfolding handled by blast
  then show ?thesis using w g handled by blast
qed

definition sample_checker :: objectChecker where
  "sample_checker = newObjectChecker ''ns/d'' \<lparr>ct_obj = sample_deployment, ct_replicas = ConstReplicas 1, ct_store = [], ct_isPodUpdated = None, ct_isDeleted = False\<rparr>"

theorem failed_listing_panics_gather_witness:
  "gather_loop sample_cp_env
     (sample_measurement\<lparr>w_checkerMap := [(''ns/d'', 0)], w_checkers := [checker_run sample_rt_lib 0 (sample_check (Inl (ErrText ''gone''))) sample_checker]\<rparr>)
     [checker_run sample_rt_lib 0 (sample_check (Inl (ErrText ''gone''))) sample_checker] tally_start sample_clients = None"
proof -
  let ?cr = "sample_check (Inl (ErrText ''gone''))"
  let ?c = "checker_run sample_rt_lib 0 ?cr sample_checker"
  let ?w = "sample_measurement\<lparr>w_checkerMap := [(''ns/d'', 0)], w_checkers := [?c]\<rparr>"
  have margin: "w_countErrorMargin ?w = 0" by (simp add: sample_measurement_def createWaitForControlledPodsRunningMeasurement_def)
  have live: "live_checkers ?w = [?c]" by (simp add: live_checkers_def)
  have c: "\<not> oc_done sample_checker" "snd (watcher_Start sample_rt_lib (cr_sync ?cr) (cr_served ?cr) (ct_replicas (oc_task sample_checker))) = None"
      "cr_listed ?cr = Inl (ErrText ''gone'')"
    by (simp_all add: sample_checker_def newObjectChecker_def sample_check_def)
  have "oc_status ?c \<noteq> st_unknown"
    by (simp add: checker_run_def sample_checker_def newObjectChecker_def sample_check_def WaitForPods_def)
  then show ?thesis
    using failed_listing_panics_gather [OF c, of ?w sample_cp_env tally_start sample_clients] by (simp add: live margin)
qed

theorem restart_after_stop_is_deaf_witness:
  "\<exists>w1 w2 pf f w3 w4 f4. Dispose sample_rt_lib sample_measurement = Some w1
    \<and> cp_start sample_cp_env (w1, None, sample_clients) = Some ((w2, pf, f), None)
    \<and> cp_steps sample_rt_lib sample_run w2 = Some w3
    \<and> gather sample_cp_env [Work] [] [] w3 sample_clients =
        Some (w4, f4, [], Some (ErrText (''timed out while waiting for controlled pods: '' @ Error ErrWaitTimeout)))"
proof -
  have env: "cp_rt sample_cp_env = sample_rt_lib" by (simp add: sample_cp_env_def)
  have run: "w_isRunning sample_measurement" by (simp add: sample_measurement_def)
  let ?stopped = "Dispose sample_rt_lib sample_measurement"
  let ?again = "Option.bind ?stopped (\<lambda>w1. cp_start sample_cp_env (w1, None, sample_clients))"
  let ?heard = "Option.bind ?again (\<lambda>((w2, pf, f), err). cp_steps sample_rt_lib sample_run w2)"
  have "map_option w_objectKeys ?stopped = Some {}" by code_simp
  then obtain w1 where w1: "?stopped = Some w1" "w_objectKeys w1 = {}" by auto
  have "map_option snd ?again = Some None" by code_simp
  then obtain w2 pf f where w2: "cp_start sample_cp_env (w1, None, sample_clients) = Some ((w2, pf, f), None)" using w1 by auto
  have "\<not> Option.is_none ?heard" by code_simp
  then obtain w3 where w3: "cp_steps sample_rt_lib sample_run w2 = Some w3" using w1 w2 by (auto simp: Option.is_none_def)
  have "map_option (\<lambda>(f1, r). r) (Option.bind ?heard (\<lambda>w. getObjectKeysAndMaxVersion sample_cp_env w sample_clients)) = Some (Inr ({''ns/d''}, 0))" by code_simp
  then obtain f1 where keys: "getObjectKeysAndMaxVersion sample_cp_env w3 sample_clients = Some (f1, Inr ({''ns/d''}, 0))" using w1 w2 w3 by auto
  have "\<not> Option.is_none (Option.bind ?heard (cp_steps sample_rt_lib [Work]))" by code_simp
  then obtain w4 where w4: "cp_steps sample_rt_lib [Work] w3 = Some w4" using w1 w2 w3 by (auto simp: Option.is_none_def simp del: cp_steps.simps)
  have "{''ns/d''} \<noteq> w_objectKeys w1" by (simp add: w1(2))
  from restart_after_stop_is_deaf [of sample_measurement sample_cp_env, unfolded env, OF run w1(1) w2 w3 keys this w4]
  show ?thesis using w1 w2 w3 by blast
qed

end
