(* ===== verification/Prometheus_Measurement.thy ===== *)
theory Prometheus_Measurement
  imports Latency Measurements Pods
begin

text \<open>
  \<open>pkg/measurement/util/prometheus.go\<close> and \<open>pkg/measurement/common/prometheus_measurement.go\<close>: one
  query to the Prometheus server, and the measurement that every gatherer of Prometheus metrics is
  wrapped in.

  The HTTP client, \<open>encoding/json\<close> and \<open>wait.PollImmediate\<close> are parameters (\<open>prom_http\<close>). A
  panic is \<open>None\<close>. A slice of summaries is a list of options, where \<open>None\<close> is a nil interface. A
  query executor is a function of the query text and its time: a server evaluates a query at a past
  time, so the same query for the same time has the same answer. The panic of a response without
  data is a value of \<open>prom_Query\<close>; an executor stands for a server that answers with data. Two
  times are equal when they are the same instant.
\<close>

subsection \<open>\<open>util/prometheus.go\<close>\<close>

datatype prom_value = ScalarValue float64 | VectorValue "Sample list" | MatrixValue "(string, string) go_map list"

fun value_Type :: "prom_value \<Rightarrow> string" where
  "value_Type (ScalarValue _) = ''scalar''"
| "value_Type (VectorValue _) = ''vector''"
| "value_Type (MatrixValue _) = ''matrix''"

record promQueryResponse =
  pqr_Status :: string
  pqr_Data :: "prom_value option"
  pqr_ErrorType :: string
  pqr_Error :: string
  pqr_Warnings :: "string list"

record 's prom_http =
  h_Query :: "string \<Rightarrow> time \<Rightarrow> 's \<Rightarrow> 's \<times> string option \<times> go_error option"
  h_PollImmediate :: "duration \<Rightarrow> duration
     \<Rightarrow> ('s \<times> string option \<times> go_error option \<Rightarrow> ('s \<times> string option \<times> go_error option) \<times> bool \<times> go_error option)
     \<Rightarrow> 's \<times> string option \<times> go_error option \<Rightarrow> ('s \<times> string option \<times> go_error option) \<times> go_error option"
  j_typed :: "string \<Rightarrow> (string \<times> string) result"
  j_Scalar :: "string \<Rightarrow> float64 \<times> go_error option"
  j_Vector :: "string \<Rightarrow> Sample list \<times> go_error option"
  j_Matrix :: "string \<Rightarrow> (string, string) go_map list \<times> go_error option"
  j_response :: "(string \<Rightarrow> prom_value option \<times> go_error option) \<Rightarrow> string \<Rightarrow> promQueryResponse result"

text \<open>\<open>UnmarshalJSON\<close> gives the value it leaves in the structure, and its error.\<close>

definition UnmarshalJSON :: "'s prom_http \<Rightarrow> string \<Rightarrow> prom_value option \<times> go_error option" where
  "UnmarshalJSON h b = (case j_typed h b of
      Inl err \<Rightarrow> (None, Some err)
    | Inr (type, raw) \<Rightarrow>
        if type = ''scalar'' then (case j_Scalar h raw of (sv, err) \<Rightarrow> (Some (ScalarValue sv), err))
        else if type = ''vector'' then (case j_Vector h raw of (vv, err) \<Rightarrow> (Some (VectorValue vv), err))
        else if type = ''matrix'' then (case j_Matrix h raw of (mv, err) \<Rightarrow> (Some (MatrixValue mv), err))
        else (None, Some (ErrText (''unexpected value type '' @ [CHR 0x22] @ type @ [CHR 0x22]))))"

text \<open>A response without data makes the call of \<open>Type()\<close> on a nil interface, a panic.\<close>

definition ExtractMetricSamples2 :: "'s prom_http \<Rightarrow> string \<Rightarrow> Sample list result option" where
  "ExtractMetricSamples2 h response = (case j_response h (UnmarshalJSON h) response of
      Inl err \<Rightarrow> Some (Inl err)
    | Inr pqr \<Rightarrow>
        if pqr_Status pqr \<noteq> ''success''
        then Some (Inl (ErrText (''non-success response status: '' @ pqr_Status pqr)))
        else (case pqr_Data pqr of
            None \<Rightarrow> None
          | Some (VectorValue vector) \<Rightarrow> Some (Inr vector)
          | Some v \<Rightarrow> Some (Inl (ErrText (''incorrect response type: '' @ value_Type v)))))"

definition query_attempt :: "'s prom_http \<Rightarrow> string \<Rightarrow> time
    \<Rightarrow> 's \<times> string option \<times> go_error option \<Rightarrow> ('s \<times> string option \<times> go_error option) \<times> bool \<times> go_error option" where
  "query_attempt h query queryTime = (\<lambda>(s, _). case h_Query h query queryTime s of
      (s', body, queryErr) \<Rightarrow> ((s', body, queryErr), queryErr = None, None))"

text \<open>The zero \<open>time.Time\<close> is 0.\<close>

definition prom_Query :: "'s prom_http \<Rightarrow> string \<Rightarrow> time \<Rightarrow> 's \<Rightarrow> ('s \<times> Sample list result) option" where
  "prom_Query h query queryTime s =
     (if queryTime = 0 then Some (s, Inl (ErrText ''query time can't be zero''))
      else case h_PollImmediate h (30 * second) (15 * minute) (query_attempt h query queryTime) (s, None, None) of
          ((s', body, queryErr), Some err) \<Rightarrow> Some (s', Inl (case queryErr of
              Some e \<Rightarrow> ErrText (''query error: '' @ Error e @ '' [body: ''
                @ (case body of None \<Rightarrow> ''(empty)'' | Some b \<Rightarrow> b) @ '']'')
            | None \<Rightarrow> ErrText (''error: '' @ Error err)))
        | ((s', body, queryErr), None) \<Rightarrow> (case ExtractMetricSamples2 h (case body of None \<Rightarrow> [] | Some b \<Rightarrow> b) of
              None \<Rightarrow> None
            | Some (Inl err) \<Rightarrow> Some (s', Inl (ErrText (''extracting error: '' @ Error err)))
            | Some (Inr samples) \<Rightarrow> Some (s', Inr (filter (\<lambda>sample. sm_Value sample \<noteq> NaN) samples))))"

definition ToPrometheusTime :: "duration \<Rightarrow> string" where
  "ToPrometheusTime t = itoa (go_div t second) @ ''s''"

subsection \<open>\<open>prometheus_measurement.go\<close>\<close>

text \<open>What a gatherer reads of \<open>measurement.Config\<close>.\<close>

record prom_config =
  c_Identifier :: string
  c_Params :: params
  c_ClusterVersion :: "string \<times> string"
  c_hasPrometheusFramework :: bool
  c_ProviderName :: string
  c_SupportMetricsServerMetrics :: bool
  c_ScrapeKubeProxy :: bool

type_synonym executor = "string \<Rightarrow> time \<Rightarrow> Sample list result"

text \<open>
  The structures the gatherers decode from the parameters and the documents they print:
  \<open>api_responsiveness_prometheus.go\<close>, \<open>container_restarts.go\<close>, \<open>generic_query_measurement.go\<close>.
\<close>

record customThresholdEntry =
  ct_Resource :: string
  ct_Subresource :: string
  ct_Verb :: string
  ct_Scope :: string
  ct_Threshold :: duration

record ContainerInfo =
  ci_Container :: string
  ci_Pod :: string
  ci_Namespace :: string

record ContainerRestartsInfo =
  cri_Info :: ContainerInfo
  cri_RestartCount :: int

record restartCountOverride =
  ro_Info :: ContainerInfo
  ro_AllowedRestarts :: int

record GenericQuery =
  gq_Name :: string
  gq_Query :: string
  gq_Threshold :: "float64 option"
  gq_LowerBound :: bool
  gq_RequireSamples :: bool

record StartParams =
  sp_MetricName :: string
  sp_MetricVersion :: string
  sp_Queries :: "GenericQuery list"
  sp_Unit :: string
  sp_Dimensions :: "string list"

datatype document =
    PerfDoc PerfData
  | ItemDoc DataItem
  | LatencyDoc LatencyMetric
  | RestartsDoc "ContainerRestartsInfo list"
  | ThroughputDoc float64
  | BucketsDoc "(string, (string, int) go_map) go_map"

text \<open>
  What the gatherers take from the libraries: the clock, \<open>strconv\<close> and \<open>time\<close> parsers, JSON and
  YAML (a decoder gets the current value of the structure and gives the value it leaves there), and
  \<open>regexp.Compile\<close>, whose failure is \<open>None\<close>.
\<close>

record prom_lib =
  l_now :: time
  l_ParseDuration :: "string \<Rightarrow> duration result"
  l_ParseFloat :: "string \<Rightarrow> float64 \<times> go_error option"
  l_PrettyPrintJSON :: "document \<Rightarrow> string result"
  l_thresholds :: "string \<Rightarrow> customThresholdEntry list result"
  l_overrides :: "string \<Rightarrow> restartCountOverride list result"
  l_Encode :: "params \<Rightarrow> string result"
  l_Decode :: "string \<Rightarrow> StartParams \<Rightarrow> StartParams \<times> go_error option"
  l_Compile :: "string \<Rightarrow> (string \<Rightarrow> bool) option"

text \<open>\<open>ToStruct\<close> of \<open>util.go\<close>.\<close>

definition ToStruct :: "prom_lib \<Rightarrow> params \<Rightarrow> StartParams \<Rightarrow> StartParams \<times> go_error option" where
  "ToStruct lib dict out = (case l_Encode lib dict of
      Inl err \<Rightarrow> (out, Some (ErrWrap (''error encoding data: '' @ Error err) [err]))
    | Inr output \<Rightarrow> (case l_Decode lib output out of
        (out', Some err) \<Rightarrow> (out', Some (ErrWrap (''error decoding data: '' @ Error err) [err]))
      | (out', None) \<Rightarrow> (out', None)))"

type_synonym gathered = "Summary option list \<times> go_error option"

record 'g gatherer =
  g_Configure :: "prom_lib \<Rightarrow> prom_config \<Rightarrow> 'g \<Rightarrow> 'g \<times> go_error option"
  g_Gather :: "prom_lib \<Rightarrow> executor \<Rightarrow> time \<Rightarrow> time \<Rightarrow> prom_config \<Rightarrow> 'g \<Rightarrow> gathered option"
  g_IsEnabled :: "prom_config \<Rightarrow> bool"
  g_String :: string

record 'g prometheusMeasurement =
  pm_gatherer :: 'g
  pm_startTime :: time

definition CreatePrometheusMeasurement :: "'g \<Rightarrow> 'g prometheusMeasurement" where
  "CreatePrometheusMeasurement g = \<lparr>pm_gatherer = g, pm_startTime = 0\<rparr>"

text \<open>
  The \<open>gather\<close> case of \<open>Execute\<close>, and \<open>Execute\<close>. \<open>managed\<close> is the executor over the provider's
  client, or the error of asking for it.
\<close>

definition execute_gather ::
    "'g gatherer \<Rightarrow> prom_lib \<Rightarrow> executor result \<Rightarrow> prom_config \<Rightarrow> 'g prometheusMeasurement \<Rightarrow> gathered option" where
  "execute_gather G lib client config m =
     (case GetBoolOrDefault (c_Params config) ''enableViolations'' False of
        Inl err \<Rightarrow> Some ([], Some err)
      | Inr enableViolations \<Rightarrow> (case client of
          Inl err \<Rightarrow> Some ([], Some (ErrWrap (''error while creating managed Prometheus client: '' @ Error err) [err]))
        | Inr executor \<Rightarrow>
           (case g_Gather G lib executor (pm_startTime m) (l_now lib) config (pm_gatherer m) of
              None \<Rightarrow> None
            | Some (summary, None) \<Rightarrow> Some (summary, None)
            | Some (summary, Some err) \<Rightarrow>
                Some (if \<not> IsMetricViolationError err then ([], Some err)
                      else (summary, if enableViolations then Some err else None)))))"

definition prometheusMeasurement_Execute ::
    "'g gatherer \<Rightarrow> prom_lib \<Rightarrow> executor \<Rightarrow> executor result \<Rightarrow> prom_config \<Rightarrow> 'g prometheusMeasurement
       \<Rightarrow> ('g prometheusMeasurement \<times> gathered) option" where
  "prometheusMeasurement_Execute G lib inCluster managed config m =
     (case GetStringOrDefault (c_Params config) ''prometheusClient'' ''inCluster'' of
        Inl err \<Rightarrow> Some (m, [], Some err)
      | Inr prometheusClient \<Rightarrow>
          if prometheusClient \<noteq> ''inCluster'' \<and> prometheusClient \<noteq> ''managed''
          then Some (m, [], Some (ErrText ''unknown Prometheus client''))
          else if prometheusClient = ''inCluster'' \<and> \<not> c_hasPrometheusFramework config then Some (m, [], None)
          else if \<not> g_IsEnabled G config then Some (m, [], None)
          else (case getString (c_Params config) ''action'' of
              Inl err \<Rightarrow> Some (m, [], Some err)
            | Inr action \<Rightarrow>
                if action = ''start'' then
                  (case g_Configure G lib config (pm_gatherer m) of
                     (g, Some err) \<Rightarrow> Some (m\<lparr>pm_gatherer := g\<rparr>, [], Some err)
                   | (g, None) \<Rightarrow> Some (m\<lparr>pm_gatherer := g, pm_startTime := l_now lib\<rparr>, [], None))
                else if action = ''gather''
                then map_option (Pair m) (execute_gather G lib (if prometheusClient = ''inCluster'' then Inr inCluster else managed) config m)
                else Some (m, [], Some (ErrText (''unknown action: '' @ action)))))"

subsection \<open>The contract of a gatherer\<close>

text \<open>
  The errors of the server, of the parsers and of the JSON printer are not metric violations: they
  are not of the type of \<open>pkg/errors\<close>. A gatherer that succeeds, or finds a violation, reports one
  summary; the measurement around it then hands the summary on and keeps the violation only when
  violations are enabled.
\<close>

definition violation :: "go_error option \<Rightarrow> bool" where
  "violation err \<longleftrightarrow> (\<exists>e. err = Some e \<and> IsMetricViolationError e)"

definition plain :: "'a result \<Rightarrow> bool" where
  "plain r \<longleftrightarrow> (case r of Inl e \<Rightarrow> \<not> IsMetricViolationError e | Inr _ \<Rightarrow> True)"

definition plain_lib :: "prom_lib \<Rightarrow> bool" where
  "plain_lib lib \<longleftrightarrow> (\<forall>s. plain (l_ParseDuration lib s)) \<and> (\<forall>s. \<not> violation (snd (l_ParseFloat lib s)))
     \<and> (\<forall>d. plain (l_PrettyPrintJSON lib d)) \<and> (\<forall>s. plain (l_thresholds lib s)) \<and> (\<forall>s. plain (l_overrides lib s))"

definition plain_executor :: "executor \<Rightarrow> bool" where
  "plain_executor ex \<longleftrightarrow> (\<forall>q t. plain (ex q t))"

lemma violation_simps [simp]: "\<not> violation None" "violation (Some e) = IsMetricViolationError e"
  by (simp_all add: violation_def)

lemma plain_simps [simp]: "plain (Inl e) = (\<not> IsMetricViolationError e)" "plain (Inr x)"
  by (simp_all add: plain_def)

lemma plain_executorD: "plain_executor ex \<Longrightarrow> ex q t = Inl e \<Longrightarrow> \<not> IsMetricViolationError e"
  by (metis plain_executor_def plain_simps(1))

lemma plain_query: "plain_executor ex \<Longrightarrow> plain (ex q t)"
  by (simp add: plain_executor_def)

lemma plain_libD:
  assumes "plain_lib lib"
  shows "l_ParseDuration lib s = Inl e \<Longrightarrow> \<not> IsMetricViolationError e"
    and "l_PrettyPrintJSON lib d = Inl e \<Longrightarrow> \<not> IsMetricViolationError e"
    and "l_thresholds lib s = Inl e \<Longrightarrow> \<not> IsMetricViolationError e" and "l_overrides lib s = Inl e \<Longrightarrow> \<not> IsMetricViolationError e"
    and "l_ParseFloat lib s = (f, Some e) \<Longrightarrow> \<not> IsMetricViolationError e"
  using assms unfolding plain_lib_def
  by (metis plain_simps(1), metis plain_simps(1), metis plain_simps(1), metis plain_simps(1), metis snd_conv violation_simps(2))

lemma plain_or_default: "plain r \<Longrightarrow> plain (or_default r d)"
  by (cases r) (auto simp: or_default_def plain_def split: sum.splits)

lemma plain_getters:
  "plain (getString ps k)" "plain (getInt ps k)" "plain (getBool ps k)"
  "plain (GetStringOrDefault ps k s)" "plain (GetIntOrDefault ps k i)" "plain (GetBoolOrDefault ps k b)"
proof -
  show "plain (getString ps k)" "plain (getInt ps k)" "plain (getBool ps k)"
    by (auto simp: getString_def getInt_def getBool_def type_assertion_error_def Let_def
        split: option.splits gval.splits prod.splits)
  then show "plain (GetStringOrDefault ps k s)" "plain (GetIntOrDefault ps k i)" "plain (GetBoolOrDefault ps k b)"
    by (simp_all add: GetStringOrDefault_def GetIntOrDefault_def GetBoolOrDefault_def plain_or_default)
qed

lemma plainD: "plain r \<Longrightarrow> r = Inl e \<Longrightarrow> \<not> IsMetricViolationError e"
  by simp

lemmas plain_getD = plain_getters [THEN plainD]

lemma plain_case:
  "plain r \<Longrightarrow> (\<And>x. r = Inr x \<Longrightarrow> plain (f x)) \<Longrightarrow> plain (case r of Inl e \<Rightarrow> Inl e | Inr x \<Rightarrow> f x)"
  by (cases r) simp_all

text \<open>The executor over the HTTP client meets the assumption.\<close>

lemma prom_Query_plain: "prom_Query h q t s = Some (s', r) \<Longrightarrow> plain r"
  by (auto simp: prom_Query_def split: if_splits prod.splits option.splits sum.splits)

text \<open>What \<open>Execute\<close> hands to the manager.\<close>

definition reported :: "prom_config \<Rightarrow> Summary option list \<Rightarrow> go_error option \<Rightarrow> bool" where
  "reported config ss err \<longleftrightarrow> (ss = [] \<or> (\<exists>s. ss = [Some s]))
     \<and> (violation err \<longrightarrow> ss \<noteq> [] \<and> GetBoolOrDefault (c_Params config) ''enableViolations'' False = Inr True)
     \<and> (\<not> violation err \<and> err \<noteq> None \<longrightarrow> ss = [])"

lemma reported_none: "reported config [] None"
  by (simp add: reported_def)

lemma reported_error: "\<not> IsMetricViolationError e \<Longrightarrow> reported config [] (Some e)"
  by (simp add: reported_def)

locale prometheus_gatherer =
  fixes G :: "'g gatherer"
  assumes configures: "plain_lib lib \<Longrightarrow> \<not> violation (snd (g_Configure G lib config g))"
    and reports: "plain_lib lib \<Longrightarrow> plain_executor ex \<Longrightarrow> g_Gather G lib ex st en config g = Some (ss, err)
      \<Longrightarrow> err = None \<or> violation err \<Longrightarrow> \<exists>s. ss = [Some s]"
begin

lemma gather_outcome:
  assumes "plain_lib lib" and "\<And>e. client = Inr e \<Longrightarrow> plain_executor e"
    and "execute_gather G lib client config m = Some (ss, err)"
  shows "reported config ss err"
proof (cases "GetBoolOrDefault (c_Params config) ''enableViolations'' False")
  case (Inl e)
  then show ?thesis
    using assms(3) plain_getters(6) [of "c_Params config" "''enableViolations''" False]
    by (auto simp: execute_gather_def reported_def)
next
  case violations: (Inr v)
  show ?thesis
  proof (cases client)
    case (Inl e)
    then show ?thesis using assms(3) violations by (auto simp: execute_gather_def reported_def)
  next
    case (Inr ex)
    obtain ss' err' where g: "g_Gather G lib ex (pm_startTime m) (l_now lib) config (pm_gatherer m) = Some (ss', err')"
      using assms(3) violations Inr by (auto simp: execute_gather_def split: option.splits)
    have one: "err' = None \<or> violation err' \<Longrightarrow> \<exists>s. ss' = [Some s]"
      using reports [OF assms(1) assms(2) [OF Inr] g] .
    show ?thesis
      using assms(3) violations Inr g one by (cases err') (auto simp: execute_gather_def reported_def split: if_splits)
  qed
qed

lemma Execute_outcome:
  assumes "plain_lib lib" and "plain_executor ex" and "\<And>e. managed = Inr e \<Longrightarrow> plain_executor e"
    and "prometheusMeasurement_Execute G lib ex managed config m = Some (m', ss, err)"
  shows "reported config ss err"
proof -
  have conf: "\<not> IsMetricViolationError e" if "g_Configure G lib config g = (g', Some e)" for g g' e
    using configures [OF assms(1), of config g] that by simp
  have g: "reported config ss err" if "execute_gather G lib (if c then Inr ex else managed) config x = Some (ss, err)" for c x
    using gather_outcome [OF assms(1) _ that] assms(2,3) by (metis Inr_inject)
  show ?thesis
    using assms(4) unfolding prometheusMeasurement_Execute_def
    by (auto intro!: reported_none reported_error split: sum.splits if_splits prod.splits option.splits
        dest: plain_getD conf g [of True, simplified] g [of False, simplified])
qed

end

end
