(* ===== verification/Api_Responsiveness.thy ===== *)
theory Api_Responsiveness
  imports Prometheus_Measurement
begin

text \<open>
  \<open>pkg/measurement/common/slos/api_responsiveness_prometheus.go\<close>: the latency of the API calls against
  the service level objective. The metrics are kept in a map by the key of the call; \<open>sort.Slice\<close>
  orders calls of equal latency in any way, for which the order of the map stands. The counts are
  64-bit integers.
\<close>

subsection \<open>The data\<close>

record apiCallMetric =
  ac_Resource :: string
  ac_Subresource :: string
  ac_Verb :: string
  ac_Scope :: string
  ac_Latency :: LatencyMetric
  ac_Count :: int
  ac_SlowCount :: int

type_synonym apiCallMetrics = "(string, apiCallMetric) go_map"

definition buildKey :: "string \<Rightarrow> string \<Rightarrow> string \<Rightarrow> string \<Rightarrow> string" where
  "buildKey resource subresource verb scope = resource @ ''|'' @ subresource @ ''|'' @ verb @ ''|'' @ scope"

definition apiCall_getKey :: "apiCallMetric \<Rightarrow> string" where
  "apiCall_getKey ap = buildKey (ac_Resource ap) (ac_Subresource ap) (ac_Verb ap) (ac_Scope ap)"

definition threshold_getKey :: "customThresholdEntry \<Rightarrow> string" where
  "threshold_getKey cte = buildKey (ct_Resource cte) (ct_Subresource cte) (ct_Verb cte) (ct_Scope cte)"

definition singleResourceThreshold :: duration where
  "singleResourceThreshold = 1 * second"

definition multipleResourcesThreshold :: duration where
  "multipleResourcesThreshold = 30 * second"

definition getSLOThreshold :: "apiCallMetric \<Rightarrow> duration" where
  "getSLOThreshold ap = (if ac_Scope ap = ''resource'' then singleResourceThreshold else multipleResourcesThreshold)"

definition fmt_apiCall :: "apiCallMetric \<Rightarrow> string" where
  "fmt_apiCall ap = ''&{Resource:'' @ ac_Resource ap @ '' Subresource:'' @ ac_Subresource ap @ '' Verb:'' @ ac_Verb ap
     @ '' Scope:'' @ ac_Scope ap @ '' Latency:'' @ LatencyMetric_String (ac_Latency ap) @ '' Count:'' @ itoa (ac_Count ap)
     @ '' SlowCount:'' @ itoa (ac_SlowCount ap) @ ''}''"

definition apiCall_Validate :: "int \<Rightarrow> duration \<Rightarrow> apiCallMetric \<Rightarrow> go_error option" where
  "apiCall_Validate allowedSlowCalls threshold ap =
     (if allowedSlowCalls > 0 \<and> ac_SlowCount ap \<le> allowedSlowCalls then None
      else if VerifyThreshold (ac_Latency ap) threshold \<noteq> None
      then Some (ErrText (''got: '' @ fmt_apiCall ap @ ''; expected perc99 <= '' @ fmt_duration threshold))
      else None)"

subsection \<open>The operations of \<open>apiCallMetrics\<close>\<close>

text \<open>\<open>getAPICall\<close> gives the map with the call in it; the setters then write through the pointer.\<close>

definition getAPICall :: "apiCallMetrics \<Rightarrow> string \<Rightarrow> string \<Rightarrow> string \<Rightarrow> string \<Rightarrow> apiCallMetrics \<times> apiCallMetric" where
  "getAPICall m resource subresource verb scope =
     (let key = buildKey resource subresource verb scope
      in case map_of m key of
           Some call \<Rightarrow> (m, call)
         | None \<Rightarrow> (let call = \<lparr>ac_Resource = resource, ac_Subresource = subresource, ac_Verb = verb, ac_Scope = scope,
              ac_Latency = \<lparr>Perc50 = 0, Perc90 = 0, Perc99 = 0\<rparr>, ac_Count = 0, ac_SlowCount = 0\<rparr>
             in (AList.update key call m, call)))"

definition SetLatency :: "string \<Rightarrow> string \<Rightarrow> string \<Rightarrow> string \<Rightarrow> float64 \<Rightarrow> duration \<Rightarrow> apiCallMetrics \<Rightarrow> apiCallMetrics" where
  "SetLatency resource subresource verb scope quantile latency m =
     (case getAPICall m resource subresource verb scope of (m', call) \<Rightarrow>
        AList.update (buildKey resource subresource verb scope)
          (call\<lparr>ac_Latency := SetQuantile (ac_Latency call) quantile latency\<rparr>) m')"

definition GetCount :: "string \<Rightarrow> string \<Rightarrow> string \<Rightarrow> string \<Rightarrow> apiCallMetrics \<Rightarrow> apiCallMetrics \<times> int" where
  "GetCount resource subresource verb scope m =
     (case getAPICall m resource subresource verb scope of (m', call) \<Rightarrow> (m', ac_Count call))"

definition SetCount :: "string \<Rightarrow> string \<Rightarrow> string \<Rightarrow> string \<Rightarrow> int \<Rightarrow> apiCallMetrics \<Rightarrow> apiCallMetrics" where
  "SetCount resource subresource verb scope n m =
     (if n = 0 then m
      else case getAPICall m resource subresource verb scope of (m', call) \<Rightarrow>
        AList.update (buildKey resource subresource verb scope) (call\<lparr>ac_Count := n\<rparr>) m')"

definition SetSlowCount :: "string \<Rightarrow> string \<Rightarrow> string \<Rightarrow> string \<Rightarrow> int \<Rightarrow> apiCallMetrics \<Rightarrow> apiCallMetrics" where
  "SetSlowCount resource subresource verb scope n m =
     (if n = 0 then m
      else case getAPICall m resource subresource verb scope of (m', call) \<Rightarrow>
        AList.update (buildKey resource subresource verb scope) (call\<lparr>ac_SlowCount := n\<rparr>) m')"

definition sorted_calls :: "apiCallMetrics \<Rightarrow> apiCallMetric list" where
  "sorted_calls m = sort_key (\<lambda>ap. - Perc99 (ac_Latency ap)) (map snd m)"

definition apiCallMetrics_ToPerfData :: "apiCallMetrics \<Rightarrow> PerfData" where
  "apiCallMetrics_ToPerfData m = \<lparr>pd_Version = ''v1'',
     pd_DataItems = map (\<lambda>apicall. \<lparr>
         di_Data = [(''Perc50'', f64_div (f64_of_int (Perc50 (ac_Latency apicall))) (Fin 1000000)),
                    (''Perc90'', f64_div (f64_of_int (Perc90 (ac_Latency apicall))) (Fin 1000000)),
                    (''Perc99'', f64_div (f64_of_int (Perc99 (ac_Latency apicall))) (Fin 1000000))],
         di_Unit = ''ms'',
         di_Labels = [(''Verb'', ac_Verb apicall), (''Resource'', ac_Resource apicall),
                      (''Subresource'', ac_Subresource apicall), (''Scope'', ac_Scope apicall),
                      (''Count'', itoa (ac_Count apicall)), (''SlowCount'', itoa (ac_SlowCount apicall))]\<rparr>) (sorted_calls m),
     pd_Labels = []\<rparr>"

subsection \<open>The metrics from the samples\<close>

text \<open>\<open>math.Round\<close> rounds half away from zero; \<open>int(x)\<close> is the conversion of amd64.\<close>

fun math_Round :: "float64 \<Rightarrow> float64" where
  "math_Round (Fin x) = Fin (if 0 \<le> x then of_int \<lfloor>x + 1 / 2\<rfloor> else of_int \<lceil>x - 1 / 2\<rceil>)"
| "math_Round x = x"

definition rounded :: "Sample \<Rightarrow> int" where
  "rounded sample = f64_to_int (math_Round (sm_Value sample))"

definition label :: "Sample \<Rightarrow> string \<Rightarrow> string" where
  "label sample name = (case map_of (sm_Metric sample) name of None \<Rightarrow> [] | Some v \<Rightarrow> v)"

definition extractCommon :: "Sample \<Rightarrow> string \<times> string \<times> string \<times> string" where
  "extractCommon sample = (label sample ''resource'', label sample ''subresource'', label sample ''verb'', label sample ''scope'')"

definition seconds :: "float64 \<Rightarrow> duration" where
  "seconds v = f64_to_int (f64_mul v (f64_of_int second))"

fun latency_loop :: "prom_lib \<Rightarrow> Sample list \<Rightarrow> apiCallMetrics \<Rightarrow> apiCallMetrics result" where
  "latency_loop lib [] m = Inr m"
| "latency_loop lib (sample # samples) m =
     (case extractCommon sample of (resource, subresource, verb, scope) \<Rightarrow>
      (case l_ParseFloat lib (label sample ''quantile'') of
         (_, Some err) \<Rightarrow> Inl err
       | (quantile, None) \<Rightarrow>
           latency_loop lib samples (SetLatency resource subresource verb scope quantile (seconds (sm_Value sample)) m)))"

definition count_step :: "apiCallMetrics \<Rightarrow> Sample \<Rightarrow> apiCallMetrics" where
  "count_step m sample = (case extractCommon sample of (resource, subresource, verb, scope) \<Rightarrow>
     SetCount resource subresource verb scope (rounded sample) m)"

definition fast_step :: "apiCallMetrics \<Rightarrow> Sample \<Rightarrow> apiCallMetrics" where
  "fast_step m sample = (case extractCommon sample of (resource, subresource, verb, scope) \<Rightarrow>
     (case GetCount resource subresource verb scope m of (m', n) \<Rightarrow>
        SetSlowCount resource subresource verb scope (wrap64 (n - rounded sample)) m'))"

definition newFromSamples :: "prom_lib \<Rightarrow> Sample list \<Rightarrow> Sample list \<Rightarrow> Sample list \<Rightarrow> apiCallMetrics result" where
  "newFromSamples lib latencySamples countSamples countFastSamples =
     (case latency_loop lib latencySamples [] of
        Inl err \<Rightarrow> Inl err
      | Inr m \<Rightarrow> Inr (foldl fast_step (foldl count_step m countSamples) countFastSamples))"

subsection \<open>The queries\<close>

definition filters :: string where
  "filters = ''verb!=\"WATCH\", subresource!~\"log|exec|portforward|attach|proxy\"''"

definition watchListLatencyMetricName :: string where
  "watchListLatencyMetricName = ''apiserver_watch_list_duration_seconds''"

definition latencyQuery :: "string \<Rightarrow> string \<Rightarrow> string \<Rightarrow> string" where
  "latencyQuery metric flt window = ''quantile_over_time(0.99, '' @ metric @ ''{'' @ flt @ ''}['' @ window @ ''])''"

definition simpleLatencyQuery :: "string \<Rightarrow> string \<Rightarrow> string \<Rightarrow> string \<Rightarrow> string" where
  "simpleLatencyQuery q metric flt window = ''histogram_quantile('' @ q @ '', sum(rate('' @ metric @ ''_bucket{'' @ flt @ ''}[''
     @ window @ ''])) by (resource,  subresource, verb, scope, le))''"

definition watchListLatencyQuery :: "string \<Rightarrow> string \<Rightarrow> string \<Rightarrow> string" where
  "watchListLatencyQuery q metric window = ''histogram_quantile('' @ q @ '', sum(rate('' @ metric @ ''_bucket{}[''
     @ window @ ''])) by (group, version, resource, scope, le))''"

definition countQuery :: "string \<Rightarrow> string \<Rightarrow> string \<Rightarrow> string" where
  "countQuery metric flt window = ''sum(increase('' @ metric @ ''_count{'' @ flt @ ''}['' @ window
     @ ''])) by (resource, subresource, scope, verb)''"

definition countFastQuery :: "string \<Rightarrow> string \<Rightarrow> string \<Rightarrow> string" where
  "countFastQuery metric flt window = ''sum(increase('' @ metric @ ''_bucket{'' @ flt @ ''}['' @ window
     @ ''])) by (resource, subresource, scope, verb)''"

definition fast_filters :: "string list" where
  "fast_filters = [''verb!~\"WATCH|LIST\", subresource!=\"proxy\", le=\"1\"'',
     ''scope!=\"cluster\", verb=\"LIST\", le=\"5\"'', ''scope=\"cluster\", verb=\"LIST\", le=\"30\"'']"

definition set_label :: "string \<Rightarrow> string \<Rightarrow> Sample \<Rightarrow> Sample" where
  "set_label name v sample = sample\<lparr>sm_Metric := AList.update name v (sm_Metric sample)\<rparr>"

text \<open>The simple queries: for each quantile (its text is \<open>%.2f\<close>) the requests, then the watch lists.\<close>

fun simple_loop :: "executor \<Rightarrow> time \<Rightarrow> string \<Rightarrow> string \<Rightarrow> string list \<Rightarrow> Sample list \<Rightarrow> Sample list result" where
  "simple_loop ex endTime sli promDuration [] latencySamples = Inr latencySamples"
| "simple_loop ex endTime sli promDuration (q # qs) latencySamples =
     (case ex (simpleLatencyQuery q sli filters promDuration) endTime of
        Inl err \<Rightarrow> Inl err
      | Inr samples \<Rightarrow> (case ex (watchListLatencyQuery q watchListLatencyMetricName promDuration) endTime of
          Inl err \<Rightarrow> Inl err
        | Inr samples2 \<Rightarrow> simple_loop ex endTime sli promDuration qs (latencySamples @ map (set_label ''quantile'' q) samples
            @ map (\<lambda>s. set_label ''verb'' ''WATCHLIST'' (set_label ''quantile'' q s)) samples2)))"

fun fast_loop :: "executor \<Rightarrow> time \<Rightarrow> string \<Rightarrow> string \<Rightarrow> string list \<Rightarrow> Sample list \<Rightarrow> Sample list result" where
  "fast_loop ex endTime sli promDuration [] countFastSamples = Inr countFastSamples"
| "fast_loop ex endTime sli promDuration (f # fs) countFastSamples =
     (case ex (countFastQuery sli f promDuration) endTime of
        Inl err \<Rightarrow> Inl err
      | Inr samples \<Rightarrow> fast_loop ex endTime sli promDuration fs (countFastSamples @ samples))"

definition latency_samples :: "executor \<Rightarrow> bool \<Rightarrow> duration \<Rightarrow> time \<Rightarrow> prom_config \<Rightarrow> Sample list result" where
  "latency_samples ex useSimple measurementDuration endTime config =
     (if useSimple
      then simple_loop ex endTime (case_prod GetApiserverSLI (c_ClusterVersion config))
             (ToPrometheusTime measurementDuration) [''0.50'', ''0.90'', ''0.99''] []
      else ex (latencyQuery (case_prod GetApiserverLatency (c_ClusterVersion config)) filters
             (ToPrometheusTime (let d = wrap64 (measurementDuration - 5 * minute) in if d < minute then minute else d))) endTime)"

definition gatherAPICalls :: "prom_lib \<Rightarrow> executor \<Rightarrow> time \<Rightarrow> time \<Rightarrow> prom_config \<Rightarrow> apiCallMetrics result" where
  "gatherAPICalls lib ex startTime endTime config =
     (let measurementDuration = time_sub endTime startTime;
          promDuration = ToPrometheusTime measurementDuration;
          sli = case_prod GetApiserverSLI (c_ClusterVersion config)
      in case GetBoolOrDefault (c_Params config) ''useSimpleLatencyQuery'' False of
           Inl err \<Rightarrow> Inl err
         | Inr useSimple \<Rightarrow> (case latency_samples ex useSimple measurementDuration endTime config of
             Inl err \<Rightarrow> Inl err
           | Inr latencySamples \<Rightarrow> (case ex (countQuery sli filters promDuration) endTime of
               Inl err \<Rightarrow> Inl err
             | Inr countSamples \<Rightarrow> (case ex (countQuery watchListLatencyMetricName [] promDuration) endTime of
                 Inl err \<Rightarrow> Inl err
               | Inr watchListCountSamples \<Rightarrow> (case fast_loop ex endTime sli promDuration fast_filters [] of
                   Inl err \<Rightarrow> Inl err
                 | Inr countFastSamples \<Rightarrow> newFromSamples lib latencySamples
                     (countSamples @ map (set_label ''verb'' ''WATCHLIST'') watchListCountSamples) countFastSamples)))))"

subsection \<open>The thresholds and the verdict\<close>

fun thresholds_loop :: "apiCallMetrics \<Rightarrow> customThresholdEntry list \<Rightarrow> (string, duration) go_map
    \<Rightarrow> (string, duration) go_map result" where
  "thresholds_loop m [] custom = Inr custom"
| "thresholds_loop m (entry # es) custom =
     (if ct_Threshold entry = 0 then Inl (ErrText ''custom threshold must be set to a positive time duration'')
      else let key = threshold_getKey entry
           in thresholds_loop m es (if map_of m key = None then custom else AList.update key (ct_Threshold entry) custom))"

definition getCustomThresholds ::
    "prom_lib \<Rightarrow> prom_config \<Rightarrow> apiCallMetrics \<Rightarrow> (string, duration) go_map result" where
  "getCustomThresholds lib config m = (case GetStringOrDefault (c_Params config) ''customThresholds'' [] of
      Inl err \<Rightarrow> Inl err
    | Inr thresholdsString \<Rightarrow> (case l_thresholds lib thresholdsString of
        Inl err \<Rightarrow> Inl err
      | Inr thresholds \<Rightarrow> thresholds_loop m thresholds []))"

definition call_threshold :: "(string, duration) go_map \<Rightarrow> apiCallMetric \<Rightarrow> duration" where
  "call_threshold custom apiCall = (case map_of custom (apiCall_getKey apiCall) of
      Some customThreshold \<Rightarrow> customThreshold | None \<Rightarrow> getSLOThreshold apiCall)"

definition validateAPICalls :: "int \<Rightarrow> apiCallMetrics \<Rightarrow> (string, duration) go_map \<Rightarrow> go_error list" where
  "validateAPICalls allowedSlowCalls m custom =
     List.map_filter (\<lambda>apiCall. apiCall_Validate allowedSlowCalls (call_threshold custom apiCall) apiCall) (sorted_calls m)"

definition fmt_errors :: "go_error list \<Rightarrow> string" where
  "fmt_errors es = ''['' @ str_join '' '' (map Error es) @ '']''"

definition apiResponsiveness_Gather ::
    "prom_lib \<Rightarrow> executor \<Rightarrow> time \<Rightarrow> time \<Rightarrow> prom_config \<Rightarrow> gathered" where
  "apiResponsiveness_Gather lib ex startTime endTime config =
     (case gatherAPICalls lib ex startTime endTime config of
        Inl err \<Rightarrow> ([], Some err)
      | Inr apiCalls \<Rightarrow> (case l_PrettyPrintJSON lib (PerfDoc (apiCallMetrics_ToPerfData apiCalls)) of
          Inl err \<Rightarrow> ([], Some err)
        | Inr content \<Rightarrow> (case GetStringOrDefault (c_Params config) ''summaryName'' ''APIResponsivenessPrometheus'' of
            Inl err \<Rightarrow> ([], Some err)
          | Inr summaryName \<Rightarrow> (case GetIntOrDefault (c_Params config) ''allowedSlowCalls'' 0 of
              Inl err \<Rightarrow> ([], Some err)
            | Inr allowedSlowCalls \<Rightarrow> (case getCustomThresholds lib config apiCalls of
                Inl err \<Rightarrow> ([], Some err)
              | Inr customThresholds \<Rightarrow>
                  (let badMetrics = validateAPICalls allowedSlowCalls apiCalls customThresholds
                   in ([Some (CreateSummary (l_now lib) summaryName ''json'' content)],
                       if length badMetrics > 0
                       then Some (NewMetricViolationError ''top latency metric''
                              (''there should be no high-latency requests, but: '' @ fmt_errors badMetrics))
                       else None)))))))"

definition apiResponsivenessGatherer :: "unit gatherer" where
  "apiResponsivenessGatherer = \<lparr>g_Configure = (\<lambda>_ _ g. (g, None)),
     g_Gather = (\<lambda>lib ex startTime endTime config _. Some (apiResponsiveness_Gather lib ex startTime endTime config)),
     g_IsEnabled = (\<lambda>_. True), g_String = ''APIResponsivenessPrometheus''\<rparr>"

end
