(* ===== verification/Api_Correct.thy ===== *)
theory Api_Correct
  imports Api_Responsiveness
begin

text \<open>
  What \<open>api_responsiveness_prometheus.go\<close> reports: the metrics in terms of the samples, and the verdict
  in terms of the metrics.
\<close>

subsection \<open>The map of the calls\<close>

definition sample_key :: "Sample \<Rightarrow> string" where
  "sample_key s = buildKey (label s ''resource'') (label s ''subresource'') (label s ''verb'') (label s ''scope'')"

definition keyed :: "apiCallMetrics \<Rightarrow> bool" where
  "keyed m \<longleftrightarrow> distinct (map fst m) \<and> (\<forall>k c. map_of m k = Some c \<longrightarrow> apiCall_getKey c = k)"

definition count_of :: "apiCallMetrics \<Rightarrow> string \<Rightarrow> int" where
  "count_of m k = (case map_of m k of None \<Rightarrow> 0 | Some c \<Rightarrow> ac_Count c)"

definition slow_of :: "apiCallMetrics \<Rightarrow> string \<Rightarrow> int" where
  "slow_of m k = (case map_of m k of None \<Rightarrow> 0 | Some c \<Rightarrow> ac_SlowCount c)"

definition p99_of :: "apiCallMetrics \<Rightarrow> string \<Rightarrow> duration" where
  "p99_of m k = (case map_of m k of None \<Rightarrow> 0 | Some c \<Rightarrow> Perc99 (ac_Latency c))"

lemmas of_defs = count_of_def slow_of_def p99_of_def

text \<open>The three quantiles differ after their rounding to binary64.\<close>

lemma f64_round_unit:
  assumes "1 / 4 \<le> z" and "z \<le> 1"
  shows "\<exists>v. f64_round z = Fin v \<and> v \<le> z + 1 / 100 \<and> z - 1 / 100 \<le> v"
proof -
  have "(2::rat) powi (- 1022) \<le> 2 powi (- 2)" by (intro power_int_increasing) auto
  then have "2 powi (- 1022) \<le> z" using assms(1) by (simp add: power_int_def field_simps)
  then have "\<bar>f64_nearest z - z\<bar> \<le> z / 2 ^ 53" by (rule f64_nearest_error)
  also have "\<dots> \<le> 1 / 100" using assms(2) by simp
  finally have e: "f64_nearest z \<le> z + 1 / 100 \<and> z - 1 / 100 \<le> f64_nearest z" unfolding abs_le_iff by linarith
  have "f64_nearest z < 2" "- 2 < f64_nearest z" using e assms by linarith+
  moreover define b where "b = (2::rat) ^ 1024"
  moreover have "2 \<le> b" using power_increasing [of 1 1024 "2::rat"] unfolding b_def by simp
  ultimately have "\<not> b \<le> f64_nearest z" "\<not> f64_nearest z \<le> - b" by linarith+
  then have "\<not> 2 ^ 1024 \<le> f64_nearest z" "\<not> f64_nearest z \<le> - (2 ^ 1024)" unfolding b_def by blast+
  then show ?thesis using e by (simp add: f64_round_def Let_def del: power_numeral)
qed

lemma distinct_quantiles: "f64_round (99 / 100) \<noteq> f64_round (5 / 10)" "f64_round (99 / 100) \<noteq> f64_round (9 / 10)"
  using f64_round_unit [of "99 / 100"] f64_round_unit [of "5 / 10"] f64_round_unit [of "9 / 10"] by auto

lemma keyed_insert: "keyed m \<Longrightarrow> apiCall_getKey c = k \<Longrightarrow> keyed (AList.update k c m)"
  by (simp add: keyed_def distinct_update update_conv' del: map_of_eq_Some_iff)

lemma keyed_update:
  assumes "keyed m" and "map_of m k = Some call" and "apiCall_getKey call' = apiCall_getKey call"
  shows "keyed (AList.update k call' m)"
  using assms by (intro keyed_insert) (auto simp: keyed_def simp del: map_of_eq_Some_iff)

lemma getAPICall_views:
  assumes "getAPICall m r s v c = (m', call)"
  shows "map_of m' (buildKey r s v c) = Some call" and "count_of m' k = count_of m k" and "slow_of m' k = slow_of m k"
    and "p99_of m' k = p99_of m k" and "keyed m \<Longrightarrow> keyed m'"
proof -
  show "map_of m' (buildKey r s v c) = Some call" "count_of m' k = count_of m k" "slow_of m' k = slow_of m k" "p99_of m' k = p99_of m k"
    using assms by (auto simp: getAPICall_def Let_def of_defs update_conv' split: option.splits if_splits)
  show "keyed m \<Longrightarrow> keyed m'"
    using assms by (auto simp: getAPICall_def Let_def apiCall_getKey_def split: option.splits intro: keyed_insert)
qed

lemma SetLatency_views:
  "count_of (SetLatency r s v c q d m) k = count_of m k" "slow_of (SetLatency r s v c q d m) k = slow_of m k"
  "p99_of (SetLatency r s v c q d m) k =
     (if k = buildKey r s v c \<and> q = f64_round (99 / 100) then d else p99_of m k)"
  "keyed m \<Longrightarrow> keyed (SetLatency r s v c q d m)"
proof -
  obtain m' call where g: "getAPICall m r s v c = (m', call)" by fastforce
  note views = getAPICall_views [OF g]
  have "Perc99 (SetQuantile l q d) = (if q = f64_round (99 / 100) then d else Perc99 l)" for l
    using distinct_quantiles by (auto simp: SetQuantile_def)
  then show "count_of (SetLatency r s v c q d m) k = count_of m k" "slow_of (SetLatency r s v c q d m) k = slow_of m k"
    "p99_of (SetLatency r s v c q d m) k = (if k = buildKey r s v c \<and> q = f64_round (99 / 100) then d else p99_of m k)"
    using views(1) views(2-4) [of k] by (auto simp: SetLatency_def g of_defs update_conv' split: option.splits)
  show "keyed m \<Longrightarrow> keyed (SetLatency r s v c q d m)"
    using views(1,5) by (auto simp: SetLatency_def g apiCall_getKey_def intro: keyed_update)
qed

lemma SetCount_views:
  "count_of (SetCount r s v c n m) k = (if k = buildKey r s v c \<and> n \<noteq> 0 then n else count_of m k)"
  "slow_of (SetCount r s v c n m) k = slow_of m k" "p99_of (SetCount r s v c n m) k = p99_of m k"
  "keyed m \<Longrightarrow> keyed (SetCount r s v c n m)"
proof -
  obtain m' call where g: "getAPICall m r s v c = (m', call)" by fastforce
  note views = getAPICall_views [OF g]
  show "count_of (SetCount r s v c n m) k = (if k = buildKey r s v c \<and> n \<noteq> 0 then n else count_of m k)"
    "slow_of (SetCount r s v c n m) k = slow_of m k" "p99_of (SetCount r s v c n m) k = p99_of m k"
    using views(1) views(2-4) [of k] by (auto simp: SetCount_def g of_defs update_conv' split: option.splits)
  show "keyed m \<Longrightarrow> keyed (SetCount r s v c n m)"
    using views(1,5) by (auto simp: SetCount_def g apiCall_getKey_def intro: keyed_update)
qed

lemma SetSlowCount_views:
  "count_of (SetSlowCount r s v c n m) k = count_of m k" "p99_of (SetSlowCount r s v c n m) k = p99_of m k"
  "slow_of (SetSlowCount r s v c n m) k = (if k = buildKey r s v c \<and> n \<noteq> 0 then n else slow_of m k)"
  "keyed m \<Longrightarrow> keyed (SetSlowCount r s v c n m)"
proof -
  obtain m' call where g: "getAPICall m r s v c = (m', call)" by fastforce
  note views = getAPICall_views [OF g]
  show "count_of (SetSlowCount r s v c n m) k = count_of m k" "p99_of (SetSlowCount r s v c n m) k = p99_of m k"
    "slow_of (SetSlowCount r s v c n m) k = (if k = buildKey r s v c \<and> n \<noteq> 0 then n else slow_of m k)"
    using views(1) views(2-4) [of k] by (auto simp: SetSlowCount_def g of_defs update_conv' split: option.splits)
  show "keyed m \<Longrightarrow> keyed (SetSlowCount r s v c n m)"
    using views(1,5) by (auto simp: SetSlowCount_def g apiCall_getKey_def intro: keyed_update)
qed

subsection \<open>The three loops\<close>

lemma count_step_views:
  "count_of (count_step m s) k = (if k = sample_key s \<and> rounded s \<noteq> 0 then rounded s else count_of m k)"
  "slow_of (count_step m s) k = slow_of m k" "p99_of (count_step m s) k = p99_of m k" "keyed m \<Longrightarrow> keyed (count_step m s)"
  by (simp_all add: count_step_def extractCommon_def sample_key_def SetCount_views)

lemma fast_step_views:
  "count_of (fast_step m s) k = count_of m k" "p99_of (fast_step m s) k = p99_of m k" "keyed m \<Longrightarrow> keyed (fast_step m s)"
  "slow_of (fast_step m s) k = (if k = sample_key s \<and> wrap64 (count_of m k - rounded s) \<noteq> 0
     then wrap64 (count_of m k - rounded s) else slow_of m k)"
proof -
  obtain m' call where g: "getAPICall m (label s ''resource'') (label s ''subresource'') (label s ''verb'') (label s ''scope'') = (m', call)"
    by fastforce
  note views = getAPICall_views [OF g]
  have n: "ac_Count call = count_of m (sample_key s)"
    using views(1) views(2) [of "sample_key s"] by (simp add: sample_key_def count_of_def)
  show "count_of (fast_step m s) k = count_of m k" "p99_of (fast_step m s) k = p99_of m k" "keyed m \<Longrightarrow> keyed (fast_step m s)"
    "slow_of (fast_step m s) k = (if k = sample_key s \<and> wrap64 (count_of m k - rounded s) \<noteq> 0
       then wrap64 (count_of m k - rounded s) else slow_of m k)"
    using views(2-5) n by (auto simp: fast_step_def extractCommon_def GetCount_def g SetSlowCount_views sample_key_def)
qed

lemma counts_views:
  "slow_of (foldl count_step m cs) k = slow_of m k" "p99_of (foldl count_step m cs) k = p99_of m k"
  "keyed m \<Longrightarrow> keyed (foldl count_step m cs)"
  "k \<notin> sample_key ` set cs \<Longrightarrow> count_of (foldl count_step m cs) k = count_of m k"
  by (induction cs arbitrary: m) (auto simp: count_step_views)

lemma counts_count:
  "distinct (map sample_key cs) \<Longrightarrow> c \<in> set cs \<Longrightarrow> count_of m (sample_key c) = 0
     \<Longrightarrow> count_of (foldl count_step m cs) (sample_key c) = rounded c"
proof (induction cs arbitrary: m)
  case (Cons a cs)
  show ?case
  proof (cases "a = c")
    case True
    then have "sample_key c \<notin> sample_key ` set cs" using Cons.prems(1) by simp
    then show ?thesis using True Cons.prems(3) counts_views(4) [of "sample_key c" cs "count_step m c"]
      by (simp add: count_step_views)
  next
    case False
    then have "c \<in> set cs" "sample_key a \<noteq> sample_key c" using Cons.prems by (auto simp: image_iff)
    then show ?thesis using Cons by (simp add: count_step_views)
  qed
qed simp

lemma fasts_views:
  "count_of (foldl fast_step m fs) k = count_of m k" "p99_of (foldl fast_step m fs) k = p99_of m k"
  "keyed m \<Longrightarrow> keyed (foldl fast_step m fs)"
  "k \<notin> sample_key ` set fs \<Longrightarrow> slow_of (foldl fast_step m fs) k = slow_of m k"
  by (induction fs arbitrary: m) (auto simp: fast_step_views)

lemma fasts_slow:
  "distinct (map sample_key fs) \<Longrightarrow> f \<in> set fs \<Longrightarrow> slow_of m (sample_key f) = 0
     \<Longrightarrow> slow_of (foldl fast_step m fs) (sample_key f) = wrap64 (count_of m (sample_key f) - rounded f)"
proof (induction fs arbitrary: m)
  case (Cons a fs)
  show ?case
  proof (cases "a = f")
    case True
    then have "sample_key f \<notin> sample_key ` set fs" using Cons.prems(1) by simp
    then show ?thesis using True Cons.prems(3) fasts_views(4) [of "sample_key f" fs "fast_step m f"]
      by (simp add: fast_step_views)
  next
    case False
    then have "f \<in> set fs" "sample_key a \<noteq> sample_key f" using Cons.prems by (auto simp: image_iff)
    then show ?thesis using Cons by (simp add: fast_step_views)
  qed
qed simp

definition is_p99 :: "prom_lib \<Rightarrow> Sample \<Rightarrow> bool" where
  "is_p99 lib s \<longleftrightarrow> fst (l_ParseFloat lib (label s ''quantile'')) = f64_round (99 / 100)"

lemma latency_loop_ConsE:
  assumes "latency_loop lib (l # ls) m = Inr m'"
  obtains q where "l_ParseFloat lib (label l ''quantile'') = (q, None)" and
    "latency_loop lib ls (SetLatency (label l ''resource'') (label l ''subresource'') (label l ''verb'') (label l ''scope'') q
       (seconds (sm_Value l)) m) = Inr m'"
  using assms by (auto simp: extractCommon_def split: prod.splits option.splits)

lemma latency_loop_views:
  assumes "latency_loop lib ls m = Inr m'"
  shows "count_of m' k = count_of m k \<and> slow_of m' k = slow_of m k \<and> (keyed m \<longrightarrow> keyed m')
    \<and> (k \<notin> sample_key ` {l \<in> set ls. is_p99 lib l} \<longrightarrow> p99_of m' k = p99_of m k)"
  using assms
proof (induction ls arbitrary: m)
  case (Cons l ls)
  obtain q where q: "l_ParseFloat lib (label l ''quantile'') = (q, None)" and
    rest: "latency_loop lib ls (SetLatency (label l ''resource'') (label l ''subresource'') (label l ''verb'') (label l ''scope'') q
       (seconds (sm_Value l)) m) = Inr m'"
    using Cons.prems by (rule latency_loop_ConsE)
  have l: "is_p99 lib l \<longleftrightarrow> q = f64_round (99 / 100)" by (simp add: is_p99_def q)
  show ?case using Cons.IH [OF rest] l by (auto simp: SetLatency_views sample_key_def)
qed simp

lemma latency_loop_append:
  "latency_loop lib (xs @ ys) m = (case latency_loop lib xs m of Inl e \<Rightarrow> Inl e | Inr m' \<Rightarrow> latency_loop lib ys m')"
  by (induction lib xs m rule: latency_loop.induct) (auto split: prod.splits option.splits)

lemma latency_loop_p99:
  assumes "latency_loop lib (xs @ l # ys) m = Inr m'" and "is_p99 lib l"
    and "\<And>y. y \<in> set ys \<Longrightarrow> is_p99 lib y \<Longrightarrow> sample_key y \<noteq> sample_key l"
  shows "p99_of m' (sample_key l) = seconds (sm_Value l)"
proof -
  obtain m1 where m1: "latency_loop lib (l # ys) m1 = Inr m'"
    using assms(1) by (auto simp: latency_loop_append split: sum.splits)
  obtain q where q: "l_ParseFloat lib (label l ''quantile'') = (q, None)" using m1 by (rule latency_loop_ConsE)
  let ?m2 = "SetLatency (label l ''resource'') (label l ''subresource'') (label l ''verb'') (label l ''scope'') q (seconds (sm_Value l)) m1"
  have "latency_loop lib ys ?m2 = Inr m'" using m1 q by (simp add: extractCommon_def)
  moreover have "sample_key l \<notin> sample_key ` {y \<in> set ys. is_p99 lib y}" using assms(3) by force
  ultimately have "p99_of m' (sample_key l) = p99_of ?m2 (sample_key l)" using latency_loop_views by blast
  then show ?thesis using assms(2) q by (simp add: SetLatency_views is_p99_def sample_key_def)
qed

subsection \<open>The metrics of the samples\<close>

lemma newFromSamples_keyed: "newFromSamples lib ls cs fs = Inr m \<Longrightarrow> keyed m"
  using latency_loop_views [of lib ls "[]"] counts_views(3) fasts_views(3)
  by (fastforce simp: newFromSamples_def keyed_def [of "[]"] split: sum.splits)

text \<open>
The metrics hold what Prometheus reported. When the count samples and the fast-count samples
  have one sample per call, every call has the rounded count, its slow count is the count minus the
  rounded fast count (in 64-bit arithmetic), which is zero for a call without fast-count sample, and
  its 99th percentile is the last latency sample of that quantile. A call that has only a fast-count
  sample is entered with count zero and the negated fast count.
\<close>

theorem newFromSamples_metrics:
  assumes "newFromSamples lib ls cs fs = Inr m" and "distinct (map sample_key cs)" and "distinct (map sample_key fs)"
  shows "keyed m \<and> (\<forall>c \<in> set cs. count_of m (sample_key c) = rounded c)
    \<and> (\<forall>f \<in> set fs. slow_of m (sample_key f) = wrap64 (count_of m (sample_key f) - rounded f))
    \<and> (\<forall>k. k \<notin> sample_key ` set fs \<longrightarrow> slow_of m k = 0) \<and> (\<forall>k. k \<notin> sample_key ` set cs \<longrightarrow> count_of m k = 0)
    \<and> (\<forall>xs l ys. ls = xs @ l # ys \<and> is_p99 lib l \<and> (\<forall>y \<in> set ys. is_p99 lib y \<longrightarrow> sample_key y \<noteq> sample_key l)
         \<longrightarrow> p99_of m (sample_key l) = seconds (sm_Value l))"
proof -
  obtain m0 where loop: "latency_loop lib ls [] = Inr m0" and m: "m = foldl fast_step (foldl count_step m0 cs) fs"
    using assms(1) by (auto simp: newFromSamples_def split: sum.splits)
  have zero: "count_of m0 k = 0" "slow_of m0 k = 0" for k
    using latency_loop_views [OF loop, of k] by (simp_all add: of_defs)
  have counts: "\<forall>c \<in> set cs. count_of m (sample_key c) = rounded c"
    using counts_count [OF assms(2)] zero by (simp add: m fasts_views)
  have slows: "\<forall>f \<in> set fs. slow_of m (sample_key f) = wrap64 (count_of m (sample_key f) - rounded f)"
    using fasts_slow [OF assms(3)] zero by (simp add: m fasts_views counts_views)
  have p99: "p99_of m (sample_key l) = seconds (sm_Value l)"
    if "ls = xs @ l # ys" "is_p99 lib l" "\<forall>y \<in> set ys. is_p99 lib y \<longrightarrow> sample_key y \<noteq> sample_key l" for xs l ys
    using latency_loop_p99 [OF loop [unfolded that(1)] that(2)] that(3) by (simp add: m fasts_views counts_views)
  show ?thesis
    using newFromSamples_keyed [OF assms(1)] counts slows p99 zero by (auto simp: m fasts_views counts_views)
qed

text \<open>The samples of a read of pods and of its logs: the fast-count query reports both, the others only the first.\<close>

definition read_sample :: "string \<Rightarrow> float64 \<Rightarrow> Sample" where
  "read_sample sub v = \<lparr>sm_Metric = [(''resource'', ''pods''), (''subresource'', sub), (''verb'', ''GET''), (''scope'', ''resource''),
     (''quantile'', ''0.99'')], sm_Value = v, sm_Timestamp = ''1''\<rparr>"

definition sample_prom_lib :: prom_lib where
  "sample_prom_lib = \<lparr>l_now = 5000000000, l_ParseDuration = (\<lambda>_. Inr second), l_ParseFloat = (\<lambda>_. (f64_round (99 / 100), None)),
     l_PrettyPrintJSON = (\<lambda>_. Inr ''{}''), l_thresholds = (\<lambda>_. Inr []), l_overrides = (\<lambda>_. Inr []),
     l_Encode = (\<lambda>_. Inr []), l_Decode = (\<lambda>_ sp. (sp, None)), l_Compile = (\<lambda>p. Some (\<lambda>s. p = s))\<rparr>"

lemma sample_label [simp]:
  "label (read_sample sub v) ''resource'' = ''pods''" "label (read_sample sub v) ''subresource'' = sub"
  "label (read_sample sub v) ''verb'' = ''GET''" "label (read_sample sub v) ''scope'' = ''resource''"
  "sm_Value (read_sample sub v) = v" "is_p99 sample_prom_lib s"
  by (simp_all add: read_sample_def label_def is_p99_def sample_prom_lib_def)

lemma sample_keys: "sample_key (read_sample [] v) = ''pods||GET|resource''" "sample_key (read_sample ''log'' v) = ''pods|log|GET|resource''"
  by (simp_all add: sample_key_def buildKey_def)

theorem newFromSamples_metrics_witness:
  "\<exists>m. newFromSamples sample_prom_lib [read_sample [] (Fin 2)] [read_sample [] (Fin 9)] [read_sample [] (Fin 6), read_sample ''log'' (Fin 4)] = Inr m
     \<and> count_of m ''pods||GET|resource'' = 9 \<and> slow_of m ''pods||GET|resource'' = 3 \<and> p99_of m ''pods||GET|resource'' = seconds (Fin 2)
     \<and> count_of m ''pods|log|GET|resource'' = 0 \<and> slow_of m ''pods|log|GET|resource'' = - 4"
proof -
  obtain m where m: "newFromSamples sample_prom_lib [read_sample [] (Fin 2)] [read_sample [] (Fin 9)]
      [read_sample [] (Fin 6), read_sample ''log'' (Fin 4)] = Inr m"
    by (simp add: newFromSamples_def extractCommon_def sample_prom_lib_def)
  have "rounded (read_sample s (Fin 9)) = 9" "rounded (read_sample s (Fin 6)) = 6" "rounded (read_sample s (Fin 4)) = 4" for s
    by (simp_all add: rounded_def rat_trunc_def floor_eq_iff)
  then show ?thesis
    using newFromSamples_metrics [OF m] m by (simp add: sample_keys wrap64_def) (metis append_Nil empty_iff list.set(1) sample_keys(1) sample_label)
qed

subsection \<open>The verdict\<close>

text \<open>A call is within its objective: few slow calls when some are allowed, or no percentile over the threshold.\<close>

definition meets :: "int \<Rightarrow> (string, duration) go_map \<Rightarrow> string \<Rightarrow> apiCallMetric \<Rightarrow> bool" where
  "meets allowed custom k c \<longleftrightarrow> (0 < allowed \<and> ac_SlowCount c \<le> allowed)
     \<or> (let t = (case map_of custom k of Some t \<Rightarrow> t | None \<Rightarrow> if ac_Scope c = ''resource'' then second else 30 * second)
        in Perc50 (ac_Latency c) \<le> t \<and> Perc90 (ac_Latency c) \<le> t \<and> Perc99 (ac_Latency c) \<le> t)"

lemma Validate_meets:
  "apiCall_getKey c = k \<Longrightarrow> apiCall_Validate allowed (call_threshold custom c) c = None \<longleftrightarrow> meets allowed custom k c"
  by (auto simp: apiCall_Validate_def meets_def call_threshold_def getSLOThreshold_def VerifyThreshold_def Let_def
      singleResourceThreshold_def multipleResourcesThreshold_def split: option.splits)

lemma validateAPICalls_Nil:
  assumes "keyed m"
  shows "validateAPICalls allowed m custom = [] \<longleftrightarrow> (\<forall>k c. map_of m k = Some c \<longrightarrow> meets allowed custom k c)"
proof -
  have "validateAPICalls allowed m custom = [] \<longleftrightarrow>
      (\<forall>c \<in> set (map snd m). apiCall_Validate allowed (call_threshold custom c) c = None)"
    by (auto simp: validateAPICalls_def sorted_calls_def List.map_filter_def filter_empty_conv)
  also have "\<dots> \<longleftrightarrow> (\<forall>k c. map_of m k = Some c \<longrightarrow> apiCall_Validate allowed (call_threshold custom c) c = None)"
    using assms by (auto simp: keyed_def)
  also have "\<dots> \<longleftrightarrow> (\<forall>k c. map_of m k = Some c \<longrightarrow> meets allowed custom k c)"
    using assms Validate_meets unfolding keyed_def by blast
  finally show ?thesis .
qed

lemma gatherAPICalls_keyed: "gatherAPICalls lib ex st en config = Inr m \<Longrightarrow> keyed m"
  by (auto simp: gatherAPICalls_def Let_def split: sum.splits dest: newFromSamples_keyed)

text \<open>
  C40. When the queries are answered and the parameters are well formed, the gatherer reports one
  summary, and it reports a metric violation exactly when some API call is over its objective:
  no percentile may exceed the custom threshold of the call or, without one, one second for
  single resources and thirty seconds for lists, unless slow calls are allowed and the call has no
  more of them. The verdict does not depend on the order in which the map of the calls is visited.
\<close>

theorem api_responsiveness_verdict:
  assumes "gatherAPICalls lib ex st en config = Inr m" and "l_PrettyPrintJSON lib (PerfDoc (apiCallMetrics_ToPerfData m)) = Inr content"
    and "GetStringOrDefault (c_Params config) ''summaryName'' ''APIResponsivenessPrometheus'' = Inr name"
    and "GetIntOrDefault (c_Params config) ''allowedSlowCalls'' 0 = Inr allowed" and "getCustomThresholds lib config m = Inr custom"
  shows "\<exists>err. apiResponsiveness_Gather lib ex st en config = ([Some (CreateSummary (l_now lib) name ''json'' content)], err)
    \<and> (err = None \<longleftrightarrow> (\<forall>k c. map_of m k = Some c \<longrightarrow> meets allowed custom k c)) \<and> (err \<noteq> None \<longrightarrow> violation err)"
  using assms validateAPICalls_Nil [OF gatherAPICalls_keyed [OF assms(1)], of allowed custom]
  by (simp add: apiResponsiveness_Gather_def Let_def NewMetricViolationError_def)

definition empty_config :: "params \<Rightarrow> prom_config" where
  "empty_config ps = \<lparr>c_Identifier = ''id'', c_Params = ps, c_ClusterVersion = (''1'', ''30''), c_hasPrometheusFramework = True,
     c_ProviderName = ''kind'', c_SupportMetricsServerMetrics = True, c_ScrapeKubeProxy = True\<rparr>"

theorem api_responsiveness_verdict_witness:
  "\<exists>err. apiResponsiveness_Gather sample_prom_lib (\<lambda>_ _. Inr []) 0 second (empty_config [])
     = ([Some (CreateSummary 5000000000 ''APIResponsivenessPrometheus'' ''json'' ''{}'')], err) \<and> err = None"
proof -
  have "gatherAPICalls sample_prom_lib (\<lambda>_ _. Inr []) 0 second (empty_config []) = Inr []"
    by (simp add: gatherAPICalls_def empty_config_def GetBoolOrDefault_def getBool_def or_default_def latency_samples_def
        fast_filters_def newFromSamples_def Let_def)
  from api_responsiveness_verdict [OF this, of "''{}''" "''APIResponsivenessPrometheus''" 0 "[]"]
  show ?thesis
    by (simp add: sample_prom_lib_def empty_config_def GetStringOrDefault_def getString_def GetIntOrDefault_def getInt_def
        or_default_def getCustomThresholds_def)
qed

subsection \<open>The contract of the measurement\<close>

lemma plain_simple_loop: "plain_executor ex \<Longrightarrow> plain (simple_loop ex en sli d qs ls)"
  by (induction qs arbitrary: ls) (auto split: sum.splits dest: plain_executorD)

lemma plain_fast_loop: "plain_executor ex \<Longrightarrow> plain (fast_loop ex en sli d fs ls)"
  by (induction fs arbitrary: ls) (auto split: sum.splits dest: plain_executorD)

lemma plain_latency_loop: "plain_lib lib \<Longrightarrow> plain (latency_loop lib ls m)"
  by (induction ls arbitrary: m) (auto split: prod.splits option.splits dest: plain_libD)

lemma plain_thresholds_loop: "plain (thresholds_loop m es custom)"
  by (induction es arbitrary: custom) (simp_all add: Let_def)

lemma plain_gatherAPICalls:
  assumes "plain_lib lib" and "plain_executor ex"
  shows "plain (gatherAPICalls lib ex st en config)"
proof -
  have ls: "plain (latency_samples ex b d en config)" for b d
    unfolding latency_samples_def
    by (cases b) (simp_all only: if_True if_False plain_simple_loop [OF assms(2)] plain_query [OF assms(2)])
  have new: "plain (newFromSamples lib a b c)" for a b c
    using plain_latency_loop [OF assms(1), of a "[]"] by (auto simp: newFromSamples_def split: sum.splits)
  show ?thesis
    unfolding gatherAPICalls_def Let_def
    by (intro plain_case plain_getters ls new plain_query plain_fast_loop assms)
qed

interpretation api_responsiveness: prometheus_gatherer apiResponsivenessGatherer
proof
  fix lib config and g :: unit
  show "\<not> violation (snd (g_Configure apiResponsivenessGatherer lib config g))"
    by (simp add: apiResponsivenessGatherer_def)
next
  fix lib ex st en config and g :: unit and ss err
  assume lib: "plain_lib lib" and ex: "plain_executor ex"
    and g: "g_Gather apiResponsivenessGatherer lib ex st en config g = Some (ss, err)" and ok: "err = None \<or> violation err"
  have thr: "plain (getCustomThresholds lib config m)" for m
    using plain_libD(3) [OF lib] unfolding getCustomThresholds_def plain_def [of "l_thresholds lib _"]
    by (intro plain_case plain_getters plain_thresholds_loop) (auto simp: plain_def split: sum.splits)
  have "apiResponsiveness_Gather lib ex st en config = (ss, err)" using g by (simp add: apiResponsivenessGatherer_def)
  then show "\<exists>s. ss = [Some s]"
    using ok plain_gatherAPICalls [OF lib ex, of st en config] plain_libD(2) [OF lib] thr [THEN plainD]
    unfolding apiResponsiveness_Gather_def Let_def
    by (auto split: sum.splits dest: plain_getD)
qed

end
