(* ===== verification/Prometheus_Gatherers.thy ===== *)
theory Prometheus_Gatherers
  imports Api_Correct
begin

text \<open>
  The other gatherers of Prometheus metrics under \<open>pkg/measurement/common\<close>: container restarts,
  scheduling throughput, generic queries, network programming latency, node-local DNS latency,
  metrics-server latency, the NEG controller and the Cilium endpoints.
\<close>

text \<open>\<open>strings.ReplaceAll(s, old, new)\<close> for a non-empty \<open>old\<close>.\<close>

function ReplaceAll :: "string \<Rightarrow> string \<Rightarrow> string \<Rightarrow> string" where
  "ReplaceAll s old new = (if old = [] then s
     else if s = [] then []
     else if prefix old s then new @ ReplaceAll (drop (length old) s) old new
     else hd s # ReplaceAll (tl s) old new)"
  by pat_completeness auto
termination
  by (relation "measure (\<lambda>(s, _, _). length s)") (auto simp: diff_less)

declare ReplaceAll.simps [simp del]

subsection \<open>\<open>container_restarts.go\<close>\<close>

definition containerRestartCountQuery :: "string \<Rightarrow> string" where
  "containerRestartCountQuery d = ''changes(container_start_time_seconds['' @ d @ ''])''"

definition pod_pattern :: "restartCountOverride \<Rightarrow> string" where
  "pod_pattern car = ''^'' @ ReplaceAll (ReplaceAll (ci_Pod (ro_Info car)) ''.'' [CHR 0x5C, CHR ''.'']) ''*'' ''.*'' @ ''$''"

text \<open>An override with its compiled pattern; \<open>regexp.MustCompile\<close> panics when the pattern is not one.\<close>

fun compile_loop :: "prom_lib \<Rightarrow> restartCountOverride list \<Rightarrow> (restartCountOverride \<times> (string \<Rightarrow> bool)) list option" where
  "compile_loop lib [] = Some []"
| "compile_loop lib (car # cars) = do {
     re \<leftarrow> l_Compile lib (pod_pattern car);
     rest \<leftarrow> compile_loop lib cars;
     Some ((car, re) # rest) }"

definition getOverrides :: "prom_lib \<Rightarrow> prom_config \<Rightarrow> (restartCountOverride \<times> (string \<Rightarrow> bool)) list result option" where
  "getOverrides lib config = (case GetStringOrDefault (c_Params config) ''customAllowedRestarts'' [] of
      Inl err \<Rightarrow> Some (Inl err)
    | Inr text \<Rightarrow> (case l_overrides lib text of
        Inl err \<Rightarrow> Some (Inl err)
      | Inr overrides \<Rightarrow> map_option Inr (compile_loop lib overrides)))"

definition gatherContainerRestarts :: "executor \<Rightarrow> time \<Rightarrow> time \<Rightarrow> ContainerRestartsInfo list result" where
  "gatherContainerRestarts ex startTime endTime =
     (case ex (containerRestartCountQuery (ToPrometheusTime (time_sub endTime startTime))) endTime of
        Inl err \<Rightarrow> Inl err
      | Inr samples \<Rightarrow> Inr (map (\<lambda>sample. \<lparr>cri_Info = \<lparr>ci_Container = label sample ''container'', ci_Pod = label sample ''pod'',
          ci_Namespace = label sample ''namespace''\<rparr>, cri_RestartCount = rounded sample\<rparr>) samples))"

fun allowed_loop :: "string \<Rightarrow> (restartCountOverride \<times> (string \<Rightarrow> bool)) list \<Rightarrow> int \<Rightarrow> int" where
  "allowed_loop pod [] allowedRestarts = allowedRestarts"
| "allowed_loop pod ((override, re) # overrides) allowedRestarts =
     allowed_loop pod overrides
       (if re pod \<and> allowedRestarts < ro_AllowedRestarts override then ro_AllowedRestarts override else allowedRestarts)"

definition fmt_container :: "ContainerInfo \<Rightarrow> string" where
  "fmt_container i = ''{Container:'' @ ci_Container i @ '' Pod:'' @ ci_Pod i @ '' Namespace:'' @ ci_Namespace i @ ''}''"

definition validateRestarts ::
    "ContainerRestartsInfo list \<Rightarrow> int \<Rightarrow> (restartCountOverride \<times> (string \<Rightarrow> bool)) list \<Rightarrow> go_error list" where
  "validateRestarts restartsInfos defaultAllowedRestarts overrides =
     List.map_filter (\<lambda>ri. let allowedRestarts = allowed_loop (ci_Pod (cri_Info ri)) overrides defaultAllowedRestarts
       in if cri_RestartCount ri > allowedRestarts
          then Some (ErrText (''restartCount('' @ fmt_container (cri_Info ri) @ '') = '' @ itoa (cri_RestartCount ri)
                 @ '', expected <= '' @ itoa allowedRestarts))
          else None) restartsInfos"

definition containerRestarts_Gather :: "prom_lib \<Rightarrow> executor \<Rightarrow> time \<Rightarrow> time \<Rightarrow> prom_config \<Rightarrow> gathered option" where
  "containerRestarts_Gather lib ex startTime endTime config = (case getOverrides lib config of
      None \<Rightarrow> None
    | Some (Inl err) \<Rightarrow> Some ([], Some err)
    | Some (Inr overrides) \<Rightarrow> (case GetIntOrDefault (c_Params config) ''defaultAllowedRestarts'' 0 of
        Inl err \<Rightarrow> Some ([], Some err)
      | Inr defaultAllowedRestarts \<Rightarrow> (case gatherContainerRestarts ex startTime endTime of
          Inl err \<Rightarrow> Some ([], Some err)
        | Inr containerRestarts \<Rightarrow> (case l_PrettyPrintJSON lib (RestartsDoc containerRestarts) of
            Inl err \<Rightarrow> Some ([], Some err)
          | Inr content \<Rightarrow>
              (let badContainers = validateRestarts containerRestarts defaultAllowedRestarts overrides
               in Some ([Some (CreateSummary (l_now lib) ''ContainerRestarts'' ''json'' content)],
                    if length badContainers > 0
                    then Some (NewMetricViolationError ''container restarts''
                           (''container restart count validation: '' @ fmt_errors badContainers))
                    else None))))))"

definition containerRestartsGatherer :: "unit gatherer" where
  "containerRestartsGatherer = \<lparr>g_Configure = (\<lambda>_ _ g. (g, None)),
     g_Gather = (\<lambda>lib ex startTime endTime config _. containerRestarts_Gather lib ex startTime endTime config),
     g_IsEnabled = (\<lambda>_. True), g_String = ''ContainerRestarts''\<rparr>"

subsection \<open>\<open>scheduling_throughput_prometheus.go\<close>\<close>

definition maxSchedulingThroughputQuery :: "string \<Rightarrow> string" where
  "maxSchedulingThroughputQuery d = ''max_over_time(sum(irate(apiserver_request_total{verb=\"POST\", resource=\"pods\", subresource=\"binding\",code=\"201\"}[1m]))[''
     @ d @ '':5s])''"

definition getThroughputSummary :: "executor \<Rightarrow> time \<Rightarrow> time \<Rightarrow> float64 result" where
  "getThroughputSummary ex startTime endTime =
     (case ex (maxSchedulingThroughputQuery (ToPrometheusTime (time_sub endTime startTime))) endTime of
        Inl err \<Rightarrow> Inl err
      | Inr [sample] \<Rightarrow> Inr (sm_Value sample)
      | Inr samples \<Rightarrow> Inl (ErrText (''got unexpected number of samples: '' @ utoa (length samples))))"

text \<open>
  The error of \<open>GetFloat64OrDefault\<close> comes with the value 0, which is below no throughput: it is
  returned beside the summary. \<open>fmt_f\<close> is the verb \<open>%f\<close>, used in messages only.
\<close>

definition f64_less :: "float64 \<Rightarrow> float64 \<Rightarrow> bool" where
  "f64_less a b \<longleftrightarrow> f64_le a b \<and> \<not> f64_le b a"

definition schedulingThroughput_Gather ::
    "(float64 \<Rightarrow> string) \<Rightarrow> prom_lib \<Rightarrow> executor \<Rightarrow> time \<Rightarrow> time \<Rightarrow> prom_config \<Rightarrow> gathered" where
  "schedulingThroughput_Gather fmt_f lib ex startTime endTime config = (case getThroughputSummary ex startTime endTime of
      Inl err \<Rightarrow> ([], Some err)
    | Inr throughput \<Rightarrow> (case l_PrettyPrintJSON lib (ThroughputDoc throughput) of
        Inl err \<Rightarrow> ([], Some err)
      | Inr content \<Rightarrow> ([Some (CreateSummary (l_now lib) ''SchedulingThroughputPrometheus'' ''json'' content)],
          (case GetFloat64OrDefault (l_ParseFloat lib) (c_Params config) ''threshold'' (Fin 0) of
             Inl err \<Rightarrow> Some err
           | Inr threshold \<Rightarrow>
               if f64_less (Fin 0) threshold \<and> f64_less throughput threshold
               then Some (NewMetricViolationError ''scheduler throughput_prometheus''
                      (''actual throughput '' @ fmt_f throughput @ '' lower than threshold '' @ fmt_f threshold))
               else None))))"

definition schedulingThroughputGatherer :: "(float64 \<Rightarrow> string) \<Rightarrow> unit gatherer" where
  "schedulingThroughputGatherer fmt_f = \<lparr>g_Configure = (\<lambda>_ _ g. (g, None)),
     g_Gather = (\<lambda>lib ex startTime endTime config _. Some (schedulingThroughput_Gather fmt_f lib ex startTime endTime config)),
     g_IsEnabled = (\<lambda>_. True), g_String = ''SchedulingThroughputPrometheus''\<rparr>"

subsection \<open>\<open>generic_query_measurement.go\<close>\<close>

definition query_Validate :: "GenericQuery \<Rightarrow> go_error option" where
  "query_Validate q =
     (if gq_Name q = [] then Some (ErrText ''name is required'')
      else if gq_Query q = [] then Some (ErrText ''query is required'')
      else None)"

fun queries_loop :: "nat \<Rightarrow> GenericQuery list \<Rightarrow> go_error option" where
  "queries_loop idx [] = None"
| "queries_loop idx (query # queries) = (case query_Validate query of
      Some err \<Rightarrow> Some (ErrText (''params.queries['' @ utoa idx @ ''] validation failed: '' @ Error err))
    | None \<Rightarrow> queries_loop (Suc idx) queries)"

definition StartParams_Validate :: "StartParams \<Rightarrow> go_error option" where
  "StartParams_Validate p =
     (if sp_MetricName p = [] then Some (ErrText ''metricName is required'')
      else if sp_MetricVersion p = [] then Some (ErrText ''metricVersion is required'')
      else if sp_Unit p = [] then Some (ErrText ''unit is required'')
      else queries_loop 0 (sp_Queries p))"

definition genericQuery_Configure :: "prom_lib \<Rightarrow> prom_config \<Rightarrow> StartParams \<Rightarrow> StartParams \<times> go_error option" where
  "genericQuery_Configure lib config g = (case ToStruct lib (c_Params config) g of
      (g', Some err) \<Rightarrow> (g', Some err)
    | (g', None) \<Rightarrow> (g', StartParams_Validate g'))"

text \<open>The labels of a sample by dimension; a repeated dimension keeps one entry.\<close>

definition key :: "Sample \<Rightarrow> string list \<Rightarrow> string \<times> (string, string) go_map" where
  "key sample dimensions = (''['' @ str_join '' '' (map (label sample) dimensions) @ '']'',
     foldl (\<lambda>m d. AList.update d (label sample d) m) [] dimensions)"

definition getOrCreate :: "(string, DataItem) go_map \<Rightarrow> string \<Rightarrow> string \<Rightarrow> (string, string) go_map \<Rightarrow> (string, DataItem) go_map \<times> DataItem" where
  "getOrCreate dataItems k unit labels = (case map_of dataItems k of
      Some dataItem \<Rightarrow> (dataItems, dataItem)
    | None \<Rightarrow> (let dataItem = \<lparr>di_Data = [], di_Unit = unit, di_Labels = labels\<rparr> in (AList.update k dataItem dataItems, dataItem)))"

definition validateSample :: "GenericQuery \<Rightarrow> float64 \<Rightarrow> go_error option" where
  "validateSample q val = (case gq_Threshold q of
      None \<Rightarrow> None
    | Some t \<Rightarrow>
        if gq_LowerBound q \<and> f64_less val t
        then Some (NewMetricViolationError (gq_Name q) (''sample below threshold: want: greater or equal than '' @ fmt_float t @ '', got: '' @ fmt_float val))
        else if \<not> gq_LowerBound q \<and> f64_less t val
        then Some (NewMetricViolationError (gq_Name q) (''sample above threshold: want: less or equal than '' @ fmt_float t @ '', got: '' @ fmt_float val))
        else None)"

definition generic_query :: "GenericQuery \<Rightarrow> executor \<Rightarrow> time \<Rightarrow> time \<Rightarrow> Sample list result" where
  "generic_query q ex startTime endTime =
     ex (ReplaceAll (gq_Query q) ''%v'' (ToPrometheusTime (time_sub endTime startTime))) endTime"

definition sample_step ::
    "StartParams \<Rightarrow> GenericQuery \<Rightarrow> (string, DataItem) go_map \<times> go_error list \<Rightarrow> Sample \<Rightarrow> (string, DataItem) go_map \<times> go_error list" where
  "sample_step g q = (\<lambda>(dataItems, errs) sample. case key sample (sp_Dimensions g) of (k, labels) \<Rightarrow>
     (case getOrCreate dataItems k (sp_Unit g) labels of (dataItems1, dataItem) \<Rightarrow>
       (let val = sm_Value sample;
            (dataItems2, errs1) = (case map_of (di_Data dataItem) (gq_Name q) of
                Some prevVal \<Rightarrow> (dataItems1, errs @ [NewMetricViolationError (gq_Name q) (''too many samples for '' @ k @ '': query returned ''
                  @ fmt_float val @ '' and '' @ fmt_float prevVal @ '', expected single value.'')])
              | None \<Rightarrow> (AList.update k (dataItem\<lparr>di_Data := AList.update (gq_Name q) val (di_Data dataItem)\<rparr>) dataItems1, errs))
        in (dataItems2, errs1 @ (case validateSample q val of None \<Rightarrow> [] | Some err \<Rightarrow> [err])))))"

fun generic_loop ::
    "StartParams \<Rightarrow> executor \<Rightarrow> time \<Rightarrow> time \<Rightarrow> GenericQuery list \<Rightarrow> (string, DataItem) go_map \<times> go_error list
       \<Rightarrow> ((string, DataItem) go_map \<times> go_error list) result" where
  "generic_loop g ex startTime endTime [] acc = Inr acc"
| "generic_loop g ex startTime endTime (q # qs) acc = (case generic_query q ex startTime endTime of
      Inl err \<Rightarrow> Inl err
    | Inr [] \<Rightarrow> generic_loop g ex startTime endTime qs (fst acc, snd acc @ (if gq_RequireSamples q
        then [NewMetricViolationError (gq_Name q) (''query returned no samples for '' @ sp_MetricName g)] else []))
    | Inr samples \<Rightarrow> generic_loop g ex startTime endTime qs (foldl (sample_step g q) acc samples))"

definition genericQuery_createSummary :: "prom_lib \<Rightarrow> StartParams \<Rightarrow> (string, DataItem) go_map \<Rightarrow> Summary result" where
  "genericQuery_createSummary lib g dataItems =
     (case l_PrettyPrintJSON lib (PerfDoc \<lparr>pd_Version = sp_MetricVersion g, pd_DataItems = map snd dataItems, pd_Labels = []\<rparr>) of
        Inl err \<Rightarrow> Inl err
      | Inr content \<Rightarrow> Inr (CreateSummary (l_now lib) (''GenericPrometheusQuery '' @ sp_MetricName g) ''json'' content))"

definition genericQuery_Gather :: "prom_lib \<Rightarrow> executor \<Rightarrow> time \<Rightarrow> time \<Rightarrow> StartParams \<Rightarrow> gathered" where
  "genericQuery_Gather lib ex startTime endTime g = (case generic_loop g ex startTime endTime (sp_Queries g) ([], []) of
      Inl err \<Rightarrow> ([], Some err)
    | Inr (dataItems, errs) \<Rightarrow> (case genericQuery_createSummary lib g dataItems of
        Inl err \<Rightarrow> ([], Some err)
      | Inr summary \<Rightarrow> ([Some summary],
          if length errs > 0 then Some (NewMetricViolationError (sp_MetricName g) (fmt_errors errs)) else None)))"

definition genericQueryGatherer :: "StartParams gatherer" where
  "genericQueryGatherer = \<lparr>g_Configure = genericQuery_Configure,
     g_Gather = (\<lambda>lib ex startTime endTime _ g. Some (genericQuery_Gather lib ex startTime endTime g)),
     g_IsEnabled = (\<lambda>_. True), g_String = ''GenericPrometheusQuery''\<rparr>"

subsection \<open>\<open>slos/network_programming.go\<close>\<close>

record netProg =
  np_enableViolations :: bool
  np_threshold :: duration

definition parse_float :: "prom_lib \<Rightarrow> string \<Rightarrow> float64 result" where
  "parse_float lib s = (case l_ParseFloat lib s of (f, None) \<Rightarrow> Inr f | (_, Some err) \<Rightarrow> Inl err)"

definition netProg_Configure :: "prom_lib \<Rightarrow> prom_config \<Rightarrow> netProg \<Rightarrow> netProg \<times> go_error option" where
  "netProg_Configure lib config n = (case GetBoolOrDefault (c_Params config) ''enableViolations'' False of
      Inl err \<Rightarrow> (n, Some err)
    | Inr enableViolations \<Rightarrow> (case getDuration (l_ParseDuration lib) (c_Params config) ''threshold'' of
        Inl err \<Rightarrow> (n\<lparr>np_enableViolations := enableViolations\<rparr>, Some err)
      | Inr threshold \<Rightarrow> (n\<lparr>np_enableViolations := enableViolations, np_threshold := threshold\<rparr>, None)))"

definition netProg_IsEnabled :: "prom_config \<Rightarrow> bool" where
  "netProg_IsEnabled config = (if \<not> c_ScrapeKubeProxy config then False else c_ProviderName config \<noteq> ''kubemark'')"

definition netProg_query :: "(Sample \<Rightarrow> string) \<Rightarrow> prom_lib \<Rightarrow> executor \<Rightarrow> time \<Rightarrow> time \<Rightarrow> LatencyMetric result" where
  "netProg_query fmt lib ex startTime endTime =
     (case ex (''quantile_over_time(0.99, kubeproxy:kubeproxy_network_programming_duration:histogram_quantile{}[''
            @ ToPrometheusTime (time_sub endTime startTime) @ ''])'') endTime of
        Inl err \<Rightarrow> Inl err
      | Inr samples \<Rightarrow>
          if length samples \<noteq> 3 then Inl (ErrText (''got unexpected number of samples: '' @ utoa (length samples)))
          else NewLatencyMetricPrometheus (parse_float lib) fmt samples)"

definition netProg_createSummary :: "prom_lib \<Rightarrow> netProg \<Rightarrow> LatencyMetric \<Rightarrow> Summary option \<times> go_error option" where
  "netProg_createSummary lib n latency =
     (case l_PrettyPrintJSON lib (PerfDoc \<lparr>pd_Version = ''v1'', pd_DataItems = [ToPerfData latency ''NetworkProgrammingLatency''], pd_Labels = []\<rparr>) of
        Inl err \<Rightarrow> (None, Some err)
      | Inr content \<Rightarrow> (Some (CreateSummary (l_now lib) ''NetworkProgrammingLatency'' ''json'' content),
          if np_enableViolations n
          then map_option (\<lambda>slosErr. NewMetricViolationError ''Network Programming Latency'' (Error slosErr)) (VerifyThreshold latency (np_threshold n))
          else None))"

definition netProg_Gather :: "(Sample \<Rightarrow> string) \<Rightarrow> prom_lib \<Rightarrow> executor \<Rightarrow> time \<Rightarrow> time \<Rightarrow> netProg \<Rightarrow> gathered" where
  "netProg_Gather fmt lib ex startTime endTime n = (case netProg_query fmt lib ex startTime endTime of
      Inl err \<Rightarrow> ([], Some err)
    | Inr latency \<Rightarrow> (case netProg_createSummary lib n latency of (summary, err) \<Rightarrow> ([summary], err)))"

definition netProgGatherer :: "(Sample \<Rightarrow> string) \<Rightarrow> netProg gatherer" where
  "netProgGatherer fmt = \<lparr>g_Configure = netProg_Configure,
     g_Gather = (\<lambda>lib ex startTime endTime _ n. Some (netProg_Gather fmt lib ex startTime endTime n)),
     g_IsEnabled = netProg_IsEnabled, g_String = ''NetworkProgrammingLatency''\<rparr>"

subsection \<open>\<open>nodelocaldns_latency_prometheus.go\<close> and \<open>metrics_server_prometheus.go\<close>\<close>

definition desiredPercentiles :: "float64 list" where
  "desiredPercentiles = [f64_round (5 / 10), f64_round (9 / 10), f64_round (99 / 100)]"

text \<open>The loop of both files: one query per percentile (\<open>tpl\<close>), the failures collected.\<close>

fun percentile_loop ::
    "executor \<Rightarrow> (string \<Rightarrow> string) \<Rightarrow> time \<Rightarrow> float64 list \<Rightarrow> LatencyMetric \<Rightarrow> ErrorList \<Rightarrow> LatencyMetric \<times> ErrorList" where
  "percentile_loop ex tpl endTime [] result errList = (result, errList)"
| "percentile_loop ex tpl endTime (perc # percs) result errList = (let query = tpl (fmt_float perc) in
     case ex query endTime of
       Inl err \<Rightarrow> percentile_loop ex tpl endTime percs result
         (ErrorList_Append errList [ErrText (''failed to execute query '' @ [CHR 0x22] @ query @ [CHR 0x22] @ '', err - '' @ Error err)])
     | Inr [sample] \<Rightarrow> percentile_loop ex tpl endTime percs (SetQuantile result perc (seconds (sm_Value sample))) errList
     | Inr samples \<Rightarrow> percentile_loop ex tpl endTime percs result
         (ErrorList_Append errList [ErrText (''got unexpected number of samples: '' @ utoa (length samples) @ '' for query '' @ [CHR 0x22] @ query @ [CHR 0x22])]))"

definition percentile_latencies :: "executor \<Rightarrow> (string \<Rightarrow> string) \<Rightarrow> time \<Rightarrow> LatencyMetric result" where
  "percentile_latencies ex tpl endTime =
     (case percentile_loop ex tpl endTime desiredPercentiles \<lparr>Perc50 = 0, Perc90 = 0, Perc99 = 0\<rparr> (NewErrorList []) of
        (result, errList) \<Rightarrow>
          if \<not> ErrorList_IsEmpty errList
          then Inl (ErrText (''failed to compute latencies, errors - '' @ ErrorList_Error errList))
          else Inr result)"

definition getPercentileLatencies :: "executor \<Rightarrow> time \<Rightarrow> time \<Rightarrow> LatencyMetric result" where
  "getPercentileLatencies ex startTime endTime = percentile_latencies ex
     (\<lambda>perc. ''histogram_quantile('' @ perc @ '', sum(rate(coredns_dns_request_duration_seconds_bucket[''
        @ ToPrometheusTime (time_sub endTime startTime) @ ''])) by (le))'') endTime"

definition validateResult :: "prom_lib \<Rightarrow> prom_config \<Rightarrow> LatencyMetric \<Rightarrow> go_error option" where
  "validateResult lib config result =
     (case GetDurationOrDefault (l_ParseDuration lib) (c_Params config) ''threshold'' (5 * second) of
        Inl err \<Rightarrow> Some err
      | Inr latencyUpperBound \<Rightarrow>
          if Perc99 result > latencyUpperBound
          then Some (NewMetricViolationError ''NodelocalDNS dns_request_duration_seconds''
                 (''99th Percentile Latency '' @ fmt_duration (Perc99 result) @ '' is higher than the upper bound of '' @ fmt_duration latencyUpperBound))
          else None)"

definition nodelocaldns_Gather :: "prom_lib \<Rightarrow> executor \<Rightarrow> time \<Rightarrow> time \<Rightarrow> prom_config \<Rightarrow> gathered" where
  "nodelocaldns_Gather lib ex startTime endTime config = (case getPercentileLatencies ex startTime endTime of
      Inl err \<Rightarrow> ([], Some err)
    | Inr result \<Rightarrow> (case l_PrettyPrintJSON lib (ItemDoc (ToPerfData result ''NodeLocalDNSLatencyPrometheus'')) of
        Inl err \<Rightarrow> ([], Some err)
      | Inr content \<Rightarrow> ([Some (CreateSummary (l_now lib) ''NodeLocalDNSLatencyPrometheus'' ''json'' content)], validateResult lib config result)))"

definition nodelocaldnsLatencyGatherer :: "unit gatherer" where
  "nodelocaldnsLatencyGatherer = \<lparr>g_Configure = (\<lambda>_ _ g. (g, None)),
     g_Gather = (\<lambda>lib ex startTime endTime config _. Some (nodelocaldns_Gather lib ex startTime endTime config)),
     g_IsEnabled = (\<lambda>_. True), g_String = ''NodeLocalDNSLatencyPrometheus''\<rparr>"

definition gatherLatencyMetrics :: "executor \<Rightarrow> time \<Rightarrow> time \<Rightarrow> prom_config \<Rightarrow> LatencyMetric result" where
  "gatherLatencyMetrics ex startTime endTime config = percentile_latencies ex
     (\<lambda>perc. ''histogram_quantile('' @ perc @ '', sum(rate('' @ case_prod GetApiserverSLI (c_ClusterVersion config)
        @ ''_bucket{group=\"metrics.k8s.io\",resource=\"pods\",scope=\"cluster\"}['' @ ToPrometheusTime (time_sub endTime startTime)
        @ ''])) by (le))'') endTime"

definition metricsServer_Gather :: "prom_lib \<Rightarrow> executor \<Rightarrow> time \<Rightarrow> time \<Rightarrow> prom_config \<Rightarrow> gathered" where
  "metricsServer_Gather lib ex startTime endTime config = (case gatherLatencyMetrics ex startTime endTime config of
      Inl err \<Rightarrow> ([], Some err)
    | Inr latencyMetrics \<Rightarrow> (case l_PrettyPrintJSON lib (LatencyDoc latencyMetrics) of
        Inl err \<Rightarrow> ([], Some err)
      | Inr content \<Rightarrow> ([Some (CreateSummary (l_now lib) ''MetricsServerPrometheus'' ''json'' content)], None)))"

definition metricsServerGatherer :: "unit gatherer" where
  "metricsServerGatherer = \<lparr>g_Configure = (\<lambda>_ _ g. (g, None)),
     g_Gather = (\<lambda>lib ex startTime endTime config _. Some (metricsServer_Gather lib ex startTime endTime config)),
     g_IsEnabled = c_SupportMetricsServerMetrics, g_String = ''MetricsServerPrometheus''\<rparr>"

subsection \<open>\<open>neg_latency_measurement.go\<close> and \<open>cilium_endpoint_propagation_delay.go\<close>\<close>

text \<open>
  Both files query the test in windows of ten minutes, from \<open>prevQueryTime\<close> to \<open>currQueryTime\<close>, until
  the window that ends at \<open>endTime\<close>; a query that fails is logged and its window is left out.
\<close>

definition queryInterval :: duration where
  "queryInterval = 10 * minute"

function window_loop :: "executor \<Rightarrow> (string \<Rightarrow> string) \<Rightarrow> time \<Rightarrow> time \<Rightarrow> time \<Rightarrow> Sample list \<Rightarrow> Sample list" where
  "window_loop ex tpl endTime prevQueryTime currQueryTime samples =
     (let curr = (if currQueryTime > endTime then endTime else currQueryTime);
          samples' = (case ex (tpl (ToPrometheusTime (time_sub curr prevQueryTime))) curr of
              Inr newSamples \<Rightarrow> samples @ newSamples | Inl _ \<Rightarrow> samples)
      in if curr = endTime then samples'
         else window_loop ex tpl endTime curr (curr + queryInterval) samples')"
  by pat_completeness auto
termination
  by (relation "measure (\<lambda>(_, _, endTime, _, curr, _). nat (endTime - curr))") (auto simp: queryInterval_def split: if_splits)

declare window_loop.simps [simp del]

definition set_bucket :: "string \<Rightarrow> (string, (string, int) go_map) go_map \<Rightarrow> Sample \<Rightarrow> (string, (string, int) go_map) go_map" where
  "set_bucket k result sample = (let buckets = (case map_of result k of None \<Rightarrow> [] | Some b \<Rightarrow> b)
     in AList.update k (AList.update (label sample ''le'') (rounded sample) buckets) result)"

definition negQueryInterval :: duration where
  "negQueryInterval = 10 * minute"

definition gatherAndProcessSamples ::
    "executor \<Rightarrow> time \<Rightarrow> time \<Rightarrow> string \<Rightarrow> (string \<Rightarrow> string) \<Rightarrow> (string, (string, int) go_map) go_map \<Rightarrow> (string, (string, int) go_map) go_map" where
  "gatherAndProcessSamples ex startTime endTime metricName queryTpl result =
     foldl (set_bucket metricName) result (window_loop ex queryTpl endTime startTime (startTime + negQueryInterval) [])"

definition negInitLatencyQuery :: "string \<Rightarrow> string" where
  "negInitLatencyQuery d = ''sum(sum_over_time(neg_controller_neg_initialization_duration_seconds_bucket['' @ d @ ''])) by (le)''"

definition negOpLatencyQuery :: "string \<Rightarrow> string \<Rightarrow> string" where
  "negOpLatencyQuery operation d = ''sum(sum_over_time(neg_controller_neg_operation_duration_seconds_bucket{operation=\"''
     @ operation @ ''\"}['' @ d @ ''])) by (le)''"

definition gatherMetrics :: "executor \<Rightarrow> time \<Rightarrow> time \<Rightarrow> (string, (string, int) go_map) go_map" where
  "gatherMetrics ex startTime endTime =
     gatherAndProcessSamples ex startTime endTime ''neg_detach_endpoint'' (negOpLatencyQuery ''Detach'')
       (gatherAndProcessSamples ex startTime endTime ''neg_attach_endpoint'' (negOpLatencyQuery ''Attach'')
          (gatherAndProcessSamples ex startTime endTime ''neg_initialization'' negInitLatencyQuery []))"

text \<open>\<open>strconv.FormatFloat(x, 'g', -1, 64)\<close> is the verb \<open>%v\<close> with the exponent already from 6 on.\<close>

definition format_pos_g :: "rat \<Rightarrow> string" where
  "format_pos_g x =
     (let (m, s) = shortest_decimal x; ds = utoa (nat m); e = int (length ds) - 1 + s
      in if 6 \<le> e \<and> e < 21
         then hd ds # (if tl ds = [] then [] else CHR ''.'' # tl ds) @ ''e+'' @ (if e < 10 then ''0'' else []) @ utoa (nat e)
         else fmt_pos_float x)"

fun FormatFloat :: "float64 \<Rightarrow> string" where
  "FormatFloat (Fin x) = (if x = 0 then ''0'' else if 0 < x then format_pos_g x else CHR ''-'' # format_pos_g (- x))"
| "FormatFloat x = fmt_float x"

definition param_or_default :: "prom_lib \<Rightarrow> prom_config \<Rightarrow> string \<Rightarrow> float64 \<Rightarrow> float64" where
  "param_or_default lib config name d = (case GetFloat64OrDefault (l_ParseFloat lib) (c_Params config) name d of
      Inl _ \<Rightarrow> d | Inr v \<Rightarrow> if v = Fin 0 then d else v)"

definition bucket :: "(string, int) go_map \<Rightarrow> string \<Rightarrow> int" where
  "bucket buckets le = (case map_of buckets le of None \<Rightarrow> 0 | Some n \<Rightarrow> n)"

definition percent :: "int \<Rightarrow> int \<Rightarrow> float64" where
  "percent accepted events = f64_mul (f64_div (f64_of_int accepted) (f64_of_int events)) (Fin 100)"

text \<open>The percentages in the messages are \<open>int(math.Floor(x))\<close>; \<open>fmt_buckets\<close> prints a map of buckets.\<close>

fun floor_text :: "float64 \<Rightarrow> string" where
  "floor_text (Fin x) = itoa (f64_to_int (Fin (of_int \<lfloor>x\<rfloor>)))"
| "floor_text x = itoa (f64_to_int x)"

definition validateNegSLO ::
    "((string, int) go_map \<Rightarrow> string) \<Rightarrow> prom_lib \<Rightarrow> prom_config \<Rightarrow> (string, (string, int) go_map) go_map
       \<Rightarrow> string \<Rightarrow> string \<Rightarrow> string \<Rightarrow> float64 \<Rightarrow> float64 \<Rightarrow> go_error option" where
  "validateNegSLO fmt_buckets lib config result metricName bucketName percentileName defaultBucketSLO defaultPercentileSLO =
     (let bucketSLO = FormatFloat (param_or_default lib config bucketName defaultBucketSLO);
          percentileSLO = param_or_default lib config percentileName defaultPercentileSLO
      in case map_of result metricName of
           None \<Rightarrow> None
         | Some buckets \<Rightarrow> (let totalEvents = bucket buckets ''+Inf'' in
             if totalEvents \<noteq> 0 then
               (let perc = percent (bucket buckets bucketSLO) totalEvents in
                if f64_less perc percentileSLO
                then Some (NewMetricViolationError metricName (''Updates for '' @ bucketSLO @ ''s latency is within '' @ floor_text perc
                       @ ''%, expected '' @ floor_text percentileSLO @ ''%, buckets:'' @ [CHR 0x0A] @ fmt_buckets buckets))
                else None)
             else None))"

definition validateNegSLOs ::
    "((string, int) go_map \<Rightarrow> string) \<Rightarrow> prom_lib \<Rightarrow> prom_config \<Rightarrow> (string, (string, int) go_map) go_map \<Rightarrow> go_error option" where
  "validateNegSLOs fmt_buckets lib config result =
     (case validateNegSLO fmt_buckets lib config result ''neg_initialization'' ''negInitBucketSLO'' ''negInitPercentileSLO'' (Fin 16) (Fin 95) of
        Some err \<Rightarrow> Some err
      | None \<Rightarrow> (case validateNegSLO fmt_buckets lib config result ''neg_attach_endpoint'' ''negAttachBucketSLO'' ''negAttachPercentileSLO'' (Fin 64) (Fin 95) of
          Some err \<Rightarrow> Some err
        | None \<Rightarrow> validateNegSLO fmt_buckets lib config result ''neg_detach_endpoint'' ''negDetachBucketSLO'' ''negDetachPercentileSLO'' (Fin 32) (Fin 95)))"

definition negLatency_Gather :: "((string, int) go_map \<Rightarrow> string) \<Rightarrow> prom_lib \<Rightarrow> executor \<Rightarrow> time \<Rightarrow> time \<Rightarrow> prom_config \<Rightarrow> gathered" where
  "negLatency_Gather fmt_buckets lib ex startTime endTime config =
     (let negMetrics = gatherMetrics ex startTime endTime
      in case l_PrettyPrintJSON lib (BucketsDoc negMetrics) of
           Inl err \<Rightarrow> ([], Some err)
         | Inr content \<Rightarrow> ([Some (CreateSummary (l_now lib) ''NegLatency'' ''json'' content)], validateNegSLOs fmt_buckets lib config negMetrics))"

definition negLatencyGatherer :: "((string, int) go_map \<Rightarrow> string) \<Rightarrow> unit gatherer" where
  "negLatencyGatherer fmt_buckets = \<lparr>g_Configure = (\<lambda>_ _ g. (g, None)),
     g_Gather = (\<lambda>lib ex startTime endTime config _. Some (negLatency_Gather fmt_buckets lib ex startTime endTime config)),
     g_IsEnabled = (\<lambda>_. True), g_String = ''NegLatency''\<rparr>"

definition gatherCepPropagationDelay :: "executor \<Rightarrow> time \<Rightarrow> time \<Rightarrow> (string, (string, int) go_map) go_map" where
  "gatherCepPropagationDelay ex startTime endTime =
     foldl (\<lambda>result sample. set_bucket (sm_Timestamp sample) result sample) []
       (window_loop ex (\<lambda>d. ''sum(sum_over_time(cilium_endpoint_propagation_delay_seconds_bucket['' @ d @ ''])) by (le)'')
          endTime startTime (startTime + queryInterval) [])"

fun cep_loop :: "((string, int) go_map \<Rightarrow> string) \<Rightarrow> string \<Rightarrow> float64 \<Rightarrow> (string, (string, int) go_map) go_map \<Rightarrow> go_error option" where
  "cep_loop fmt_buckets bucketSLO percentileSLO [] = None"
| "cep_loop fmt_buckets bucketSLO percentileSLO ((timestamp, buckets) # rest) =
     (let totalEvents = bucket buckets ''+Inf''; perc = percent (bucket buckets bucketSLO) totalEvents in
      if totalEvents \<noteq> 0 \<and> f64_less perc percentileSLO
      then Some (NewMetricViolationError ''Cilium endpoint propagation delay'' (timestamp @ '': updates for '' @ bucketSLO @ ''s delay is within ''
             @ floor_text perc @ ''%, expected '' @ floor_text percentileSLO @ ''%, buckets:'' @ [CHR 0x0A] @ fmt_buckets buckets))
      else cep_loop fmt_buckets bucketSLO percentileSLO rest)"

definition validateCEPPropagationDelay ::
    "((string, int) go_map \<Rightarrow> string) \<Rightarrow> prom_lib \<Rightarrow> prom_config \<Rightarrow> (string, (string, int) go_map) go_map \<Rightarrow> go_error option" where
  "validateCEPPropagationDelay fmt_buckets lib config result =
     cep_loop fmt_buckets (FormatFloat (param_or_default lib config ''bucketSLO'' (Fin 600))) (param_or_default lib config ''percentileSLO'' (Fin 95)) result"

definition cep_Gather :: "((string, int) go_map \<Rightarrow> string) \<Rightarrow> prom_lib \<Rightarrow> executor \<Rightarrow> time \<Rightarrow> time \<Rightarrow> prom_config \<Rightarrow> gathered" where
  "cep_Gather fmt_buckets lib ex startTime endTime config =
     (let cepPropagationDelay = gatherCepPropagationDelay ex startTime endTime
      in case l_PrettyPrintJSON lib (BucketsDoc cepPropagationDelay) of
           Inl err \<Rightarrow> ([], Some err)
         | Inr content \<Rightarrow> ([Some (CreateSummary (l_now lib) ''CiliumEndpointPropagationDelay'' ''json'' content)],
             validateCEPPropagationDelay fmt_buckets lib config cepPropagationDelay))"

definition cepPropagationDelayGatherer :: "((string, int) go_map \<Rightarrow> string) \<Rightarrow> unit gatherer" where
  "cepPropagationDelayGatherer fmt_buckets = \<lparr>g_Configure = (\<lambda>_ _ g. (g, None)),
     g_Gather = (\<lambda>lib ex startTime endTime config _. Some (cep_Gather fmt_buckets lib ex startTime endTime config)),
     g_IsEnabled = (\<lambda>_. True), g_String = ''CiliumEndpointPropagationDelay''\<rparr>"

end
