(* ===== verification/Gatherers_Correct.thy ===== *)
theory Gatherers_Correct
  imports Prometheus_Gatherers
begin

text \<open>
  The gatherers of Prometheus metrics meet the contract of a gatherer; what the restarts, the generic
  queries and the windowed queries report.
\<close>

subsection \<open>The contract\<close>

lemma plain_getDuration: "plain (getDuration p ps k)"
  by (auto simp: getDuration_def split: sum.splits dest: plain_getD)

lemma plain_GetDuration: "plain (GetDurationOrDefault p ps k d)"
  by (simp add: GetDurationOrDefault_def plain_or_default plain_getDuration)

lemma plain_GetFloat64: "plain (GetFloat64OrDefault p ps k d)"
proof -
  have "plain (getFloat64 p ps k)"
    by (auto simp: getFloat64_def type_assertion_error_def split: option.splits gval.splits prod.splits)
  then show ?thesis by (simp add: GetFloat64OrDefault_def plain_or_default)
qed

text \<open>The shape of a report: a plain error without summary, or one summary with any error but a plain one.\<close>

definition well_reported :: "gathered \<Rightarrow> bool" where
  "well_reported r \<longleftrightarrow> (\<exists>s. fst r = [Some s]) \<or> (snd r \<noteq> None \<and> \<not> violation (snd r))"

lemma well_reported_simps [simp]:
  "well_reported ([Some s], err)" "well_reported ([], Some e) = (\<not> IsMetricViolationError e)"
  by (simp_all add: well_reported_def)

lemma well_reported_case:
  "plain r \<Longrightarrow> (\<And>x. r = Inr x \<Longrightarrow> well_reported (f x)) \<Longrightarrow> well_reported (case r of Inl e \<Rightarrow> ([], Some e) | Inr x \<Rightarrow> f x)"
  by (cases r) simp_all

lemma gatherer_intro:
  assumes "\<And>lib config g. plain_lib lib \<Longrightarrow> \<not> violation (snd (g_Configure G lib config g))"
    and "\<And>lib ex st en config g r. plain_lib lib \<Longrightarrow> plain_executor ex \<Longrightarrow> g_Gather G lib ex st en config g = Some r \<Longrightarrow> well_reported r"
  shows "prometheus_gatherer G"
proof
  fix lib ex st en config g ss err
  assume "plain_lib lib" "plain_executor ex" "g_Gather G lib ex st en config g = Some (ss, err)" and e: "err = None \<or> violation err"
  then have "well_reported (ss, err)" using assms(2) by blast
  then show "\<exists>s. ss = [Some s]" using e by (auto simp: well_reported_def)
qed (rule assms(1))

lemma plain_json: "plain_lib lib \<Longrightarrow> plain (l_PrettyPrintJSON lib d)"
  by (simp add: plain_lib_def)

interpretation container_restarts: prometheus_gatherer containerRestartsGatherer
proof (rule gatherer_intro)
  fix lib ex st en config and g :: unit and r
  assume lib: "plain_lib lib" and ex: "plain_executor ex"
    and g: "g_Gather containerRestartsGatherer lib ex st en config g = Some r"
  have overrides: "plain r" if "getOverrides lib config = Some r" for r
    using that plain_libD(4) [OF lib] by (auto simp: getOverrides_def split: sum.splits dest: plain_getD)
  have restarts: "plain (gatherContainerRestarts ex st en)"
    unfolding gatherContainerRestarts_def by (intro plain_case plain_query [OF ex]) simp
  show "well_reported r"
    using g overrides restarts [THEN plainD] plain_libD(2) [OF lib]
    by (auto simp: containerRestartsGatherer_def containerRestarts_Gather_def Let_def split: option.splits sum.splits dest: plain_getD)
qed (simp add: containerRestartsGatherer_def)

interpretation scheduling_throughput: prometheus_gatherer "schedulingThroughputGatherer fmt_f"
proof (rule gatherer_intro)
  fix lib ex st en config and g :: unit and r
  assume lib: "plain_lib lib" and ex: "plain_executor ex"
    and g: "g_Gather (schedulingThroughputGatherer fmt_f) lib ex st en config g = Some r"
  have "plain (getThroughputSummary ex st en)"
    using plain_executorD [OF ex] by (auto simp: getThroughputSummary_def split: sum.splits list.splits)
  then have "well_reported (schedulingThroughput_Gather fmt_f lib ex st en config)"
    unfolding schedulingThroughput_Gather_def by (intro well_reported_case plain_json [OF lib]) simp_all
  then show "well_reported r" using g by (simp add: schedulingThroughputGatherer_def)
qed (simp add: schedulingThroughputGatherer_def)

lemma plain_generic_loop: "plain_executor ex \<Longrightarrow> plain (generic_loop g ex st en qs acc)"
  by (induction qs arbitrary: acc) (auto simp: generic_query_def split: sum.splits list.splits dest: plain_executorD)

lemma StartParams_Validate_plain: "\<not> violation (StartParams_Validate p)"
proof -
  have "\<not> violation (queries_loop i qs)" for i qs
    by (induction qs arbitrary: i) (auto split: option.splits)
  then show ?thesis by (simp add: StartParams_Validate_def)
qed

interpretation generic_query: prometheus_gatherer genericQueryGatherer
proof (rule gatherer_intro)
  show "\<not> violation (snd (g_Configure genericQueryGatherer lib config g))" for lib config g
    using StartParams_Validate_plain
    by (auto simp: genericQueryGatherer_def genericQuery_Configure_def ToStruct_def split: sum.splits prod.splits option.splits)
next
  fix lib ex st en config g r
  assume lib: "plain_lib lib" and ex: "plain_executor ex" and g: "g_Gather genericQueryGatherer lib ex st en config g = Some r"
  have "plain (genericQuery_createSummary lib g d)" for d
    unfolding genericQuery_createSummary_def by (intro plain_case plain_json [OF lib]) simp
  then have "well_reported (genericQuery_Gather lib ex st en g)"
    using plain_generic_loop [OF ex] unfolding genericQuery_Gather_def
    by (auto intro!: well_reported_case split: prod.splits)
  then show "well_reported r" using g by (simp add: genericQueryGatherer_def)
qed

interpretation network_programming: prometheus_gatherer "netProgGatherer fmt"
proof (rule gatherer_intro)
  show "\<not> violation (snd (g_Configure (netProgGatherer fmt) lib config g))" for lib config g
    using plain_getDuration [THEN plainD]
    by (auto simp: netProgGatherer_def netProg_Configure_def split: sum.splits dest: plain_getD)
next
  fix lib ex st en config g r
  assume lib: "plain_lib lib" and ex: "plain_executor ex" and g: "g_Gather (netProgGatherer fmt) lib ex st en config g = Some r"
  have "plain (prometheus_loop (parse_float lib) fmt m ss)" for m ss
    using plain_libD(5) [OF lib]
    by (induction ss arbitrary: m) (auto simp: parse_float_def split: option.splits sum.splits prod.splits)
  then have q: "plain (netProg_query fmt lib ex st en)"
    unfolding netProg_query_def by (intro plain_case plain_query [OF ex]) (simp add: NewLatencyMetricPrometheus_def)
  have "well_reported (netProg_Gather fmt lib ex st en g)"
    unfolding netProg_Gather_def
    using plain_json [OF lib, THEN plainD]
    by (intro well_reported_case q) (auto simp: netProg_createSummary_def well_reported_def split: sum.splits)
  then show "well_reported r" using g by (simp add: netProgGatherer_def)
qed

lemma plain_percentiles: "plain (percentile_latencies ex tpl en)"
  by (simp add: percentile_latencies_def split: prod.splits)

interpretation nodelocaldns: prometheus_gatherer nodelocaldnsLatencyGatherer
proof (rule gatherer_intro)
  fix lib ex st en config and g :: unit and r
  assume lib: "plain_lib lib" and g: "g_Gather nodelocaldnsLatencyGatherer lib ex st en config g = Some r"
  have "well_reported (nodelocaldns_Gather lib ex st en config)"
    unfolding nodelocaldns_Gather_def getPercentileLatencies_def
    by (intro well_reported_case plain_percentiles plain_json [OF lib]) simp
  then show "well_reported r" using g by (simp add: nodelocaldnsLatencyGatherer_def)
qed (simp add: nodelocaldnsLatencyGatherer_def)

interpretation metrics_server: prometheus_gatherer metricsServerGatherer
proof (rule gatherer_intro)
  fix lib ex st en config and g :: unit and r
  assume lib: "plain_lib lib" and g: "g_Gather metricsServerGatherer lib ex st en config g = Some r"
  have "well_reported (metricsServer_Gather lib ex st en config)"
    unfolding metricsServer_Gather_def gatherLatencyMetrics_def
    by (intro well_reported_case plain_percentiles plain_json [OF lib]) simp
  then show "well_reported r" using g by (simp add: metricsServerGatherer_def)
qed (simp add: metricsServerGatherer_def)

interpretation neg_latency: prometheus_gatherer "negLatencyGatherer fmt_buckets"
proof (rule gatherer_intro)
  fix lib ex st en config and g :: unit and r
  assume lib: "plain_lib lib" and g: "g_Gather (negLatencyGatherer fmt_buckets) lib ex st en config g = Some r"
  have "well_reported (negLatency_Gather fmt_buckets lib ex st en config)"
    unfolding negLatency_Gather_def Let_def by (intro well_reported_case plain_json [OF lib]) simp
  then show "well_reported r" using g by (simp add: negLatencyGatherer_def)
qed (simp add: negLatencyGatherer_def)

interpretation cilium_endpoints: prometheus_gatherer "cepPropagationDelayGatherer fmt_buckets"
proof (rule gatherer_intro)
  fix lib ex st en config and g :: unit and r
  assume lib: "plain_lib lib" and g: "g_Gather (cepPropagationDelayGatherer fmt_buckets) lib ex st en config g = Some r"
  have "well_reported (cep_Gather fmt_buckets lib ex st en config)"
    unfolding cep_Gather_def Let_def by (intro well_reported_case plain_json [OF lib]) simp
  then show "well_reported r" using g by (simp add: cepPropagationDelayGatherer_def)
qed (simp add: cepPropagationDelayGatherer_def)

subsection \<open>Every measurement\<close>

text \<open>The gatherers without a state of their own, as the \<open>init\<close> functions register them.\<close>

definition registered_gatherers :: "(float64 \<Rightarrow> string) \<Rightarrow> ((string, int) go_map \<Rightarrow> string) \<Rightarrow> unit gatherer list" where
  "registered_gatherers fmt_f fmt_buckets = [apiResponsivenessGatherer, containerRestartsGatherer, schedulingThroughputGatherer fmt_f,
     nodelocaldnsLatencyGatherer, metricsServerGatherer, negLatencyGatherer fmt_buckets, cepPropagationDelayGatherer fmt_buckets]"

text \<open>
Whatever the server answers, a Prometheus measurement hands the manager at most one summary and
  never a nil one; it reports a metric violation only together with its summary and only when
  violations are enabled, and any other error without a summary.
\<close>

theorem prometheus_measurement_reports:
  assumes "G \<in> set (registered_gatherers fmt_f fmt_buckets)" and "plain_lib lib" and "plain_executor ex"
    and "case managed of Inl _ \<Rightarrow> True | Inr e \<Rightarrow> plain_executor e"
    and "prometheusMeasurement_Execute G lib ex managed config m = Some (m', ss, err)"
  shows "(ss = [] \<or> (\<exists>s. ss = [Some s]))
     \<and> (violation err \<longrightarrow> ss \<noteq> [] \<and> GetBoolOrDefault (c_Params config) ''enableViolations'' False = Inr True)
     \<and> (\<not> violation err \<and> err \<noteq> None \<longrightarrow> ss = [])"
proof -
  have managed: "managed = Inr e \<Longrightarrow> plain_executor e" for e using assms(4) by simp
  have "prometheus_gatherer G"
    using assms(1) api_responsiveness.prometheus_gatherer_axioms container_restarts.prometheus_gatherer_axioms
      scheduling_throughput.prometheus_gatherer_axioms nodelocaldns.prometheus_gatherer_axioms
      metrics_server.prometheus_gatherer_axioms neg_latency.prometheus_gatherer_axioms cilium_endpoints.prometheus_gatherer_axioms
    by (auto simp: registered_gatherers_def)
  from prometheus_gatherer.Execute_outcome [OF this assms(2,3) managed assms(5)]
  have "reported config ss err" .
  then show ?thesis unfolding reported_def .
qed

theorem prometheus_measurement_reports_witness:
  "let m = CreatePrometheusMeasurement (); config = empty_config [(''action'', VString ''gather''), (''enableViolations'', VBool True)];
       ex = (\<lambda>_ _. Inr [\<lparr>sm_Metric = [], sm_Value = Fin 1, sm_Timestamp = []\<rparr>])
   in \<exists>s. prometheusMeasurement_Execute containerRestartsGatherer sample_prom_lib ex (Inl ErrCritical) config m
       = Some (m, [Some s], Some (MetricViolationError ''container restarts''
           ''container restart count validation: [restartCount({Container: Pod: Namespace:}) = 1, expected <= 0]''))"
proof -
  let ?m = "CreatePrometheusMeasurement ()"
  let ?config = "empty_config [(''action'', VString ''gather''), (''enableViolations'', VBool True)]"
  let ?ex = "(\<lambda>_ _. Inr [\<lparr>sm_Metric = [], sm_Value = Fin 1, sm_Timestamp = []\<rparr>]) :: executor"
  let ?err = "MetricViolationError ''container restarts''
           ''container restart count validation: [restartCount({Container: Pod: Namespace:}) = 1, expected <= 0]''"
  let ?r = "\<lparr>cri_Info = \<lparr>ci_Container = [], ci_Pod = [], ci_Namespace = []\<rparr>, cri_RestartCount = 1\<rparr>"
  have num: "itoa 1 = ''1''" "itoa 0 = ''0''" by code_simp+
  have "\<lfloor>3 / 2 :: rat\<rfloor> = 1" by (simp add: floor_eq_iff)
  then have restarts: "gatherContainerRestarts ?ex st en = Inr [?r]" for st en
    by (simp add: gatherContainerRestarts_def label_def rounded_def rat_trunc_def)
  have gather: "containerRestarts_Gather sample_prom_lib ?ex st en ?config = Some ([Some (CreateSummary 5000000000 ''ContainerRestarts'' ''json'' ''{}'')], Some ?err)" for st en
    unfolding containerRestarts_Gather_def restarts
    by (simp add: getOverrides_def empty_config_def GetStringOrDefault_def getString_def GetIntOrDefault_def getInt_def or_default_def
        sample_prom_lib_def validateRestarts_def List.map_filter_def NewMetricViolationError_def fmt_errors_def fmt_container_def num)
  have ps: "GetStringOrDefault (c_Params ?config) ''prometheusClient'' ''inCluster'' = Inr ''inCluster''" "c_hasPrometheusFramework ?config"
      "GetBoolOrDefault (c_Params ?config) ''enableViolations'' False = Inr True" "getString (c_Params ?config) ''action'' = Inr ''gather''"
    by (simp_all add: empty_config_def GetStringOrDefault_def getString_def GetBoolOrDefault_def getBool_def or_default_def)
  have "\<exists>ss. prometheusMeasurement_Execute containerRestartsGatherer sample_prom_lib ?ex (Inl ErrCritical) ?config ?m = Some (?m, ss, Some ?err)"
    by (simp add: prometheusMeasurement_Execute_def execute_gather_def containerRestartsGatherer_def gather ps)
  then obtain ss where e: "prometheusMeasurement_Execute containerRestartsGatherer sample_prom_lib ?ex (Inl ErrCritical) ?config ?m = Some (?m, ss, Some ?err)"
    by blast
  have "containerRestartsGatherer \<in> set (registered_gatherers fmt_float (\<lambda>_. []))" by (simp add: registered_gatherers_def)
  moreover have "plain_lib sample_prom_lib" "plain_executor ?ex" by (simp_all add: plain_lib_def sample_prom_lib_def plain_executor_def)
  ultimately have "ss = [] \<or> (\<exists>s. ss = [Some s])" "violation (Some ?err) \<longrightarrow> ss \<noteq> []"
    using prometheus_measurement_reports [OF _ _ _ _ e] by auto
  then show ?thesis using e by (auto simp: Let_def)
qed

subsection \<open>Container restarts\<close>

lemma allowed_loop_le:
  "n \<le> allowed_loop pod ovs a \<longleftrightarrow> n \<le> a \<or> (\<exists>(ov, re) \<in> set ovs. re pod \<and> n \<le> ro_AllowedRestarts ov)"
proof (induction ovs arbitrary: a)
  case (Cons x ovs)
  obtain ov re where x: "x = (ov, re)" by (cases x)
  let ?b = "if re pod \<and> a < ro_AllowedRestarts ov then ro_AllowedRestarts ov else a"
  have "n \<le> allowed_loop pod (x # ovs) a \<longleftrightarrow> n \<le> ?b \<or> (\<exists>(ov, re) \<in> set ovs. re pod \<and> n \<le> ro_AllowedRestarts ov)"
    unfolding x by (simp add: Cons.IH)
  moreover have "n \<le> ?b \<longleftrightarrow> n \<le> a \<or> (re pod \<and> n \<le> ro_AllowedRestarts ov)" by (cases "re pod") auto
  ultimately show ?case by (simp add: x disj_assoc)
qed simp

text \<open>
The restarts pass exactly when every container has restarted at most the default number of
  times or at most as often as some override allows whose pattern matches the name of its pod. The
  container and the namespace of an override play no part.
\<close>

theorem container_restarts_verdict:
  assumes "getOverrides lib config = Some (Inr overrides)" and "GetIntOrDefault (c_Params config) ''defaultAllowedRestarts'' 0 = Inr d"
    and "gatherContainerRestarts ex st en = Inr restarts" and "l_PrettyPrintJSON lib (RestartsDoc restarts) = Inr content"
  shows "\<exists>err. containerRestarts_Gather lib ex st en config = Some ([Some (CreateSummary (l_now lib) ''ContainerRestarts'' ''json'' content)], err)
    \<and> (err = None \<longleftrightarrow> (\<forall>r \<in> set restarts. cri_RestartCount r \<le> d
         \<or> (\<exists>(ov, re) \<in> set overrides. re (ci_Pod (cri_Info r)) \<and> cri_RestartCount r \<le> ro_AllowedRestarts ov)))
    \<and> (err \<noteq> None \<longrightarrow> violation err)"
proof -
  have "validateRestarts restarts d overrides = [] \<longleftrightarrow>
      (\<forall>r \<in> set restarts. cri_RestartCount r \<le> allowed_loop (ci_Pod (cri_Info r)) overrides d)"
    by (auto simp: validateRestarts_def List.map_filter_def filter_empty_conv Let_def)
  then show ?thesis
    using assms by (simp add: containerRestarts_Gather_def Let_def NewMetricViolationError_def allowed_loop_le)
qed

theorem container_restarts_verdict_witness:
  "\<exists>err. containerRestarts_Gather (sample_prom_lib\<lparr>l_overrides := \<lambda>_. Inr [\<lparr>ro_Info = \<lparr>ci_Container = ''c'', ci_Pod = ''p'', ci_Namespace = ''n''\<rparr>,
       ro_AllowedRestarts = 2\<rparr>], l_Compile := \<lambda>_. Some (\<lambda>pod. pod = ''p'')\<rparr>)
      (\<lambda>_ _. Inr [\<lparr>sm_Metric = [(''pod'', ''p''), (''container'', ''other'')], sm_Value = Fin 2, sm_Timestamp = []\<rparr>]) 0 second (empty_config [])
    = Some ([Some (CreateSummary 5000000000 ''ContainerRestarts'' ''json'' ''{}'')], err) \<and> err = None"
proof -
  let ?ov = "\<lparr>ro_Info = \<lparr>ci_Container = ''c'', ci_Pod = ''p'', ci_Namespace = ''n''\<rparr>, ro_AllowedRestarts = 2\<rparr>"
  let ?lib = "sample_prom_lib\<lparr>l_overrides := \<lambda>_. Inr [?ov], l_Compile := \<lambda>_. Some (\<lambda>pod. pod = ''p'')\<rparr>"
  let ?ex = "(\<lambda>_ _. Inr [\<lparr>sm_Metric = [(''pod'', ''p''), (''container'', ''other'')], sm_Value = Fin 2, sm_Timestamp = []\<rparr>]) :: executor"
  let ?r = "\<lparr>cri_Info = \<lparr>ci_Container = ''other'', ci_Pod = ''p'', ci_Namespace = []\<rparr>, cri_RestartCount = 2\<rparr>"
  have "GetStringOrDefault (c_Params (empty_config [])) ''customAllowedRestarts'' [] = Inr []"
    by (simp add: empty_config_def GetStringOrDefault_def getString_def or_default_def)
  then have overrides: "getOverrides ?lib (empty_config []) = Some (Inr [(?ov, \<lambda>pod. pod = ''p'')])" by (simp add: getOverrides_def)
  have default: "GetIntOrDefault (c_Params (empty_config [])) ''defaultAllowedRestarts'' 0 = Inr 0"
    by (simp add: empty_config_def GetIntOrDefault_def getInt_def or_default_def)
  have "\<lfloor>5 / 2 :: rat\<rfloor> = 2" by (simp add: floor_eq_iff)
  then have restarts: "gatherContainerRestarts ?ex 0 second = Inr [?r]"
    by (simp add: gatherContainerRestarts_def label_def rounded_def rat_trunc_def)
  have json: "l_PrettyPrintJSON ?lib (RestartsDoc [?r]) = Inr ''{}''" and now: "l_now ?lib = 5000000000" by (simp_all add: sample_prom_lib_def)
  show ?thesis using container_restarts_verdict [OF overrides default restarts json] unfolding now by simp
qed

subsection \<open>The windows\<close>

definition answered :: "executor \<Rightarrow> (string \<Rightarrow> string) \<Rightarrow> time \<Rightarrow> time \<Rightarrow> Sample list" where
  "answered ex tpl from to = (case ex (tpl (ToPrometheusTime (time_sub to from))) to of Inr samples \<Rightarrow> samples | Inl _ \<Rightarrow> [])"

definition window_count :: "time \<Rightarrow> time \<Rightarrow> nat" where
  "window_count st en = nat ((en - st + queryInterval - 1) div queryInterval)"

lemma queryInterval_pos: "0 < queryInterval"
  by (simp add: queryInterval_def)

lemma le_zdiv_iff: "0 < d \<Longrightarrow> n \<le> x div d \<longleftrightarrow> n * d \<le> x" for d n x :: int
proof
  assume d: "0 < d" and "n \<le> x div d"
  then have "n * d \<le> x div d * d" by (simp add: mult_right_mono)
  also have "\<dots> \<le> x" using d pos_mod_sign [of d x] div_mult_mod_eq [of x d] by linarith
  finally show "n * d \<le> x" .
next
  assume d: "0 < d" and "n * d \<le> x"
  then have "n * d div d \<le> x div d" by (intro zdiv_mono1)
  then show "n \<le> x div d" using d by simp
qed

lemma window_count_bounds:
  assumes "st < en"
  shows "int k < int (window_count st en) \<longleftrightarrow> st + int k * queryInterval < en"
proof -
  have "0 \<le> (en - st + queryInterval - 1) div queryInterval"
    using assms queryInterval_pos by (intro pos_imp_zdiv_nonneg_iff [THEN iffD2]) simp_all
  then have "int (window_count st en) = (en - st + queryInterval - 1) div queryInterval"
    by (simp add: window_count_def)
  moreover have "int k < x \<longleftrightarrow> int k + 1 \<le> x" for x by linarith
  ultimately have "int k < int (window_count st en) \<longleftrightarrow> (int k + 1) * queryInterval \<le> en - st + queryInterval - 1"
    using le_zdiv_iff [OF queryInterval_pos] by simp
  also have "\<dots> \<longleftrightarrow> st + int k * queryInterval < en" unfolding distrib_right by linarith
  finally show ?thesis .
qed

lemma window_index:
  "st + k * queryInterval \<le> t \<and> t < st + (1 + k) * queryInterval \<longleftrightarrow> k = (t - st) div queryInterval"
proof -
  have "k = (t - st) div queryInterval \<longleftrightarrow> k \<le> (t - st) div queryInterval \<and> \<not> k + 1 \<le> (t - st) div queryInterval"
    by linarith
  also have "\<dots> \<longleftrightarrow> k * queryInterval \<le> t - st \<and> \<not> (k + 1) * queryInterval \<le> t - st"
    by (simp only: le_zdiv_iff [OF queryInterval_pos])
  finally show ?thesis by (simp add: add.commute) linarith
qed

lemma window_loop_step:
  "window_loop ex tpl en prev t samples = (let c = min en t; samples' = samples @ answered ex tpl prev c
     in if c = en then samples' else window_loop ex tpl en c (c + queryInterval) samples')"
proof -
  have c: "(if t > en then en else t) = min en t" by (simp add: min_def)
  have "(case ex (tpl (ToPrometheusTime (time_sub c prev))) c of Inl _ \<Rightarrow> samples | Inr new \<Rightarrow> samples @ new) = samples @ answered ex tpl prev c" for c
    by (simp add: answered_def split: sum.splits)
  then show ?thesis by (subst window_loop.simps) (simp only: c)
qed

lemma window_loop_windows:
  assumes "st < en" and "j < window_count st en"
  shows "window_loop ex tpl en (st + int j * queryInterval) (st + int (Suc j) * queryInterval) samples =
    samples @ concat (map (\<lambda>k. answered ex tpl (st + int k * queryInterval) (min en (st + int (Suc k) * queryInterval))) [j..<window_count st en])"
  using assms(2)
proof (induction "window_count st en - j" arbitrary: j samples)
  case (Suc n)
  let ?I = queryInterval
  let ?curr = "min en (st + int (Suc j) * ?I)"
  have ups: "[j..<window_count st en] = j # [Suc j..<window_count st en]" using Suc.prems by (simp add: upt_conv_Cons)
  show ?case
  proof (cases "Suc j < window_count st en")
    case True
    then have "st + int (Suc j) * ?I < en" using window_count_bounds [OF assms(1), of "Suc j"] by simp
    then have c: "?curr = st + int (Suc j) * ?I" "?curr \<noteq> en" by simp_all
    have next_window: "st + int (Suc j) * ?I + ?I = st + int (Suc (Suc j)) * ?I" by (simp add: algebra_simps)
    have "window_loop ex tpl en (st + int j * ?I) (st + int (Suc j) * ?I) samples =
        window_loop ex tpl en (st + int (Suc j) * ?I) (st + int (Suc (Suc j)) * ?I) (samples @ answered ex tpl (st + int j * ?I) ?curr)"
      by (subst window_loop_step) (use c in \<open>simp only: Let_def if_False next_window\<close>)
    also have "\<dots> = samples @ answered ex tpl (st + int j * ?I) ?curr
        @ concat (map (\<lambda>k. answered ex tpl (st + int k * ?I) (min en (st + int (Suc k) * ?I))) [Suc j..<window_count st en])"
      using Suc.hyps(1) [of "Suc j"] Suc.hyps(2) True by simp
    finally show ?thesis by (simp add: ups)
  next
    case False
    then have last: "[j..<window_count st en] = [j]" using Suc.prems by (simp add: ups)
    have "\<not> st + int (Suc j) * ?I < en" using window_count_bounds [OF assms(1), of "Suc j"] False by simp
    then have "?curr = en" by simp
    then show ?thesis
      by (subst window_loop_step) (simp only: Let_def last if_True simp_thms list.map concat.simps append_Nil2)
  qed
qed simp

text \<open>
The window loop of the NEG and Cilium measurements returns, for every executor, and its samples
  are those of the answered windows in order: the test is cut without gap or overlap into windows of
  ten minutes, the last one ending with the test, and a window whose query fails is left out.
\<close>

theorem window_loop_tiles:
  assumes "st < en"
  shows "window_loop ex tpl en st (st + queryInterval) [] =
      concat (map (\<lambda>k. answered ex tpl (st + int k * queryInterval) (min en (st + int (Suc k) * queryInterval))) [0..<window_count st en])
    \<and> (\<forall>t. st \<le> t \<and> t < en \<longrightarrow> (\<exists>!k. k < window_count st en
         \<and> st + int k * queryInterval \<le> t \<and> t < min en (st + int (Suc k) * queryInterval)))
    \<and> min en (st + int (window_count st en) * queryInterval) = en"
proof -
  have pos: "0 < window_count st en" using window_count_bounds [OF assms, of 0] assms by simp
  have one: "\<exists>!k. k < window_count st en \<and> st + int k * queryInterval \<le> t \<and> t < min en (st + int (Suc k) * queryInterval)"
    if t: "st \<le> t" "t < en" for t
  proof -
    let ?k = "nat ((t - st) div queryInterval)"
    have k: "int ?k = (t - st) div queryInterval"
      using t queryInterval_pos by (simp add: pos_imp_zdiv_nonneg_iff)
    have "st + int ?k * queryInterval \<le> t \<and> t < st + int (Suc ?k) * queryInterval"
      using window_index [of st "int ?k" t] unfolding of_nat_Suc k by blast
    moreover have "?k < window_count st en"
      using iffD2 [OF window_count_bounds [OF assms]] calculation t by (metis le_less_trans of_nat_less_iff)
    moreover have "j = ?k" if "st + int j * queryInterval \<le> t \<and> t < st + int (Suc j) * queryInterval" for j
      using that window_index [of st "int j" t] k unfolding of_nat_Suc by linarith
    ultimately show ?thesis unfolding min_less_iff_conj using t by blast
  qed
  have "\<not> st + int (window_count st en) * queryInterval < en" using window_count_bounds [OF assms, of "window_count st en"] by simp
  then have "min en (st + int (window_count st en) * queryInterval) = en" by simp
  moreover have "window_loop ex tpl en st (st + queryInterval) [] =
      concat (map (\<lambda>k. answered ex tpl (st + int k * queryInterval) (min en (st + int (Suc k) * queryInterval))) [0..<window_count st en])"
    using window_loop_windows [OF assms pos, of ex tpl "[]"] by (simp only: of_nat_0 of_nat_Suc) simp
  ultimately show ?thesis using one by blast
qed

theorem window_loop_tiles_witness:
  "(0 :: time) < 25 * minute \<and> window_loop (\<lambda>q t. Inr [\<lparr>sm_Metric = [], sm_Value = Fin 0, sm_Timestamp = q\<rparr>]) id (25 * minute) 0 queryInterval []
     = map (\<lambda>q. \<lparr>sm_Metric = [], sm_Value = Fin 0, sm_Timestamp = q\<rparr>) [''600s'', ''600s'', ''300s'']"
proof -
  have n: "window_count 0 1500000000000 = 3" by (simp add: window_count_def queryInterval_def)
  have three: "[0..<3] = [0, 1, 2]" by (simp add: upt_rec)
  have "itoa 600 = ''600''" "itoa 300 = ''300''" by code_simp+
  then have q: "ToPrometheusTime (time_sub (600 * second) 0) = ''600s''" "ToPrometheusTime (time_sub (1200 * second) (600 * second)) = ''600s''"
    "ToPrometheusTime (time_sub (1500 * second) (1200 * second)) = ''300s''"
    by (simp_all add: ToPrometheusTime_def time_sub_def max_duration_def min_duration_def)
  show ?thesis
    using conjunct1 [OF window_loop_tiles [of 0 "25 * minute" "\<lambda>q t. Inr [\<lparr>sm_Metric = [], sm_Value = Fin 0, sm_Timestamp = q\<rparr>]" id]]
    using q by (simp add: n three answered_def queryInterval_def)
qed

end
