(* ===== verification/Spec2Isabelle.thy ===== *)
theory Spec2Isabelle
  imports Framework_Objects Framework_Namespaces Cluster Pods Dependencies
    Config Template_Functions Modifier Chaos Indexer Test_Correct Controlled_Pods_Correct
    Gatherers_Correct
begin

text \<open>
  A verification development for ClusterLoader2, a load-testing tool for Kubernetes clusters.

  Theories. \<open>Go_Prelude\<close>, \<open>Go_Float\<close> and \<open>Go_Errors\<close> hold the parts of the language the
  source uses: decimal text, maps, truncating division, binary64 rounding, error values
  (\<open>pkg/errors\<close>). \<open>Params\<close> models \<open>pkg/util/util.go\<close> and \<open>selector.go\<close>; \<open>Api\<close> the types and
  defaults of \<open>api/\<close>; \<open>Validation\<close> the validator \<open>api/validation.go\<close>; \<open>State\<close> the package
  \<open>pkg/state\<close>; \<open>Tuning_Sets\<close> the package \<open>pkg/tuningset\<close>; \<open>Phases\<close> the execution of a phase in
  \<open>pkg/test/simple_test_executor.go\<close>, with its proofs in \<open>Phase_Threads\<close> (the goroutines under any
  schedule), \<open>Phase_State\<close> (the recorded state) and \<open>Phase_Correct\<close> (its properties);
  \<open>Pods\<close> and \<open>Latency\<close> the helpers of \<open>pkg/measurement/util\<close>; \<open>Measurements\<close> the package
  \<open>pkg/measurement\<close>; \<open>Dependencies\<close> the package \<open>pkg/dependency\<close>.
\<close>

end
